(* ===== verification/Lapdev_Prelude.thy ===== *)
theory Lapdev_Prelude
  imports Main "HOL-Library.Word" "HOL-Library.Sublist"
begin

text \<open>
  The vocabulary the components share: machine integers, results, the operations of Rust's
  standard library on strings, byte slices and hash maps that the sources call, and the generic
  lemmas about them. Nothing here models code of the repository.

  A Rust string is a list of bytes; \<^typ>\<open>string\<close> is that list. The operations on strings whose
  Rust meaning refers to Unicode classes (\<^verbatim>\<open>trim\<close>, \<^verbatim>\<open>split_whitespace\<close>, \<^verbatim>\<open>to_lowercase\<close>) are the
  ASCII part of that meaning: they agree with Rust on every string of ASCII characters, which is
  what the callers feed them (host names, header names, decimal numbers, Kubernetes names).

  A hash map is a partial function. Where the code iterates over one, the iteration order is an
  argument of the model (a list of the keys), since Rust leaves it unspecified.
\<close>

unbundle bit_operations_syntax

named_theorems str_simps \<open>rewrite rules for the string operations\<close>
named_theorems be_simps \<open>big-endian encodings and their inverses\<close>

section \<open>Machine integers and results\<close>

type_synonym u8 = "8 word"
type_synonym u16 = "16 word"
type_synonym u32 = "32 word"
type_synonym i32 = "32 word"
type_synonym uuid = "128 word"

abbreviation Ok :: "'a \<Rightarrow> 'e + 'a" where
  "Ok \<equiv> Inr"

abbreviation Err :: "'e \<Rightarrow> 'e + 'a" where
  "Err \<equiv> Inl"

text \<open>The \<^verbatim>\<open>?\<close> operator: an error is returned at once.\<close>

definition and_then :: "'e + 'a \<Rightarrow> ('a \<Rightarrow> 'e + 'b) \<Rightarrow> 'e + 'b" where
  "and_then r f = (case r of Inl e \<Rightarrow> Inl e | Inr x \<Rightarrow> f x)"

lemma and_then_Ok [simp]: "and_then (Ok x) f = f x"
  by (simp add: and_then_def)

lemma and_then_Err [simp]: "and_then (Err e) f = Err e"
  by (simp add: and_then_def)

lemma and_then_eq_Ok:
  "and_then r f = Ok y \<longleftrightarrow> (\<exists>x. r = Ok x \<and> f x = Ok y)"
  by (auto simp: and_then_def split: sum.splits)

definition ok_or :: "'e \<Rightarrow> 'a option \<Rightarrow> 'e + 'a" where
  "ok_or e x = (case x of None \<Rightarrow> Err e | Some y \<Rightarrow> Ok y)"

lemma ok_or_simps [simp]:
  "ok_or e None = Err e" "ok_or e (Some x) = Ok x"
  by (simp_all add: ok_or_def)

lemma ok_or_eq_Ok: "ok_or e x = Ok y \<longleftrightarrow> x = Some y"
  by (auto simp: ok_or_def split: option.splits)

section \<open>Strings\<close>

fun split_on :: "char \<Rightarrow> string \<Rightarrow> string list" where
  "split_on c [] = [[]]"
| "split_on c (x # xs) =
     (if x = c then [] # split_on c xs
      else (case split_on c xs of [] \<Rightarrow> [[x]] | p # ps \<Rightarrow> (x # p) # ps))"

fun join :: "string \<Rightarrow> string list \<Rightarrow> string" where
  "join sep [] = []"
| "join sep [x] = x"
| "join sep (x # y # ys) = x @ sep @ join sep (y # ys)"

fun split_once :: "char \<Rightarrow> string \<Rightarrow> (string \<times> string) option" where
  "split_once c [] = None"
| "split_once c (x # xs) =
     (if x = c then Some ([], xs)
      else map_option (\<lambda>(a, b). (x # a, b)) (split_once c xs))"

definition starts_with :: "'a list \<Rightarrow> 'a list \<Rightarrow> bool" where
  "starts_with s p = (take (length p) s = p)"

definition ends_with :: "'a list \<Rightarrow> 'a list \<Rightarrow> bool" where
  "ends_with s p = (length p \<le> length s \<and> drop (length s - length p) s = p)"

definition CR :: char where "CR = CHR 0x0D"

definition LF :: char where "LF = CHR 0x0A"

definition is_whitespace :: "char \<Rightarrow> bool" where
  "is_whitespace c = (c = CHR '' '' \<or> (9 \<le> (of_char c :: nat) \<and> (of_char c :: nat) \<le> 13))"

definition trim_start :: "string \<Rightarrow> string" where
  "trim_start s = dropWhile is_whitespace s"

definition trim_end :: "string \<Rightarrow> string" where
  "trim_end s = rev (dropWhile is_whitespace (rev s))"

definition trim :: "string \<Rightarrow> string" where
  "trim s = trim_end (trim_start s)"

fun split_whitespace_aux :: "string \<Rightarrow> string \<Rightarrow> string list" where
  "split_whitespace_aux acc [] = (if acc = [] then [] else [rev acc])"
| "split_whitespace_aux acc (c # cs) =
     (if is_whitespace c
      then (if acc = [] then [] else [rev acc]) @ split_whitespace_aux [] cs
      else split_whitespace_aux (c # acc) cs)"

definition split_whitespace :: "string \<Rightarrow> string list" where
  "split_whitespace s = split_whitespace_aux [] s"

definition is_ascii_uppercase :: "char \<Rightarrow> bool" where
  "is_ascii_uppercase c = (65 \<le> (of_char c :: nat) \<and> (of_char c :: nat) \<le> 90)"

definition lower_char :: "char \<Rightarrow> char" where
  "lower_char c = (if is_ascii_uppercase c then char_of ((of_char c :: nat) + 32) else c)"

definition to_lowercase :: "string \<Rightarrow> string" where
  "to_lowercase s = map lower_char s"

definition eq_ignore_ascii_case :: "string \<Rightarrow> string \<Rightarrow> bool" where
  "eq_ignore_ascii_case a b = (to_lowercase a = to_lowercase b)"

text \<open>\<^verbatim>\<open>str::lines\<close>: the terminator is \<open>LF\<close> or \<open>CR LF\<close>, a final terminator opens no line.\<close>

definition strip_cr :: "string \<Rightarrow> string" where
  "strip_cr l = (if l \<noteq> [] \<and> last l = CR then butlast l else l)"

definition lines :: "string \<Rightarrow> string list" where
  "lines s =
     (let ps = split_on LF s; body = map strip_cr (butlast ps)
      in if last ps = [] then body else body @ [last ps])"

text \<open>Decimal numbers: \<^verbatim>\<open>to_string\<close> on unsigned integers and \<^verbatim>\<open>str::parse\<close>.\<close>

definition digit_char :: "nat \<Rightarrow> char" where
  "digit_char d = char_of (48 + d)"

function show_nat :: "nat \<Rightarrow> string" where
  "show_nat n = (if n < 10 then [digit_char n] else show_nat (n div 10) @ [digit_char (n mod 10)])"
  by pat_completeness auto
termination
  by (relation "measure id") auto

declare show_nat.simps [simp del]

definition digit_val :: "char \<Rightarrow> nat option" where
  "digit_val c = (let n = of_char c in if 48 \<le> n \<and> n \<le> 57 then Some (n - 48) else None)"

fun parse_digits :: "nat \<Rightarrow> string \<Rightarrow> nat option" where
  "parse_digits acc [] = Some acc"
| "parse_digits acc (c # cs) =
     (case digit_val c of None \<Rightarrow> None | Some d \<Rightarrow> parse_digits (10 * acc + d) cs)"

text \<open>Rust accepts one leading \<open>+\<close>, refuses the empty string and a sign alone, and reports
  overflow as an error.\<close>

definition parse_uint :: "nat \<Rightarrow> string \<Rightarrow> nat option" where
  "parse_uint limit s =
     (let ds = (case s of [] \<Rightarrow> [] | c # cs \<Rightarrow> if c = CHR ''+'' then cs else s)
      in if ds = [] then None
         else (case parse_digits 0 ds of
                 None \<Rightarrow> None
               | Some n \<Rightarrow> if n < limit then Some n else None))"

definition parse_u16 :: "string \<Rightarrow> u16 option" where
  "parse_u16 s = map_option of_nat (parse_uint (2 ^ 16) s)"

definition show_u16 :: "u16 \<Rightarrow> string" where
  "show_u16 p = show_nat (unat p)"

section \<open>First match in a list\<close>

lemma find_Some_split:
  "find P xs = Some x \<longleftrightarrow> (\<exists>pre post. xs = pre @ x # post \<and> P x \<and> (\<forall>y \<in> set pre. \<not> P y))"
  (is "?l \<longleftrightarrow> ?r")
proof
  assume ?l
  then have "dropWhile (Not \<circ> P) xs = x # tl (dropWhile (Not \<circ> P) xs)" "P x"
    by (auto simp: find_dropWhile find_Some_iff split: list.splits)
       (metis comp_apply dropWhile_eq_Cons_conv)
  then have "xs = takeWhile (Not \<circ> P) xs @ x # tl (dropWhile (Not \<circ> P) xs)"
    by (metis takeWhile_dropWhile_id)
  with \<open>P x\<close> show ?r
    by (metis (mono_tags, lifting) comp_apply set_takeWhileD)
next
  assume ?r
  then obtain pre post where "xs = pre @ x # post" "P x" "\<forall>y \<in> set pre. \<not> P y" by blast
  then show ?l by (induction pre arbitrary: xs) auto
qed

lemma find_None_iff_all: "find P xs = None \<longleftrightarrow> (\<forall>x \<in> set xs. \<not> P x)"
  by (auto simp: find_None_iff)

text \<open>\<^verbatim>\<open>Iterator::find_map\<close>.\<close>

fun find_map :: "('a \<Rightarrow> 'b option) \<Rightarrow> 'a list \<Rightarrow> 'b option" where
  "find_map f [] = None"
| "find_map f (x # xs) = (case f x of Some y \<Rightarrow> Some y | None \<Rightarrow> find_map f xs)"

lemma find_map_append:
  "find_map f (xs @ ys) = (case find_map f xs of Some y \<Rightarrow> Some y | None \<Rightarrow> find_map f ys)"
  by (induction xs) (auto split: option.splits)

lemma find_map_None: "find_map f xs = None \<longleftrightarrow> (\<forall>x \<in> set xs. f x = None)"
  by (induction xs) (auto split: option.splits)

section \<open>UTF-8\<close>

text \<open>
  One step of Rust's UTF-8 decoder on a non-empty byte string: whether the string begins with a
  well-formed character, and how many bytes that character (or the ill-formed maximal subpart,
  which the lossy conversion replaces by one U+FFFD) takes.
\<close>

definition cont_byte :: "nat \<Rightarrow> nat \<Rightarrow> string \<Rightarrow> nat \<Rightarrow> bool" where
  "cont_byte lo hi s i =
     (i < length s \<and> lo \<le> (of_char (s ! i) :: nat) \<and> (of_char (s ! i) :: nat) \<le> hi)"

definition utf8_step :: "string \<Rightarrow> bool \<times> nat" where
  "utf8_step s =
     (let b = of_char (hd s) :: nat;
          c = cont_byte 128 191 s;
          three = (\<lambda>lo hi. if \<not> cont_byte lo hi s 1 then (False, 1)
                           else if \<not> c 2 then (False, 2) else (True, 3));
          four = (\<lambda>lo hi. if \<not> cont_byte lo hi s 1 then (False, 1)
                          else if \<not> c 2 then (False, 2)
                          else if \<not> c 3 then (False, 3) else (True, 4))
      in if b < 128 then (True, 1)
         else if 194 \<le> b \<and> b \<le> 223 then (if c 1 then (True, 2) else (False, 1))
         else if b = 224 then three 160 191
         else if b = 237 then three 128 159
         else if 225 \<le> b \<and> b \<le> 239 then three 128 191
         else if b = 240 then four 144 191
         else if 241 \<le> b \<and> b \<le> 243 then four 128 191
         else if b = 244 then four 128 143
         else (False, 1))"

lemma utf8_step_pos: "0 < snd (utf8_step s)"
  by (simp add: utf8_step_def Let_def)

function utf8_valid :: "string \<Rightarrow> bool" where
  "utf8_valid s =
     (if s = [] then True
      else fst (utf8_step s) \<and> utf8_valid (drop (snd (utf8_step s)) s))"
  by pat_completeness auto
termination
  by (relation "measure length") (auto simp: utf8_step_pos)

function from_utf8_lossy :: "string \<Rightarrow> string" where
  "from_utf8_lossy s =
     (if s = [] then []
      else (let n = snd (utf8_step s)
            in (if fst (utf8_step s) then take n s else [CHR 0xEF, CHR 0xBF, CHR 0xBD])
               @ from_utf8_lossy (drop n s)))"
  by pat_completeness auto
termination
  by (relation "measure length") (auto simp: utf8_step_pos)

declare utf8_valid.simps [simp del] from_utf8_lossy.simps [simp del]

lemma utf8_valid_Nil [simp]: "utf8_valid []"
  by (simp add: utf8_valid.simps)

lemma from_utf8_lossy_valid: "utf8_valid s \<Longrightarrow> from_utf8_lossy s = s"
proof (induction s rule: utf8_valid.induct)
  case (1 s)
  show ?case
  proof (cases "s = []")
    case False
    with "1.prems" have "fst (utf8_step s)" "utf8_valid (drop (snd (utf8_step s)) s)"
      by (simp_all add: utf8_valid.simps [of s])
    with False "1.IH" show ?thesis
      by (simp add: from_utf8_lossy.simps [of s] Let_def)
  qed (simp add: from_utf8_lossy.simps)
qed

definition is_ascii :: "string \<Rightarrow> bool" where
  "is_ascii s = list_all (\<lambda>c. (of_char c :: nat) < 128) s"

lemma is_ascii_utf8_valid: "is_ascii s \<Longrightarrow> utf8_valid s"
proof (induction s)
  case (Cons c cs)
  then have "utf8_step (c # cs) = (True, 1)"
    by (simp add: utf8_step_def is_ascii_def)
  with Cons show ?case
    by (simp add: utf8_valid.simps [of "c # cs"] is_ascii_def)
qed simp

section \<open>Errors of the standard library\<close>

text \<open>\<^verbatim>\<open>std::io::ErrorKind\<close> (the kinds the sources name) and \<^verbatim>\<open>std::io::Error\<close>.\<close>

datatype io_kind =
    InvalidData | InvalidInput | UnexpectedEof | WouldBlock | TimedOut
  | ConnectionReset | ConnectionAborted | ConnectionRefused | NotConnected | BrokenPipe | Other

datatype io_error = IoError (kind: io_kind) (io_message: string)

section \<open>Network addresses\<close>

type_synonym bytes = "u8 list"

text \<open>The octets of an address: four for IPv4, sixteen for IPv6.\<close>

datatype ip_addr = V4 bytes | V6 bytes

record socket_addr =
  sa_ip :: ip_addr
  sa_port :: u16

fun ip_wf :: "ip_addr \<Rightarrow> bool" where
  "ip_wf (V4 bs) = (length bs = 4)"
| "ip_wf (V6 bs) = (length bs = 16)"

section \<open>Hash maps\<close>

text \<open>An iteration order of a hash map: every key once.\<close>

definition iter_order :: "('k \<rightharpoonup> 'v) \<Rightarrow> 'k list \<Rightarrow> bool" where
  "iter_order m ks = (distinct ks \<and> set ks = dom m)"

lemma iter_orderD: "iter_order m ks \<Longrightarrow> set ks = dom m"
  by (simp add: iter_order_def)

lemma map_of_key_list_finite: "iter_order m ks \<Longrightarrow> finite (dom m)"
  by (metis finite_set iter_orderD)

section \<open>Lemmas on strings\<close>

lemma split_on_not_Nil [simp]: "split_on c s \<noteq> []"
  by (cases s) (auto split: list.splits)

lemma join_Cons_not_Nil: "ps \<noteq> [] \<Longrightarrow> join sep (p # ps) = p @ sep @ join sep ps"
  by (cases ps) auto

lemma join_head_Cons: "join sep ((x # p) # ps) = x # join sep (p # ps)"
  by (cases ps) auto

lemma join_split_on [str_simps]: "join [c] (split_on c s) = s"
proof (induction s)
  case (Cons x xs)
  then show ?case
    by (cases "split_on c xs") (auto simp: join_Cons_not_Nil join_head_Cons)
qed simp

lemma split_on_no_sep: "c \<notin> set s \<Longrightarrow> split_on c s = [s]"
  by (induction s) auto

lemma split_on_append_sep:
  "c \<notin> set p \<Longrightarrow> split_on c (p @ c # s) = p # split_on c s"
  by (induction p) auto

lemma split_on_join:
  "ps \<noteq> [] \<Longrightarrow> \<forall>p \<in> set ps. c \<notin> set p \<Longrightarrow> split_on c (join [c] ps) = ps"
  by (induction "[c]" ps rule: join.induct) (auto simp: split_on_no_sep split_on_append_sep)

lemma split_on_parts: "p \<in> set (split_on c s) \<Longrightarrow> c \<notin> set p"
proof (induction s arbitrary: p)
  case (Cons x xs)
  then show ?case
    by (cases "split_on c xs") (auto split: if_splits)
qed simp

lemma split_on_append:
  "split_on c (s @ c # t) = split_on c s @ split_on c t"
proof (induction s)
  case (Cons x xs)
  then show ?case
    by (cases "split_on c xs") auto
qed simp

lemma join_append:
  "ps \<noteq> [] \<Longrightarrow> qs \<noteq> [] \<Longrightarrow> join sep (ps @ qs) = join sep ps @ sep @ join sep qs"
proof (induction ps)
  case (Cons p ps)
  then show ?case
    by (cases ps) (auto simp: join_Cons_not_Nil)
qed simp

lemma split_once_Some:
  "split_once c s = Some (a, b) \<longleftrightarrow> s = a @ c # b \<and> c \<notin> set a"
proof (induction s arbitrary: a)
  case (Cons x xs)
  show ?case
  proof (cases "x = c")
    case True
    then show ?thesis by (cases a) auto
  next
    case False
    then show ?thesis using Cons.IH by (cases a) auto
  qed
qed simp

lemma starts_with_append [simp]: "starts_with (p @ s) p"
  by (simp add: starts_with_def)

lemma starts_with_iff: "starts_with s p \<longleftrightarrow> (\<exists>t. s = p @ t)"
  by (metis append_take_drop_id starts_with_append starts_with_def)

lemma ends_with_append [simp]: "ends_with (s @ p) p"
  by (simp add: ends_with_def)

lemma ends_with_iff: "ends_with s p \<longleftrightarrow> (\<exists>t. s = t @ p)"
  by (metis append_take_drop_id ends_with_append ends_with_def)

lemma eq_ignore_ascii_case_refl [simp]: "eq_ignore_ascii_case a a"
  by (simp add: eq_ignore_ascii_case_def)

lemma digit_char_val: "d < 10 \<Longrightarrow> digit_val (digit_char d) = Some d"
  by (simp add: digit_val_def digit_char_def Let_def)

lemma digit_char_neq: "d < 10 \<Longrightarrow> digit_char d = c \<Longrightarrow> 48 \<le> (of_char c :: nat) \<and> (of_char c :: nat) \<le> 57"
  by (auto simp: digit_char_def)

lemma parse_digits_append:
  "parse_digits acc (s @ t) =
     (case parse_digits acc s of None \<Rightarrow> None | Some n \<Rightarrow> parse_digits n t)"
  by (induction s arbitrary: acc) (auto split: option.splits)

lemma parse_digits_show_nat: "parse_digits 0 (show_nat n) = Some n"
proof (induction n rule: show_nat.induct)
  case (1 n)
  then show ?case
    by (simp add: show_nat.simps [of n] parse_digits_append digit_char_val)
qed

lemma show_nat_digits: "c \<in> set (show_nat n) \<Longrightarrow> \<exists>d < 10. c = digit_char d"
proof (induction n rule: show_nat.induct)
  case (1 n)
  have "n mod 10 < 10" by simp
  with "1" show ?case
    by (cases "n < 10") (auto simp: show_nat.simps [of n] simp del: mod_less_divisor)
qed

lemma show_nat_not_Nil [simp]: "show_nat n \<noteq> []"
  by (simp add: show_nat.simps [of n])

lemma show_nat_no: "\<not> (48 \<le> (of_char c :: nat) \<and> (of_char c :: nat) \<le> 57) \<Longrightarrow> c \<notin> set (show_nat n)"
  using show_nat_digits digit_char_neq by blast

lemma parse_uint_show_nat:
  assumes "n < limit"
  shows "parse_uint limit (show_nat n) = Some n"
proof -
  have "CHR ''+'' \<notin> set (show_nat n)"
    by (rule show_nat_no) simp
  then have "hd (show_nat n) \<noteq> CHR ''+''"
    by (metis hd_in_set show_nat_not_Nil)
  then have "(case show_nat n of [] \<Rightarrow> [] | c # cs \<Rightarrow> if c = CHR ''+'' then cs else show_nat n)
      = show_nat n"
    by (cases "show_nat n") auto
  with assms show ?thesis
    by (simp add: parse_uint_def parse_digits_show_nat)
qed

lemma parse_u16_show_u16 [str_simps]: "parse_u16 (show_u16 p) = Some p"
proof -
  have "unat p < 2 ^ 16"
    using unsigned_less [of p] by simp
  then show ?thesis
    by (simp add: parse_u16_def show_u16_def parse_uint_show_nat)
qed

end
