(* ===== verification/Http_Parser.thy ===== *)
theory Http_Parser
  imports Lapdev_Prelude
begin

text \<open>
  \<^verbatim>\<open>crates/kube-rpc/src/http_parser.rs\<close>: reading an HTTP header block from a stream in chunks, and
  looking headers up. The parser \<^verbatim>\<open>httparse\<close> is a parameter of the model.

  A stream is what it will deliver: chunks of bytes, errors and the passing of the caller's
  deadline. A read of at most \<open>n\<close> bytes takes from the first chunk and leaves the rest of it.
  After the last event the stream is at its end, where a read returns zero bytes.
\<close>

section \<open>Streams\<close>

datatype read_event = Bytes string | ReadError io_error | Elapse

record reader =
  pending :: "read_event list"
  expired :: bool

fun stream_bytes :: "read_event list \<Rightarrow> string" where
  "stream_bytes [] = []"
| "stream_bytes (Bytes bs # es) = bs @ stream_bytes es"
| "stream_bytes (_ # es) = stream_bytes es"

text \<open>\<^verbatim>\<open>AsyncReadExt::read\<close> into a buffer of \<open>n\<close> bytes, without a deadline.\<close>

fun stream_read :: "nat \<Rightarrow> read_event list \<Rightarrow> (io_error + string) \<times> read_event list" where
  "stream_read n [] = (Ok [], [])"
| "stream_read n (Bytes bs # es) =
     (Ok (take n bs), if length bs \<le> n then es else Bytes (drop n bs) # es)"
| "stream_read n (ReadError e # es) = (Err e, es)"
| "stream_read n (Elapse # es) = stream_read n es"

text \<open>The same read under a deadline that has not passed: \<open>None\<close> when it passes first.\<close>

fun stream_read_until :: "nat \<Rightarrow> read_event list \<Rightarrow> (io_error + string) option \<times> read_event list" where
  "stream_read_until n (Elapse # es) = (None, es)"
| "stream_read_until n es = (let (r, es') = stream_read n es in (Some r, es'))"

section \<open>The header reader\<close>

datatype header_read_status = Complete | TimedOut

record parsed_http_request =
  http_method :: string
  http_path :: string
  http_headers :: "(string \<times> string) list"

definition MAX_HEADER_SIZE :: nat where "MAX_HEADER_SIZE = 8192"

definition READ_CHUNK_SIZE :: nat where "READ_CHUNK_SIZE = 1024"

definition HEADER_END_MARKER :: string where "HEADER_END_MARKER = [CR, LF, CR, LF]"

fun windows :: "nat \<Rightarrow> 'a list \<Rightarrow> 'a list list" where
  "windows n [] = (if n = 0 then [[]] else [])"
| "windows n (x # xs) = (if length (x # xs) < n then [] else take n (x # xs) # windows n xs)"

definition headers_complete :: "string \<Rightarrow> string \<Rightarrow> bool" where
  "headers_complete buffer marker = list_ex (\<lambda>window. window = marker) (windows (length marker) buffer)"

definition read_chunk_with_deadline ::
    "reader \<Rightarrow> nat \<Rightarrow> bool \<Rightarrow> (io_error + string option) \<times> reader" where
  "read_chunk_with_deadline r n deadline =
     (if n = 0 then (Ok (Some []), r)
      else if deadline then
        (if expired r then (Ok None, r)
         else (case stream_read_until n (pending r) of
                 (None, es) \<Rightarrow> (Ok None, \<lparr>pending = es, expired = True\<rparr>)
               | (Some (Inl e), es) \<Rightarrow> (Err e, r\<lparr>pending := es\<rparr>)
               | (Some (Inr bs), es) \<Rightarrow> (Ok (Some bs), r\<lparr>pending := es\<rparr>)))
      else (case stream_read n (pending r) of
              (Inl e, es) \<Rightarrow> (Err e, r\<lparr>pending := es\<rparr>)
            | (Inr bs, es) \<Rightarrow> (Ok (Some bs), r\<lparr>pending := es\<rparr>)))"

text \<open>The \<^verbatim>\<open>while\<close> loop and what follows it. Each round that goes on has read at least one byte.\<close>

function read_headers_loop ::
    "reader \<Rightarrow> string \<Rightarrow> bool \<Rightarrow> (io_error + header_read_status) \<times> string \<times> reader" where
  "read_headers_loop r buffer deadline =
     (if length buffer < MAX_HEADER_SIZE then
        (let prev_len = length buffer;
             read_len = min (MAX_HEADER_SIZE - prev_len) READ_CHUNK_SIZE
         in case read_chunk_with_deadline r read_len deadline of
              (Inl e, r') \<Rightarrow> (Err e, buffer, r')
            | (Inr None, r') \<Rightarrow> (Ok TimedOut, buffer, r')
            | (Inr (Some bs), r') \<Rightarrow>
                (if bs = [] then
                   (Err (IoError UnexpectedEof
                      ''Connection closed before complete HTTP headers received''), buffer, r')
                 else
                   (let buffer' = buffer @ bs;
                        search_start =
                          (if prev_len \<ge> length HEADER_END_MARKER - 1
                           then prev_len - (length HEADER_END_MARKER - 1) else 0)
                    in if headers_complete (drop search_start buffer') HEADER_END_MARKER
                       then (Ok Complete, buffer', r')
                       else read_headers_loop r' buffer' deadline)))
      else (Err (IoError InvalidData ''HTTP headers exceed maximum size of 8192 bytes''), buffer, r))"
  by pat_completeness auto
termination
  by (relation "measure (\<lambda>(r, buffer, deadline). MAX_HEADER_SIZE - length buffer)")
    (auto simp: neq_Nil_conv)

declare read_headers_loop.simps [simp del]

definition read_http_headers_with_deadline ::
    "reader \<Rightarrow> string \<Rightarrow> bool \<Rightarrow> (io_error + header_read_status) \<times> string \<times> reader" where
  "read_http_headers_with_deadline r buffer deadline =
     (if headers_complete buffer HEADER_END_MARKER then (Ok Complete, buffer, r)
      else read_headers_loop r buffer deadline)"

definition read_http_headers :: "reader \<Rightarrow> string \<Rightarrow> (io_error + unit) \<times> string \<times> reader" where
  "read_http_headers r buffer =
     (case read_http_headers_with_deadline r buffer False of
        (Inl e, buffer', r') \<Rightarrow> (Err e, buffer', r')
      | (Inr _, buffer', r') \<Rightarrow> (Ok (), buffer', r'))"

section \<open>Parsing and header lookup\<close>

text \<open>What the code uses of a parsed \<^verbatim>\<open>httparse::Request\<close>, and the outcome of the parse.\<close>

record httparse_request =
  req_method :: "string option"
  req_path :: "string option"
  req_headers :: "(string \<times> string) list"

datatype httparse_status = StComplete nat | StPartial

type_synonym httparse = "string \<Rightarrow> string + (httparse_status \<times> httparse_request)"

definition parse_http_request_from_buffer ::
    "httparse \<Rightarrow> string \<Rightarrow> io_error + (parsed_http_request \<times> nat)" where
  "parse_http_request_from_buffer parse buffer =
     (case parse buffer of
        Inl e \<Rightarrow> Err (IoError InvalidData (''HTTP parse error: '' @ e))
      | Inr (StPartial, req) \<Rightarrow> Err (IoError InvalidData ''Incomplete HTTP request'')
      | Inr (StComplete body_start, req) \<Rightarrow>
          and_then (ok_or (IoError InvalidData ''Missing HTTP method'') (req_method req)) (\<lambda>m.
          and_then (ok_or (IoError InvalidData ''Missing HTTP path'') (req_path req)) (\<lambda>p.
          Ok (\<lparr>http_method = m, http_path = p,
               http_headers = map (\<lambda>(name, value). (name, from_utf8_lossy value)) (req_headers req)\<rparr>,
              body_start))))"

definition get_content_length :: "(string \<times> string) list \<Rightarrow> nat option" where
  "get_content_length hs =
     Option.bind (find (\<lambda>(name, _). to_lowercase name = ''content-length'') hs)
       (\<lambda>(_, value). parse_uint (2 ^ 64) value)"

definition get_host_header :: "(string \<times> string) list \<Rightarrow> string option" where
  "get_host_header hs =
     map_option snd (find (\<lambda>(name, _). to_lowercase name = ''host'') hs)"

definition get_header_value :: "(string \<times> string) list \<Rightarrow> string \<Rightarrow> string option" where
  "get_header_value hs header_name =
     (let target_name = to_lowercase header_name
      in map_option snd (find (\<lambda>(name, _). to_lowercase name = target_name) hs))"


section \<open>The interface of a chunked read\<close>

text \<open>
  What a loop over chunked reads relies on: a read hands over a prefix of what the stream still
  holds, at most as long as asked for, and a timeout or an error consumes nothing. The reads of this
  component and of the protocol detector are instances.
\<close>

locale chunk_reader =
  fixes rd :: "'r \<Rightarrow> nat \<Rightarrow> bool \<Rightarrow> (io_error + string option) \<times> 'r"
    and rest :: "'r \<Rightarrow> string"
  assumes rd_data: "rd r n d = (Ok (Some bs), r') \<Longrightarrow> rest r = bs @ rest r'"
    and rd_length: "rd r n d = (Ok (Some bs), r') \<Longrightarrow> length bs \<le> n"
    and rd_timeout: "rd r n d = (Ok None, r') \<Longrightarrow> rest r' = rest r"
    and rd_error: "rd r n d = (Err e, r') \<Longrightarrow> rest r' = rest r"
begin

lemma rd_append: "rd r n d = (Ok (Some bs), r') \<Longrightarrow> (buffer @ bs) @ rest r' = buffer @ rest r"
  by (simp add: rd_data)

lemma rd_append_bound:
  "rd r (min (limit - length buffer) chunk) d = (Ok (Some bs), r') \<Longrightarrow>
   length buffer \<le> limit \<Longrightarrow> length (buffer @ bs) \<le> limit"
  by (drule rd_length) auto

lemma rd_no_data: "rd r n d = (res, r') \<Longrightarrow> (\<forall>bs. res \<noteq> Ok (Some bs)) \<Longrightarrow> rest r' = rest r"
  by (metis not_Some_eq rd_error rd_timeout sumE)

end

lemma stream_read_Ok:
  "stream_read n es = (Ok bs, es') \<Longrightarrow> stream_bytes es = bs @ stream_bytes es' \<and> length bs \<le> n"
proof (induction n es rule: stream_read.induct)
  case (2 n bs' es)
  then show ?case by (auto split: if_splits)
qed auto

lemma stream_read_Err: "stream_read n es = (Err e, es') \<Longrightarrow> stream_bytes es' = stream_bytes es"
  by (induction n es rule: stream_read.induct) auto

lemma stream_read_until_Ok:
  "stream_read_until n es = (Some (Ok bs), es') \<Longrightarrow> stream_bytes es = bs @ stream_bytes es' \<and> length bs \<le> n"
  by (cases "(n, es)" rule: stream_read_until.cases)
    (auto simp: Let_def split: prod.splits dest!: stream_read_Ok)

lemma stream_read_until_no_data:
  "stream_read_until n es = (res, es') \<Longrightarrow> (\<forall>bs. res \<noteq> Some (Ok bs)) \<Longrightarrow>
   stream_bytes es' = stream_bytes es"
  by (cases "(n, es)" rule: stream_read_until.cases)
    (auto simp: Let_def split: prod.splits sum.splits dest!: stream_read_Err; metis sumE stream_read_Err)+

abbreviation rest_bytes :: "reader \<Rightarrow> string" where
  "rest_bytes r \<equiv> stream_bytes (pending r)"

interpretation http_chunks: chunk_reader read_chunk_with_deadline rest_bytes
  by unfold_locales
    (auto simp: read_chunk_with_deadline_def split: if_splits prod.splits sum.splits option.splits
       dest: stream_read_Ok stream_read_Err stream_read_until_Ok stream_read_until_no_data)


section \<open>The marker search\<close>

lemma windows_ex:
  "w \<noteq> [] \<Longrightarrow> list_ex (\<lambda>v. v = w) (windows (length w) xs) \<longleftrightarrow> sublist w xs"
proof (induction xs)
  case (Cons x xs)
  have "prefix w (x # xs) \<longleftrightarrow> length w \<le> length (x # xs) \<and> take (length w) (x # xs) = w"
    by (metis append_eq_conv_conj prefix_def prefix_length_le take_is_prefix)
  moreover have "sublist w (x # xs) \<Longrightarrow> length w \<le> length (x # xs)"
    by (rule sublist_length_le)
  ultimately show ?case
    using Cons by (auto simp: sublist_Cons_right)
qed simp

lemma HEADER_END_MARKER_length [simp]: "length HEADER_END_MARKER = 4"
  by (simp add: HEADER_END_MARKER_def)

lemma headers_complete_iff: "headers_complete buffer HEADER_END_MARKER \<longleftrightarrow> sublist HEADER_END_MARKER buffer"
  unfolding headers_complete_def by (rule windows_ex) (simp add: HEADER_END_MARKER_def)

text \<open>
  A word that is not in the old buffer but in the extended one ends in the new bytes, so the search
  may start \<open>length w - 1\<close> bytes before them.
\<close>

lemma sublist_append_overlap:
  assumes "\<not> sublist w old" and "w \<noteq> []"
  shows "sublist w (old @ new) \<longleftrightarrow> sublist w (drop (length old - (length w - 1)) (old @ new))"
    (is "_ \<longleftrightarrow> sublist w (drop ?k _)")
proof
  assume "sublist w (old @ new)"
  then obtain ps ss where eq: "old @ new = ps @ w @ ss"
    by (auto simp: sublist_def)
  have "?k \<le> length ps"
  proof (rule ccontr)
    assume "\<not> ?k \<le> length ps"
    then have "length (ps @ w) \<le> length old"
      using assms(2) by (cases w) auto
    moreover have "old = take (length old) (ps @ w @ ss)"
      by (metis append_eq_conv_conj eq)
    ultimately have "old = ps @ w @ take (length old - length ps - length w) ss"
      by simp
    with assms(1) show False
      by (metis sublist_def)
  qed
  then have "drop ?k (old @ new) = drop ?k ps @ w @ ss"
    by (simp only: eq drop_append) simp
  then show "sublist w (drop ?k (old @ new))"
    by (metis sublist_def)
next
  assume "sublist w (drop ?k (old @ new))"
  then show "sublist w (old @ new)"
    by (metis sublist_drop sublist_order.order_trans)
qed

corollary incremental_search:
  assumes "\<not> headers_complete buffer HEADER_END_MARKER"
  shows "headers_complete (drop (if length buffer \<ge> length HEADER_END_MARKER - 1
            then length buffer - (length HEADER_END_MARKER - 1) else 0) (buffer @ bs)) HEADER_END_MARKER
    \<longleftrightarrow> headers_complete (buffer @ bs) HEADER_END_MARKER"
proof -
  have start: "(if length buffer \<ge> length HEADER_END_MARKER - 1
      then length buffer - (length HEADER_END_MARKER - 1) else 0)
    = length buffer - (length HEADER_END_MARKER - 1)"
    by simp
  have "HEADER_END_MARKER \<noteq> []"
    by (simp add: HEADER_END_MARKER_def)
  with assms show ?thesis
    unfolding start headers_complete_iff by (rule sublist_append_overlap [symmetric])
qed

lemmas incremental_search_simps = incremental_search incremental_search [simplified]


section \<open>The read loop\<close>

text \<open>
  The induction rule of the loop: one case per way a round can end, with the search already
  replaced by a search of the whole buffer.
\<close>

abbreviation round_len :: "string \<Rightarrow> nat" where
  "round_len buffer \<equiv> min (MAX_HEADER_SIZE - length buffer) READ_CHUNK_SIZE"

lemma read_headers_loop_rule [consumes 2, case_names limit error timeout eof found more]:
  assumes "read_headers_loop r buffer d = (res, buffer', r')"
    and "\<not> headers_complete buffer HEADER_END_MARKER"
    and limit: "\<And>r b d. MAX_HEADER_SIZE \<le> length b \<Longrightarrow> \<not> headers_complete b HEADER_END_MARKER \<Longrightarrow>
      P r b d (Err (IoError InvalidData ''HTTP headers exceed maximum size of 8192 bytes'')) b r"
    and error: "\<And>r b d e r'. length b < MAX_HEADER_SIZE \<Longrightarrow> \<not> headers_complete b HEADER_END_MARKER \<Longrightarrow>
      read_chunk_with_deadline r (round_len b) d = (Err e, r') \<Longrightarrow> P r b d (Err e) b r'"
    and timeout: "\<And>r b d r'. length b < MAX_HEADER_SIZE \<Longrightarrow> \<not> headers_complete b HEADER_END_MARKER \<Longrightarrow>
      read_chunk_with_deadline r (round_len b) d = (Ok None, r') \<Longrightarrow> P r b d (Ok TimedOut) b r'"
    and eof: "\<And>r b d r'. length b < MAX_HEADER_SIZE \<Longrightarrow> \<not> headers_complete b HEADER_END_MARKER \<Longrightarrow>
      read_chunk_with_deadline r (round_len b) d = (Ok (Some []), r') \<Longrightarrow>
      P r b d (Err (IoError UnexpectedEof
        ''Connection closed before complete HTTP headers received'')) b r'"
    and found: "\<And>r b d bs r'. length b < MAX_HEADER_SIZE \<Longrightarrow> \<not> headers_complete b HEADER_END_MARKER \<Longrightarrow>
      read_chunk_with_deadline r (round_len b) d = (Ok (Some bs), r') \<Longrightarrow>
      headers_complete (b @ bs) HEADER_END_MARKER \<Longrightarrow> P r b d (Ok Complete) (b @ bs) r'"
    and more: "\<And>r b d bs r1 res b' r'. length b < MAX_HEADER_SIZE \<Longrightarrow>
      \<not> headers_complete b HEADER_END_MARKER \<Longrightarrow>
      read_chunk_with_deadline r (round_len b) d = (Ok (Some bs), r1) \<Longrightarrow>
      P r1 (b @ bs) d res b' r' \<Longrightarrow> P r b d res b' r'"
  shows "P r buffer d res buffer' r'"
  using assms(1,2)
proof (induction r buffer d arbitrary: res buffer' r' rule: read_headers_loop.induct)
  case (1 r buffer d)
  show ?case
  proof (cases "length buffer < MAX_HEADER_SIZE")
    case False
    with "1.prems" limit show ?thesis
      by (simp add: read_headers_loop.simps [of r buffer])
  next
    case lt: True
    obtain x r1 where rd: "read_chunk_with_deadline r (round_len buffer) d = (x, r1)"
      by fastforce
    consider e where "x = Err e" | "x = Ok None" | "x = Ok (Some [])"
      | bs where "x = Ok (Some bs)" "bs \<noteq> []"
      by (metis not_Some_eq sumE)
    then show ?thesis
    proof cases
      case (4 bs)
      with lt rd "1.prems" have run:
        "(if headers_complete (buffer @ bs) HEADER_END_MARKER then (Ok Complete, buffer @ bs, r1)
          else read_headers_loop r1 (buffer @ bs) d) = (res, buffer', r')"
        by (simp add: read_headers_loop.simps [of r buffer] Let_def incremental_search_simps)
      show ?thesis
      proof (cases "headers_complete (buffer @ bs) HEADER_END_MARKER")
        case True
        with run found lt rd 4 "1.prems"(2) show ?thesis by auto
      next
        case False
        then have "P r1 (buffer @ bs) d res buffer' r'"
          using "1.IH" lt rd 4 run "1.prems"(2) by (auto simp: incremental_search_simps)
        with more lt rd 4 "1.prems"(2) show ?thesis by blast
      qed
    qed (use lt rd "1.prems" error timeout eof in
        \<open>auto simp: read_headers_loop.simps [of r buffer] Let_def\<close>)
  qed
qed

lemma read_headers_loop_bytes:
  "read_headers_loop r buffer d = (res, buffer', r') \<Longrightarrow>
   \<not> headers_complete buffer HEADER_END_MARKER \<Longrightarrow>
   buffer' @ rest_bytes r' = buffer @ rest_bytes r"
  by (induction rule: read_headers_loop_rule)
    (auto dest: http_chunks.rd_data http_chunks.rd_timeout http_chunks.rd_error)

lemma read_headers_loop_bound:
  "read_headers_loop r buffer d = (res, buffer', r') \<Longrightarrow>
   \<not> headers_complete buffer HEADER_END_MARKER \<Longrightarrow>
   length buffer \<le> MAX_HEADER_SIZE \<longrightarrow> length buffer' \<le> MAX_HEADER_SIZE"
  by (induction rule: read_headers_loop_rule) (auto dest!: http_chunks.rd_append_bound)

lemma read_headers_loop_complete:
  "read_headers_loop r buffer d = (res, buffer', r') \<Longrightarrow>
   \<not> headers_complete buffer HEADER_END_MARKER \<Longrightarrow>
   res = Ok Complete \<longleftrightarrow> headers_complete buffer' HEADER_END_MARKER"
  by (induction rule: read_headers_loop_rule) auto

lemma read_http_headers_bytes_bound:
  assumes "read_http_headers_with_deadline r buffer deadline = (res, buffer', r')"
  shows "buffer' @ rest_bytes r' = buffer @ rest_bytes r"
    and "length buffer \<le> MAX_HEADER_SIZE \<Longrightarrow> length buffer' \<le> MAX_HEADER_SIZE"
  using assms
  by (auto simp: read_http_headers_with_deadline_def split: if_splits
      dest: read_headers_loop_bytes read_headers_loop_bound)

text \<open>
  The header reader never loses, duplicates or reorders a byte and never buffers more than its
  limit: whatever the outcome (complete, timed out, or any error), the buffer it leaves followed by
  what is still in the stream is the buffer it was given followed by what the stream held, and the
  outcome is \<open>Complete\<close> exactly when the buffer holds the blank line that ends the headers.
\<close>

theorem read_http_headers_sound:
  assumes "read_http_headers_with_deadline r buffer deadline = (res, buffer', r')"
    and "length buffer \<le> MAX_HEADER_SIZE"
  shows "buffer' @ rest_bytes r' = buffer @ rest_bytes r
    \<and> length buffer' \<le> MAX_HEADER_SIZE
    \<and> (res = Ok Complete \<longleftrightarrow> headers_complete buffer' HEADER_END_MARKER)"
  using assms
  by (auto simp: read_http_headers_with_deadline_def split: if_splits
      dest: read_headers_loop_bytes read_headers_loop_bound read_headers_loop_complete)

definition plain :: "read_event list \<Rightarrow> bool" where
  "plain es = list_all (\<lambda>e. case e of Bytes bs \<Rightarrow> bs \<noteq> [] | _ \<Rightarrow> False) es"

lemma plain_Cons: "plain (e # es) \<longleftrightarrow> (\<exists>bs. e = Bytes bs \<and> bs \<noteq> []) \<and> plain es"
  by (cases e) (auto simp: plain_def)

lemma plain_cases:
  assumes "plain es"
  obtains "es = []" | bs es' where "es = Bytes bs # es'" "bs \<noteq> []" "plain es'"
  using assms by (cases es) (auto simp: plain_Cons plain_def [of "[]"])

lemma read_chunk_plain:
  assumes "plain (pending r)" and "d \<longrightarrow> \<not> expired r" and "0 < n"
  obtains bs r' where "read_chunk_with_deadline r n d = (Ok (Some bs), r')"
    and "plain (pending r')" and "d \<longrightarrow> \<not> expired r'" and "bs = [] \<longleftrightarrow> rest_bytes r = []"
proof (rule plain_cases [OF assms(1)])
  assume "pending r = []"
  with assms that show ?thesis
    by (auto simp: read_chunk_with_deadline_def)
next
  fix bs es assume "pending r = Bytes bs # es" "bs \<noteq> []" "plain es"
  with assms that show ?thesis
    by (cases d; cases "length bs \<le> n") (auto simp: read_chunk_with_deadline_def plain_Cons)
qed

text \<open>What the reader decides, as a function of the bytes alone.\<close>

definition header_read_spec :: "string \<Rightarrow> io_error + header_read_status" where
  "header_read_spec input =
     (if headers_complete (take MAX_HEADER_SIZE input) HEADER_END_MARKER then Ok Complete
      else if MAX_HEADER_SIZE \<le> length input
      then Err (IoError InvalidData ''HTTP headers exceed maximum size of 8192 bytes'')
      else Err (IoError UnexpectedEof ''Connection closed before complete HTTP headers received''))"

lemma headers_complete_prefix:
  "headers_complete xs HEADER_END_MARKER \<Longrightarrow> headers_complete (xs @ ys) HEADER_END_MARKER"
  by (auto simp: headers_complete_iff intro: sublist_appendI sublist_order.order_trans)

lemma header_read_spec_complete:
  assumes "headers_complete xs HEADER_END_MARKER" and "length xs \<le> MAX_HEADER_SIZE"
  shows "header_read_spec (xs @ ys) = Ok Complete"
proof -
  have "take MAX_HEADER_SIZE (xs @ ys) = xs @ take (MAX_HEADER_SIZE - length xs) ys"
    using assms(2) by simp
  with assms(1) show ?thesis
    by (simp add: header_read_spec_def headers_complete_prefix)
qed

text \<open>A stream with no errors and no deadline in sight delivers data until it is empty.\<close>

definition undisturbed :: "reader \<Rightarrow> bool \<Rightarrow> bool" where
  "undisturbed r d = (plain (pending r) \<and> (d \<longrightarrow> \<not> expired r))"

lemma read_chunk_undisturbed:
  assumes "read_chunk_with_deadline r n d = (x, r')" and "undisturbed r d" and "0 < n"
  shows "\<exists>bs. x = Ok (Some bs) \<and> undisturbed r' d \<and> (bs = [] \<longleftrightarrow> rest_bytes r = [])"
  using assms by (metis (no_types, lifting) Pair_inject read_chunk_plain undisturbed_def)

lemma round_len_pos: "length b < MAX_HEADER_SIZE \<Longrightarrow> 0 < round_len b"
  by (simp add: READ_CHUNK_SIZE_def)

lemma read_headers_loop_spec:
  "read_headers_loop r buffer d = (res, buffer', r') \<Longrightarrow>
   \<not> headers_complete buffer HEADER_END_MARKER \<Longrightarrow>
   undisturbed r d \<longrightarrow> length buffer \<le> MAX_HEADER_SIZE \<longrightarrow>
   res = header_read_spec (buffer @ rest_bytes r)"
proof (induction rule: read_headers_loop_rule)
  case (limit r b d)
  then show ?case by (simp add: header_read_spec_def)
next
  case (eof r b d r')
  then show ?case
    using read_chunk_undisturbed [OF eof(3)] round_len_pos
    by (auto simp: header_read_spec_def)
next
  case (found r b d bs r')
  show ?case
    using header_read_spec_complete [OF found(4) http_chunks.rd_append_bound [OF found(3)]]
      http_chunks.rd_data [OF found(3)] by simp
next
  case (more r b d bs r1 res b' r')
  have "rest_bytes r = bs @ rest_bytes r1"
    by (rule http_chunks.rd_data [OF more(3)])
  then show ?case
    using more(4) read_chunk_undisturbed [OF more(3)] round_len_pos [OF more(1)]
      http_chunks.rd_append_bound [OF more(3)] by auto
qed (use read_chunk_undisturbed round_len_pos in fastforce)+

lemma read_http_headers_spec:
  assumes "read_http_headers_with_deadline r buffer deadline = (res, buffer', r')"
    and "undisturbed r deadline" and "length buffer \<le> MAX_HEADER_SIZE"
  shows "res = header_read_spec (buffer @ rest_bytes r)"
proof (cases "headers_complete buffer HEADER_END_MARKER")
  case True
  with assms(1,3) show ?thesis
    by (simp add: read_http_headers_with_deadline_def header_read_spec_complete)
next
  case False
  with assms read_headers_loop_spec [OF _ False] show ?thesis
    by (simp add: read_http_headers_with_deadline_def)
qed

text \<open>
  C30: How the network cuts the request into chunks does not matter: on a stream that delivers data
  until its end (no error, the deadline not reached), the outcome is a function of the bytes alone.
  It is \<open>Complete\<close> when the end-of-headers marker lies within the first 8192 bytes, the size error
  when it does not and at least 8192 bytes came, and the end-of-file error otherwise. The code only
  searches the last three old bytes and the new ones in each round; this shows the search finds
  every marker, also one that spans chunks.
\<close>

theorem read_http_headers_chunking:
  assumes "undisturbed r deadline" and "length buffer \<le> MAX_HEADER_SIZE"
  shows "fst (read_http_headers_with_deadline r buffer deadline)
    = header_read_spec (buffer @ rest_bytes r)"
  using read_http_headers_spec [OF _ assms] by (metis eq_fst_iff)

section \<open>Lookups\<close>

text \<open>
  Header lookup is case-insensitive and takes the first match: the value found belongs to a
  header whose name equals the requested one up to ASCII case, no earlier header has such a name,
  and a lookup fails exactly when no header does.
\<close>

theorem get_header_value_first:
  "get_header_value hs name = Some v \<longleftrightarrow>
     (\<exists>pre n post. hs = pre @ (n, v) # post \<and> eq_ignore_ascii_case n name
        \<and> (\<forall>h \<in> set pre. \<not> eq_ignore_ascii_case (fst h) name))"
  (is "?l \<longleftrightarrow> ?r")
proof -
  have "get_header_value hs name = Some v \<longleftrightarrow>
      (\<exists>n. find (\<lambda>(n, _). to_lowercase n = to_lowercase name) hs = Some (n, v))"
    by (auto simp: get_header_value_def Let_def)
  also have "\<dots> \<longleftrightarrow> ?r"
    by (fastforce simp: find_Some_split eq_ignore_ascii_case_def)
  finally show ?thesis .
qed

lemma get_host_header_eq: "get_host_header hs = get_header_value hs ''Host''"
proof -
  have "to_lowercase ''Host'' = ''host''" by code_simp
  then show ?thesis by (simp add: get_host_header_def get_header_value_def Let_def)
qed

section \<open>Witnesses\<close>

lemmas header_read_eval = read_http_headers_with_deadline_def headers_complete_def
  HEADER_END_MARKER_def read_headers_loop.simps read_chunk_with_deadline_def MAX_HEADER_SIZE_def
  READ_CHUNK_SIZE_def Let_def CR_def LF_def

definition ex_reader :: reader where
  "ex_reader = \<lparr>pending = [Bytes (''GET /'' @ [CR, LF, CR]), Bytes (LF # ''body'')], expired = False\<rparr>"

lemma ex_reader_run:
  "read_http_headers_with_deadline ex_reader [] False =
    (Ok Complete, ''GET /'' @ [CR, LF, CR, LF] @ ''body'', \<lparr>pending = [], expired = False\<rparr>)"
  by (simp add: ex_reader_def header_read_eval)

theorem read_http_headers_sound_witness:
  "(''GET /'' @ [CR, LF, CR, LF] @ ''body'') @ [] = [] @ rest_bytes ex_reader
    \<and> headers_complete (''GET /'' @ [CR, LF, CR, LF] @ ''body'') HEADER_END_MARKER"
  using read_http_headers_sound [OF ex_reader_run] by (simp add: MAX_HEADER_SIZE_def ex_reader_def)

theorem read_http_headers_chunking_witness:
  "undisturbed ex_reader False
    \<and> fst (read_http_headers_with_deadline ex_reader [] False)
      = header_read_spec ([] @ (''GET /'' @ [CR, LF, CR, LF] @ ''body''))"
proof -
  have h: "undisturbed ex_reader False" "length [] \<le> MAX_HEADER_SIZE"
    by (simp_all add: ex_reader_def undisturbed_def plain_def)
  show ?thesis
    using h read_http_headers_chunking [OF h] by (simp add: ex_reader_def)
qed

theorem get_header_value_first_witness:
  "get_header_value [(''X-A'', ''1''), (''HOST'', ''h''), (''host'', ''i'')] ''Host'' = Some ''h''"
proof -
  have "eq_ignore_ascii_case ''HOST'' ''Host'' \<and> \<not> eq_ignore_ascii_case ''X-A'' ''Host''"
    by code_simp
  then show ?thesis
    unfolding get_header_value_first
    by (intro exI [of _ "[(''X-A'', ''1'')]"] exI [of _ "''HOST''"] exI [of _ "[(''host'', ''i'')]"]) simp
qed

end
