(* ===== verification/Protocol_Detector.thy ===== *)
theory Protocol_Detector
  imports Http_Parser
begin

text \<open>
  \<^verbatim>\<open>crates/kube-sidecar-proxy/src/protocol_detector.rs\<close>: the sidecar proxy looks at the first bytes
  of a connection to tell HTTP/1, HTTP/2 and plain TCP apart, and hands the bytes on. Streams are
  those of the HTTP parser.
\<close>

section \<open>Definitions\<close>

definition MAX_DETECTION_BYTES :: nat where "MAX_DETECTION_BYTES = 8192"

definition DETECTION_CHUNK_SIZE :: nat where "DETECTION_CHUNK_SIZE = 1024"

definition HTTP2_PREFACE :: string where
  "HTTP2_PREFACE = ''PRI * HTTP/2.0'' @ [CR, LF, CR, LF] @ ''SM'' @ [CR, LF, CR, LF]"

datatype protocol_type = Http string string | Http2 | Tcp

record protocol_detection_result =
  protocol :: protocol_type
  buffer :: string
  timed_out :: bool

text \<open>The read of this component also sets the caller's \<^verbatim>\<open>timed_out\<close> flag.\<close>

definition detector_read_chunk ::
    "reader \<times> bool \<Rightarrow> nat \<Rightarrow> bool \<Rightarrow> (io_error + string option) \<times> reader \<times> bool" where
  "detector_read_chunk rt n deadline =
     (let (r, flag) = rt in
      if n = 0 then (Ok (Some []), r, flag)
      else if deadline then
        (if expired r then (Ok None, r, True)
         else (case stream_read_until n (pending r) of
                 (None, es) \<Rightarrow> (Ok None, \<lparr>pending = es, expired = True\<rparr>, True)
               | (Some (Inl e), es) \<Rightarrow> (Err e, r\<lparr>pending := es\<rparr>, flag)
               | (Some (Inr bs), es) \<Rightarrow> (Ok (Some bs), r\<lparr>pending := es\<rparr>, flag)))
      else (case stream_read n (pending r) of
              (Inl e, es) \<Rightarrow> (Err e, r\<lparr>pending := es\<rparr>, flag)
            | (Inr bs, es) \<Rightarrow> (Ok (Some bs), r\<lparr>pending := es\<rparr>, flag)))"

function detect_loop ::
    "reader \<times> bool \<Rightarrow> string \<Rightarrow> bool \<Rightarrow> (io_error + string) \<times> reader \<times> bool" where
  "detect_loop rt buf deadline =
     (if length buf \<ge> MAX_DETECTION_BYTES then (Ok buf, rt)
      else
        (let remaining_capacity = MAX_DETECTION_BYTES - length buf;
             read_len = min remaining_capacity DETECTION_CHUNK_SIZE
         in case detector_read_chunk rt read_len deadline of
              (Inl e, rt') \<Rightarrow> (Err e, rt')
            | (Inr None, rt') \<Rightarrow> (Ok buf, rt')
            | (Inr (Some bs), rt') \<Rightarrow>
                (if bs = [] then (Ok buf, rt')
                 else if list_ex (\<lambda>b. b = LF) (buf @ bs) then (Ok (buf @ bs), rt')
                 else detect_loop rt' (buf @ bs) deadline)))"
  by pat_completeness auto
termination
  by (relation "measure (\<lambda>(rt, buf, deadline). MAX_DETECTION_BYTES - length buf)")
    (auto simp: neq_Nil_conv)

declare detect_loop.simps [simp del]

definition position :: "('a \<Rightarrow> bool) \<Rightarrow> 'a list \<Rightarrow> nat option" where
  "position P xs = (let i = length (takeWhile (\<lambda>x. \<not> P x) xs) in if i < length xs then Some i else None)"

definition get_request_line :: "string \<Rightarrow> string option" where
  "get_request_line buf =
     Option.bind (position (\<lambda>b. b = CR \<or> b = LF) buf)
       (\<lambda>line_end. if utf8_valid (take line_end buf) then Some (take line_end buf) else None)"

definition parse_request_line :: "string \<Rightarrow> (string \<times> string) option" where
  "parse_request_line line =
     (case split_whitespace line of m # p # _ \<Rightarrow> Some (m, p) | _ \<Rightarrow> None)"

definition detect_http_in_buffer :: "string \<Rightarrow> protocol_type option" where
  "detect_http_in_buffer buf =
     (case get_request_line buf of
        Some request_line \<Rightarrow>
          (case parse_request_line request_line of
             Some (m, p) \<Rightarrow> if list_all is_ascii_uppercase m then Some (Http m p) else None
           | None \<Rightarrow> None)
      | None \<Rightarrow> None)"

definition is_http2_start :: "string \<Rightarrow> bool" where
  "is_http2_start buf =
     (starts_with buf HTTP2_PREFACE
      \<or> (length buf < length HTTP2_PREFACE \<and> starts_with HTTP2_PREFACE buf))"

definition detect_protocol ::
    "reader \<Rightarrow> bool \<Rightarrow> (io_error + protocol_detection_result) \<times> reader" where
  "detect_protocol r deadline =
     (case detect_loop (r, False) [] deadline of
        (Inl e, r', _) \<Rightarrow> (Err e, r')
      | (Inr buf, r', flag) \<Rightarrow>
          (if buf = [] then (Ok \<lparr>protocol = Tcp, buffer = buf, timed_out = flag\<rparr>, r')
           else if is_http2_start buf
           then (Ok \<lparr>protocol = Http2, buffer = buf, timed_out = flag\<rparr>, r')
           else (case detect_http_in_buffer buf of
               Some proto \<Rightarrow>
                 (case read_http_headers_with_deadline r' buf deadline of
                    (Inr TimedOut, buf', r'') \<Rightarrow>
                      (Ok \<lparr>protocol = proto, buffer = buf', timed_out = True\<rparr>, r'')
                  | (Inr Complete, buf', r'') \<Rightarrow>
                      (Ok \<lparr>protocol = proto, buffer = buf', timed_out = flag\<rparr>, r'')
                  | (Inl err, buf', r'') \<Rightarrow>
                      (if kind err = InvalidData \<or> kind err = UnexpectedEof
                       then (Ok \<lparr>protocol = proto, buffer = buf', timed_out = flag\<rparr>, r'')
                       else (Err err, r'')))
             | None \<Rightarrow> (Ok \<lparr>protocol = Tcp, buffer = buf, timed_out = flag\<rparr>, r'))))"

section \<open>The detection loop\<close>

abbreviation rest_of :: "reader \<times> bool \<Rightarrow> string" where
  "rest_of rt \<equiv> rest_bytes (fst rt)"

interpretation detector_chunks: chunk_reader detector_read_chunk rest_of
  by unfold_locales
    (auto simp: detector_read_chunk_def Let_def split: if_splits prod.splits sum.splits option.splits
       dest: stream_read_Ok stream_read_Err stream_read_until_Ok stream_read_until_no_data)

text \<open>Both components read a chunk the same way; the detector also records the timeout.\<close>

lemma detector_read_chunk_eq:
  "detector_read_chunk (r, flag) n d =
     (case read_chunk_with_deadline r n d of
        (x, r') \<Rightarrow> (x, r', flag \<or> x = Ok None))"
  by (auto simp: detector_read_chunk_def read_chunk_with_deadline_def
      split: if_splits prod.splits sum.splits option.splits)

lemma detect_loop_rule [consumes 1, case_names limit error timeout eof line more]:
  assumes "detect_loop rt buf d = (res, rt')"
    and "\<And>rt b d. MAX_DETECTION_BYTES \<le> length b \<Longrightarrow> P rt b d (Ok b) rt"
    and "\<And>rt b d e rt'. length b < MAX_DETECTION_BYTES \<Longrightarrow>
      detector_read_chunk rt (min (MAX_DETECTION_BYTES - length b) DETECTION_CHUNK_SIZE) d = (Err e, rt') \<Longrightarrow>
      P rt b d (Err e) rt'"
    and "\<And>rt b d rt'. length b < MAX_DETECTION_BYTES \<Longrightarrow>
      detector_read_chunk rt (min (MAX_DETECTION_BYTES - length b) DETECTION_CHUNK_SIZE) d = (Ok None, rt') \<Longrightarrow>
      P rt b d (Ok b) rt'"
    and "\<And>rt b d rt'. length b < MAX_DETECTION_BYTES \<Longrightarrow>
      detector_read_chunk rt (min (MAX_DETECTION_BYTES - length b) DETECTION_CHUNK_SIZE) d = (Ok (Some []), rt') \<Longrightarrow>
      P rt b d (Ok b) rt'"
    and "\<And>rt b d bs rt'. length b < MAX_DETECTION_BYTES \<Longrightarrow>
      detector_read_chunk rt (min (MAX_DETECTION_BYTES - length b) DETECTION_CHUNK_SIZE) d = (Ok (Some bs), rt') \<Longrightarrow>
      LF \<in> set (b @ bs) \<Longrightarrow> P rt b d (Ok (b @ bs)) rt'"
    and "\<And>rt b d bs rt1 res rt'. length b < MAX_DETECTION_BYTES \<Longrightarrow>
      detector_read_chunk rt (min (MAX_DETECTION_BYTES - length b) DETECTION_CHUNK_SIZE) d = (Ok (Some bs), rt1) \<Longrightarrow>
      P rt1 (b @ bs) d res rt' \<Longrightarrow> P rt b d res rt'"
  shows "P rt buf d res rt'"
  using assms(1)
proof (induction rt buf d arbitrary: res rt' rule: detect_loop.induct)
  case (1 rt buf d)
  show ?case
  proof (cases "length buf < MAX_DETECTION_BYTES")
    case False
    with "1.prems" have "res = Ok buf" "rt' = rt"
      by (simp_all add: detect_loop.simps [of rt buf])
    with False assms(2) show ?thesis by simp
  next
    case lt: True
    let ?n = "min (MAX_DETECTION_BYTES - length buf) DETECTION_CHUNK_SIZE"
    obtain x rt1 where rd: "detector_read_chunk rt ?n d = (x, rt1)"
      by (metis surj_pair)
    consider e where "x = Err e" | "x = Ok None" | "x = Ok (Some [])"
      | bs where "x = Ok (Some bs)" "bs \<noteq> []"
      by (metis not_Some_eq sumE)
    then show ?thesis
    proof cases
      case (1 e)
      with lt rd "1.prems" have "res = Err e" "rt' = rt1"
        by (auto simp: detect_loop.simps [of rt buf] Let_def)
      with assms(3) lt rd 1 show ?thesis by simp
    next
      case 2
      with lt rd "1.prems" have "res = Ok buf" "rt' = rt1"
        by (auto simp: detect_loop.simps [of rt buf] Let_def)
      with assms(4) lt rd 2 show ?thesis by simp
    next
      case 3
      with lt rd "1.prems" have "res = Ok buf" "rt' = rt1"
        by (auto simp: detect_loop.simps [of rt buf] Let_def)
      with assms(5) lt rd 3 show ?thesis by simp
    next
      case (4 bs)
      show ?thesis
      proof (cases "LF \<in> set (buf @ bs)")
        case True
        with lt rd 4 "1.prems" have "res = Ok (buf @ bs)" "rt' = rt1"
          by (auto simp: detect_loop.simps [of rt buf] Let_def list_ex_iff)
        with assms(6) lt rd 4 True show ?thesis by simp
      next
        case False
        with lt rd 4 "1.prems" have "detect_loop rt1 (buf @ bs) d = (res, rt')"
          by (auto simp: detect_loop.simps [of rt buf] Let_def list_ex_iff)
        then have "P rt1 (buf @ bs) d res rt'"
          using "1.IH" lt rd 4 False by (auto simp: list_ex_iff)
        with assms(7) lt rd 4 show ?thesis by blast
      qed
    qed
  qed
qed

lemma detect_loop_bytes:
  "detect_loop rt buf d = (res, rt') \<Longrightarrow> res = Ok b' \<longrightarrow> b' @ rest_of rt' = buf @ rest_of rt"
  by (induction rule: detect_loop_rule)
    (auto dest: detector_chunks.rd_data detector_chunks.rd_timeout)

lemma detect_loop_bound:
  "detect_loop rt buf d = (res, rt') \<Longrightarrow>
   res = Ok b' \<longrightarrow> length buf \<le> MAX_DETECTION_BYTES \<longrightarrow> length b' \<le> MAX_DETECTION_BYTES"
  by (induction rule: detect_loop_rule) (auto dest!: detector_chunks.rd_append_bound)


lemma detect_loop_undisturbed:
  "detect_loop rt buf d = (res, rt') \<Longrightarrow>
   undisturbed (fst rt) d \<longrightarrow> length buf \<le> MAX_DETECTION_BYTES \<longrightarrow>
   (\<exists>b. res = Ok b \<and> undisturbed (fst rt') d \<and> snd rt' = snd rt
      \<and> (LF \<in> set b \<or> rest_of rt' = [] \<or> length b = MAX_DETECTION_BYTES))"
proof (induction rule: detect_loop_rule)
  case (eof rt b d rt')
  then show ?case
    using detector_chunks.rd_data [OF eof(2)]
    by (cases rt) (auto simp: detector_read_chunk_eq DETECTION_CHUNK_SIZE_def
        split: prod.splits dest!: read_chunk_undisturbed)
next
  case (more rt b d bs rt1 res rt')
  then show ?case
    using detector_chunks.rd_append_bound [OF more(2)]
    by (cases rt) (auto simp: detector_read_chunk_eq DETECTION_CHUNK_SIZE_def
        split: prod.splits dest!: read_chunk_undisturbed)
next
  case (line rt b d bs rt')
  then show ?case
    by (cases rt) (auto simp: detector_read_chunk_eq DETECTION_CHUNK_SIZE_def
        split: prod.splits dest!: read_chunk_undisturbed)
next
  case (timeout rt b d rt')
  then show ?case
    by (cases rt) (auto simp: detector_read_chunk_eq DETECTION_CHUNK_SIZE_def
        split: prod.splits dest!: read_chunk_undisturbed)
next
  case (error rt b d e rt')
  then show ?case
    by (cases rt) (auto simp: detector_read_chunk_eq DETECTION_CHUNK_SIZE_def
        split: prod.splits dest!: read_chunk_undisturbed)
qed auto

section \<open>Properties\<close>

text \<open>
  C29: Detection consumes nothing for good: when it returns a protocol, the bytes it hands on
  followed by what is left in the connection are exactly the bytes the peer sent, whatever was
  detected and whether or not the deadline passed, and at most 8192 bytes are held back.
\<close>

theorem detect_protocol_preserves_bytes:
  assumes "detect_protocol r deadline = (Ok res, r')"
  shows "buffer res @ rest_bytes r' = rest_bytes r \<and> length (buffer res) \<le> MAX_DETECTION_BYTES"
proof -
  obtain x r1 flag where loop: "detect_loop (r, False) [] deadline = (x, r1, flag)"
    by (metis prod_cases3)
  with assms obtain b where x: "x = Ok b"
    by (cases x) (auto simp: detect_protocol_def)
  have b: "b @ rest_bytes r1 = rest_bytes r" "length b \<le> MAX_DETECTION_BYTES"
    using detect_loop_bytes [OF loop] detect_loop_bound [OF loop] x by auto
  obtain y b' r2 where hd: "read_http_headers_with_deadline r1 b deadline = (y, b', r2)"
    by (metis prod_cases3)
  have "b' @ rest_bytes r2 = b @ rest_bytes r1" "length b' \<le> MAX_DETECTION_BYTES"
    using read_http_headers_bytes_bound [OF hd] b(2)
    by (simp_all add: MAX_DETECTION_BYTES_def MAX_HEADER_SIZE_def)
  with b assms loop x hd show ?thesis
    by (auto simp: detect_protocol_def
        split: if_splits option.splits sum.splits header_read_status.splits)
qed


text \<open>What the loop has gathered from an undisturbed stream that holds a line.\<close>

lemma detect_loop_first_line:
  assumes "undisturbed r deadline" and "rest_bytes r = line @ LF # tail"
    and "length line < MAX_DETECTION_BYTES" and "LF \<notin> set line"
  obtains tl r' where "detect_loop (r, False) [] deadline = (Ok (line @ LF # tl), r', False)"
    and "undisturbed r' deadline" and "tail = tl @ rest_bytes r'"
proof -
  obtain x rt' where loop: "detect_loop (r, False) [] deadline = (x, rt')"
    by (metis surj_pair)
  then obtain b where b: "x = Ok b" "undisturbed (fst rt') deadline" "\<not> snd rt'"
    "LF \<in> set b \<or> rest_of rt' = [] \<or> length b = MAX_DETECTION_BYTES"
    using detect_loop_undisturbed [OF loop] assms(1) by auto
  have split: "b @ rest_of rt' = line @ LF # tail"
    using detect_loop_bytes [OF loop] b(1) assms(2) by simp
  have "length line < length b"
  proof (rule ccontr)
    assume "\<not> length line < length b"
    then have "b = take (length b) line"
      using split by (metis append_eq_append_conv_if leI)
    then have "LF \<notin> set b" "length b < MAX_DETECTION_BYTES"
      using assms(3,4) \<open>\<not> length line < length b\<close> by (metis in_set_takeD, simp)
    with b(4) have "rest_of rt' = []" by simp
    with split have "length b = length line + 1 + length tail" by simp
    with \<open>\<not> length line < length b\<close> show False by simp
  qed
  then obtain tl where tl: "b = line @ LF # tl" "tail = tl @ rest_of rt'"
    using split by (auto simp: append_eq_append_conv2 append_eq_Cons_conv Cons_eq_append_conv)
  have "detect_loop (r, False) [] deadline = (Ok (line @ LF # tl), fst rt', False)"
    using loop b(1,3) tl(1) by (cases rt') simp
  then show ?thesis
    using b(2) tl(2) by (rule that)
qed

text \<open>
  Every client that opens an HTTP/2 connection with the prior-knowledge preface is detected as
  HTTP/2, however its bytes are cut into chunks.
\<close>

theorem detect_http2_preface:
  assumes "undisturbed r deadline" and "rest_bytes r = HTTP2_PREFACE @ tail"
  shows "\<exists>res r'. detect_protocol r deadline = (Ok res, r') \<and> protocol res = Http2
    \<and> \<not> timed_out res \<and> buffer res @ rest_bytes r' = HTTP2_PREFACE @ tail"
proof -
  define line where "line = ''PRI * HTTP/2.0'' @ [CR]"
  define preface_tl where "preface_tl = [CR, LF] @ ''SM'' @ [CR, LF, CR, LF]"
  have pre: "HTTP2_PREFACE = line @ LF # preface_tl"
    by (simp add: HTTP2_PREFACE_def line_def preface_tl_def)
  have "LF \<notin> set line" "length line < MAX_DETECTION_BYTES"
    by (simp_all add: line_def LF_def CR_def MAX_DETECTION_BYTES_def)
  then obtain tl r' where loop: "detect_loop (r, False) [] deadline = (Ok (line @ LF # tl), r', False)"
    and tl: "preface_tl @ tail = tl @ rest_bytes r'"
    using detect_loop_first_line [of r deadline line "preface_tl @ tail"] assms pre
    by (metis append.assoc append_Cons)
  have "is_http2_start (line @ LF # tl)"
    using tl unfolding is_http2_start_def pre starts_with_def by (auto simp: append_eq_append_conv_if split: if_splits)
  then have "detect_protocol r deadline
      = (Ok \<lparr>protocol = Http2, buffer = line @ LF # tl, timed_out = False\<rparr>, r')"
    by (simp add: detect_protocol_def loop)
  with tl show ?thesis
    by (simp add: pre)
qed


lemma split_whitespace_word:
  "list_all (\<lambda>c. \<not> is_whitespace c) w \<Longrightarrow> w \<noteq> [] \<Longrightarrow>
   split_whitespace (w @ CHR '' '' # s) = w # split_whitespace s"
proof -
  have "split_whitespace_aux acc (w @ CHR '' '' # s) =
      (if acc = [] \<and> w = [] then split_whitespace s else (rev acc @ w) # split_whitespace s)"
    if "list_all (\<lambda>c. \<not> is_whitespace c) w" for acc
    using that
    by (induction w arbitrary: acc) (auto simp: is_whitespace_def [of "CHR '' ''"] split_whitespace_def)
  then show "list_all (\<lambda>c. \<not> is_whitespace c) w \<Longrightarrow> w \<noteq> [] \<Longrightarrow> ?thesis"
    by (simp add: split_whitespace_def [of "w @ _"])
qed

lemma get_request_line_CR:
  assumes "CR \<notin> set line" "LF \<notin> set line" "is_ascii line"
  shows "get_request_line (line @ CR # post) = Some line"
proof -
  have "takeWhile (\<lambda>x. x \<noteq> CR \<and> x \<noteq> LF) (line @ CR # post) = line"
    using assms(1,2) by (induction line) auto
  then show ?thesis
    using is_ascii_utf8_valid [OF assms(3)] by (simp add: get_request_line_def position_def)
qed

text \<open>A well-formed HTTP/1 request line: method, target and version separated by single blanks.\<close>

definition request_line :: "string \<Rightarrow> string \<Rightarrow> string \<Rightarrow> string" where
  "request_line m p v = m @ CHR '' '' # p @ CHR '' '' # v"

definition request_line_ok :: "string \<Rightarrow> string \<Rightarrow> string \<Rightarrow> bool" where
  "request_line_ok m p v =
     (m \<noteq> [] \<and> p \<noteq> [] \<and> m \<noteq> ''PRI'' \<and> list_all is_ascii_uppercase m
      \<and> list_all (\<lambda>c. \<not> is_whitespace c) p
      \<and> list_all (\<lambda>c. c \<noteq> CR \<and> c \<noteq> LF) v \<and> is_ascii (p @ v))"

lemma uppercase_facts:
  assumes "is_ascii_uppercase c"
  shows "\<not> is_whitespace c" "c \<noteq> CR" "c \<noteq> LF" "(of_char c :: nat) < 128" "c \<noteq> CHR '' ''"
  using assms by (auto simp: is_ascii_uppercase_def is_whitespace_def CR_def LF_def)

lemma request_line_facts:
  assumes "request_line_ok m p v"
  shows "CR \<notin> set (request_line m p v)" "LF \<notin> set (request_line m p v)"
    "is_ascii (request_line m p v)" "parse_request_line (request_line m p v) = Some (m, p)"
proof -
  have m: "list_all (\<lambda>c. \<not> is_whitespace c) m"
    using assms by (auto simp: request_line_ok_def list_all_iff uppercase_facts)
  have "\<forall>c \<in> set m \<union> set p. \<not> is_whitespace c" "\<forall>c \<in> set v. c \<noteq> CR \<and> c \<noteq> LF"
    using assms m by (auto simp: request_line_ok_def list_all_iff)
  moreover have "CR \<noteq> CHR '' ''" "LF \<noteq> CHR '' ''" "is_whitespace CR" "is_whitespace LF"
    by (simp_all add: CR_def LF_def is_whitespace_def)
  ultimately show "CR \<notin> set (request_line m p v)" "LF \<notin> set (request_line m p v)"
    by (auto simp: request_line_def)
  show "is_ascii (request_line m p v)"
    using assms by (auto simp: request_line_def request_line_ok_def is_ascii_def list_all_iff
        uppercase_facts)
  show "parse_request_line (request_line m p v) = Some (m, p)"
    using assms m by (simp add: parse_request_line_def request_line_def request_line_ok_def
        split_whitespace_word)
qed

lemma first_word_unique:
  "m @ (c :: char) # s = m' @ c # s' \<Longrightarrow> c \<notin> set m \<Longrightarrow> c \<notin> set m' \<Longrightarrow> m = m'"
proof -
  assume eq: "m @ c # s = m' @ c # s'" and no: "c \<notin> set m" "c \<notin> set m'"
  have "split_once c (m @ c # s) = Some (m, s)"
    using no(1) by (simp only: split_once_Some simp_thms)
  moreover have "split_once c (m' @ c # s') = Some (m', s')"
    using no(2) by (simp only: split_once_Some simp_thms)
  ultimately show "m = m'" unfolding eq by simp
qed

lemma not_http2_start:
  assumes "CHR '' '' \<notin> set m" "m \<noteq> ''PRI''"
  shows "\<not> is_http2_start (m @ CHR '' '' # s)"
proof
  define t where "t = ''* HTTP/2.0'' @ [CR, LF, CR, LF] @ ''SM'' @ [CR, LF, CR, LF]"
  have pre: "HTTP2_PREFACE = ''PRI'' @ CHR '' '' # t"
    by (simp add: HTTP2_PREFACE_def t_def)
  assume "is_http2_start (m @ CHR '' '' # s)"
  then obtain u u' where "m @ CHR '' '' # (s @ u) = ''PRI'' @ CHR '' '' # (t @ u')"
    unfolding is_http2_start_def starts_with_iff pre by (metis append.assoc append_Cons append_Nil2)
  then have "m = ''PRI''"
    by (rule first_word_unique) (use assms in simp_all)
  with assms(2) show False by simp
qed

text \<open>
  Every HTTP/1 request is detected as HTTP with its method and target, however the network cuts
  it up: if an undisturbed stream begins with a well-formed request line (an upper-case method other
  than \<open>PRI\<close>, a target without blanks) that ends within the detection window, the result is
  \<open>Http method target\<close>, for any verb.
\<close>

theorem detect_http1_request:
  assumes "undisturbed r deadline" and "request_line_ok m p v"
    and "rest_bytes r = request_line m p v @ CR # LF # tail"
    and "length (request_line m p v) + 2 \<le> MAX_DETECTION_BYTES"
  shows "\<exists>res r'. detect_protocol r deadline = (Ok res, r') \<and> protocol res = Http m p
    \<and> \<not> timed_out res"
proof -
  note facts = request_line_facts [OF assms(2)]
  obtain post r1 where
    loop: "detect_loop (r, False) [] deadline = (Ok ((request_line m p v @ [CR]) @ LF # post), r1, False)"
    and und: "undisturbed r1 deadline"
    by (rule detect_loop_first_line [OF assms(1), of "request_line m p v @ [CR]" tail])
      (use assms(3,4) facts in \<open>auto simp: CR_def LF_def\<close>)
  let ?b = "request_line m p v @ CR # LF # post"
  have "CHR '' '' \<notin> set m" "m \<noteq> ''PRI''" and upper: "list_all is_ascii_uppercase m"
    using assms(2) uppercase_facts(5) by (auto simp: request_line_ok_def list_all_iff)
  then have "\<not> is_http2_start ?b"
    using not_http2_start [of m "p @ CHR '' '' # v @ CR # LF # post"] by (simp add: request_line_def)
  moreover have "detect_http_in_buffer ?b = Some (Http m p)"
    using facts upper by (simp add: detect_http_in_buffer_def get_request_line_CR)
  moreover obtain y b' r2 where hd: "read_http_headers_with_deadline r1 ?b deadline = (y, b', r2)"
    by (metis prod_cases3)
  moreover have "y = Ok Complete \<or> (\<exists>e. y = Err e \<and> (kind e = InvalidData \<or> kind e = UnexpectedEof))"
  proof -
    have "length ?b \<le> MAX_HEADER_SIZE"
      using detect_loop_bound [OF loop, of ?b]
      by (simp add: MAX_HEADER_SIZE_def MAX_DETECTION_BYTES_def)
    then have "y = header_read_spec (?b @ rest_bytes r1)"
      using read_http_headers_spec [OF hd und] by simp
    then show ?thesis
      by (auto simp: header_read_spec_def)
  qed
  ultimately show ?thesis
    using loop by (auto simp: detect_protocol_def)
qed


section \<open>Witnesses\<close>

lemmas detect_eval = detect_protocol_def detect_loop.simps detector_read_chunk_def
  MAX_DETECTION_BYTES_def DETECTION_CHUNK_SIZE_def

definition ex_http2 :: reader where
  "ex_http2 = \<lparr>pending = [Bytes ''PRI * HT'', Bytes (''TP/2.0'' @ [CR, LF, CR, LF] @ ''SM'' @ [CR, LF, CR, LF])],
     expired = False\<rparr>"

definition ex_tls :: reader where
  "ex_tls = \<lparr>pending = [Bytes [CHR 0x16, CHR 0x03, CHR 0x01]], expired = False\<rparr>"

definition ex_get :: reader where
  "ex_get = \<lparr>pending = [Bytes ''GET'', Bytes ('' /x HTTP/1.1'' @ [CR, LF, CR, LF])], expired = False\<rparr>"

theorem detect_protocol_preserves_bytes_witness:
  "\<exists>res r'. detect_protocol ex_tls True = (Ok res, r')
    \<and> buffer res @ rest_bytes r' = [CHR 0x16, CHR 0x03, CHR 0x01]"
proof -
  have run: "detect_protocol ex_tls True =
      (Ok \<lparr>protocol = Tcp, buffer = [CHR 0x16, CHR 0x03, CHR 0x01], timed_out = False\<rparr>,
       \<lparr>pending = [], expired = False\<rparr>)"
    by (simp add: ex_tls_def detect_eval LF_def CR_def is_http2_start_def starts_with_def
        HTTP2_PREFACE_def detect_http_in_buffer_def get_request_line_def position_def)
  show ?thesis
    using detect_protocol_preserves_bytes [OF run] run by (simp add: ex_tls_def)
qed

theorem detect_http2_preface_witness:
  "\<exists>res r'. detect_protocol ex_http2 False = (Ok res, r') \<and> protocol res = Http2"
proof -
  have "undisturbed ex_http2 False" "rest_bytes ex_http2 = HTTP2_PREFACE @ []"
    by (simp_all add: ex_http2_def undisturbed_def plain_def HTTP2_PREFACE_def)
  from detect_http2_preface [OF this] show ?thesis by blast
qed

theorem detect_http1_request_witness:
  "\<exists>res r'. detect_protocol ex_get False = (Ok res, r') \<and> protocol res = Http ''GET'' ''/x''"
proof -
  have "request_line_ok ''GET'' ''/x'' ''HTTP/1.1''"
    by code_simp
  moreover have "undisturbed ex_get False"
    by (simp add: ex_get_def undisturbed_def plain_def)
  moreover have "rest_bytes ex_get = request_line ''GET'' ''/x'' ''HTTP/1.1'' @ CR # LF # [CR, LF]"
    by (simp add: ex_get_def request_line_def)
  moreover have "length (request_line ''GET'' ''/x'' ''HTTP/1.1'') + 2 \<le> MAX_DETECTION_BYTES"
    by (simp add: request_line_def MAX_DETECTION_BYTES_def)
  ultimately show ?thesis
    using detect_http1_request [of ex_get False "''GET''" "''/x''" "''HTTP/1.1''" "[CR, LF]"] by blast
qed

end
