(* ===== verification/Otel_Routing.thy ===== *)
theory Otel_Routing
  imports Lapdev_Prelude
begin

text \<open>
  \<^verbatim>\<open>crates/kube-sidecar-proxy/src/otel_routing.rs\<close>: the routing context the sidecar extracts from the
  headers of a request (W3C trace context, baggage, the Lapdev environment id in \<^verbatim>\<open>tracestate\<close>, the
  custom routing headers) and the routing target it derives from it. \<^verbatim>\<open>Uuid::parse_str\<close> is a
  parameter. Headers are the parsed list of pairs; a hash map filled by a loop is the fold of the
  insertions.
\<close>

section \<open>Definitions\<close>

type_synonym header_list = "(string \<times> string) list"

definition TRACEPARENT_HEADER :: string where "TRACEPARENT_HEADER = ''traceparent''"
definition TRACESTATE_HEADER :: string where "TRACESTATE_HEADER = ''tracestate''"
definition BAGGAGE_HEADER :: string where "BAGGAGE_HEADER = ''baggage''"
definition X_ROUTING_KEY :: string where "X_ROUTING_KEY = ''x-routing-key''"
definition X_SERVICE_VERSION :: string where "X_SERVICE_VERSION = ''x-service-version''"
definition X_CANARY_DEPLOYMENT :: string where "X_CANARY_DEPLOYMENT = ''x-canary-deployment''"

record trace_context =
  trace_id :: "string option"
  span_id :: "string option"
  trace_flags :: "string option"
  trace_state :: "string option"
  baggage :: "string \<rightharpoonup> string"

record routing_context =
  trace_context :: trace_context
  lapdev_environment_id :: "uuid option"
  routing_key :: "string option"
  service_version :: "string option"
  canary_deployment :: "string option"
  custom_headers :: "string \<rightharpoonup> string"

datatype routing_target =
    Default u16
  | Canary u16 u8
  | Version u16 string
  | Premium u16
  | Custom u16 string

definition otel_header_value :: "header_list \<Rightarrow> string \<Rightarrow> string option" where
  "otel_header_value hs name = map_option snd (find (\<lambda>(h_name, _). eq_ignore_ascii_case h_name name) hs)"

definition parse_traceparent ::
    "string \<Rightarrow> (string option \<times> string option \<times> string option) option" where
  "parse_traceparent traceparent =
     (case split_on (CHR ''-'') traceparent of
        [_, tid, parent, flags] \<Rightarrow> Some (Some tid, Some parent, Some flags)
      | _ \<Rightarrow> None)"

definition baggage_item :: "string \<Rightarrow> (string \<times> string) option" where
  "baggage_item item =
     map_option (\<lambda>(key, value). (trim key, trim value)) (split_once (CHR ''='') (trim item))"

definition parse_baggage :: "string \<Rightarrow> (string \<rightharpoonup> string)" where
  "parse_baggage b =
     fold (\<lambda>item result. case baggage_item item of
             Some (key, value) \<Rightarrow> result(key \<mapsto> value)
           | None \<Rightarrow> result)
       (split_on (CHR '','') b) Map.empty"

definition extract_trace_context :: "header_list \<Rightarrow> trace_context" where
  "extract_trace_context hs =
     (let ctx = \<lparr>trace_id = None, span_id = None, trace_flags = None, trace_state = None,
                 baggage = Map.empty\<rparr>;
          ctx = (case otel_header_value hs TRACEPARENT_HEADER of
                   Some traceparent \<Rightarrow>
                     (case parse_traceparent traceparent of
                        Some (tid, sid, fl) \<Rightarrow> ctx\<lparr>trace_id := tid, span_id := sid, trace_flags := fl\<rparr>
                      | None \<Rightarrow> ctx)
                 | None \<Rightarrow> ctx);
          ctx = (case otel_header_value hs TRACESTATE_HEADER of
                   Some tracestate \<Rightarrow> ctx\<lparr>trace_state := Some tracestate\<rparr>
                 | None \<Rightarrow> ctx)
      in (case otel_header_value hs BAGGAGE_HEADER of
            Some b \<Rightarrow> ctx\<lparr>baggage := parse_baggage b\<rparr>
          | None \<Rightarrow> ctx))"

definition extract_custom_headers :: "header_list \<Rightarrow> (string \<rightharpoonup> string)" where
  "extract_custom_headers hs =
     fold (\<lambda>(name, value) m. if starts_with name ''x-routing-'' then m(name \<mapsto> value) else m) hs Map.empty"

definition tracestate_entry :: "(string \<Rightarrow> uuid option) \<Rightarrow> string \<Rightarrow> uuid option" where
  "tracestate_entry parse_uuid entry =
     (case split_once (CHR ''='') (trim entry) of
        Some (key, value) \<Rightarrow>
          (if eq_ignore_ascii_case (trim key) ''lapdev-env-id'' then parse_uuid (trim value) else None)
      | None \<Rightarrow> None)"

definition extract_lapdev_environment_id ::
    "(string \<Rightarrow> uuid option) \<Rightarrow> string option \<Rightarrow> uuid option" where
  "extract_lapdev_environment_id parse_uuid tracestate =
     Option.bind tracestate (\<lambda>ts. find_map (tracestate_entry parse_uuid) (split_on (CHR '','') ts))"

definition extract_routing_context ::
    "(string \<Rightarrow> uuid option) \<Rightarrow> header_list \<Rightarrow> routing_context" where
  "extract_routing_context parse_uuid hs =
     (let tc = extract_trace_context hs
      in \<lparr>trace_context = tc,
          lapdev_environment_id = extract_lapdev_environment_id parse_uuid (trace_state tc),
          routing_key = otel_header_value hs X_ROUTING_KEY,
          service_version = otel_header_value hs X_SERVICE_VERSION,
          canary_deployment = otel_header_value hs X_CANARY_DEPLOYMENT,
          custom_headers = extract_custom_headers hs\<rparr>)"

definition is_high_priority_trace :: "string \<Rightarrow> bool" where
  "is_high_priority_trace tid = (ends_with tid ''0001'' \<or> ends_with tid ''0002'')"

definition determine_routing_target :: "routing_context \<Rightarrow> u16 \<Rightarrow> routing_target" where
  "determine_routing_target ctx original_port =
     (if (case canary_deployment ctx of Some canary \<Rightarrow> to_lowercase canary = ''true'' | None \<Rightarrow> False)
      then Canary original_port 10
      else case service_version ctx of
        Some version \<Rightarrow> Version original_port version
      | None \<Rightarrow>
          (if (case trace_id (trace_context ctx) of Some tid \<Rightarrow> is_high_priority_trace tid | None \<Rightarrow> False)
           then Premium original_port
           else case routing_key ctx of
             Some key \<Rightarrow> Custom original_port key
           | None \<Rightarrow> Default original_port))"

fun get_port :: "routing_target \<Rightarrow> u16" where
  "get_port (Default port) = port"
| "get_port (Canary port _) = port"
| "get_port (Version port _) = port"
| "get_port (Premium port) = port"
| "get_port (Custom port _) = port"

fun get_metadata :: "routing_target \<Rightarrow> string" where
  "get_metadata (Default _) = ''default''"
| "get_metadata (Canary _ weight) = ''canary('' @ show_nat (unat weight) @ ''%)''"
| "get_metadata (Version _ version) = ''version('' @ version @ '')''"
| "get_metadata (Premium _) = ''premium''"
| "get_metadata (Custom _ key) = ''custom('' @ key @ '')''"

section \<open>Lookups and entries\<close>

lemma trim_no_whitespace: "list_all (\<lambda>c. \<not> is_whitespace c) s \<Longrightarrow> trim s = s"
proof -
  have drop: "dropWhile is_whitespace t = t" if "list_all (\<lambda>c. \<not> is_whitespace c) t" for t
    using that by (cases t) auto
  assume "list_all (\<lambda>c. \<not> is_whitespace c) s"
  then show ?thesis
    by (simp add: trim_def trim_start_def trim_end_def drop list_all_iff)
qed

lemma split_once_literal: "c \<notin> set a \<Longrightarrow> split_once c (a @ c # b) = Some (a, b)"
  by (simp add: split_once_Some)

text \<open>The entry the preview proxy writes is read back.\<close>

lemma tracestate_entry_lapdev:
  assumes "list_all (\<lambda>c. \<not> is_whitespace c) u"
  shows "tracestate_entry parse_uuid (''lapdev-env-id='' @ u) = parse_uuid u"
proof -
  have "list_all (\<lambda>c. \<not> is_whitespace c) ''lapdev-env-id=''" "list_all (\<lambda>c. \<not> is_whitespace c) ''lapdev-env-id''"
    by code_simp+
  then have t: "trim (''lapdev-env-id='' @ u) = ''lapdev-env-id'' @ CHR ''='' # u"
      "trim ''lapdev-env-id'' = ''lapdev-env-id''"
    using assms trim_no_whitespace [of "''lapdev-env-id='' @ u"] trim_no_whitespace [of "''lapdev-env-id''"]
    by simp_all
  have "split_once (CHR ''='') (''lapdev-env-id'' @ CHR ''='' # u) = Some (''lapdev-env-id'', u)"
    by (rule split_once_literal) simp
  with t trim_no_whitespace [OF assms] show ?thesis
    by (simp add: tracestate_entry_def)
qed

lemma extract_env_id_appended:
  assumes "list_all (\<lambda>c. \<not> is_whitespace c) u" and "CHR '','' \<notin> set u"
  shows "extract_lapdev_environment_id parse_uuid (Some (existing @ '','' @ ''lapdev-env-id='' @ u))
    = (case extract_lapdev_environment_id parse_uuid (Some existing) of
         Some e \<Rightarrow> Some e | None \<Rightarrow> parse_uuid u)"
proof -
  have "CHR '','' \<notin> set (''lapdev-env-id='' @ u)"
    using assms(2) by simp
  then have "split_on (CHR '','') (existing @ '','' @ ''lapdev-env-id='' @ u)
      = split_on (CHR '','') existing @ [''lapdev-env-id='' @ u]"
    using split_on_append [of "CHR '',''" existing "''lapdev-env-id='' @ u"] split_on_no_sep by simp
  then show ?thesis
    using tracestate_entry_lapdev [OF assms(1), of parse_uuid]
    by (simp add: extract_lapdev_environment_id_def find_map_append split: option.splits)
qed

section \<open>Properties\<close>

text \<open>
  The routing decision keeps the port and follows a strict order of precedence: a canary flag
  beats a service version, a version beats a high-priority trace, a trace beats a routing key, and
  only a request with none of them is routed by default.
\<close>

lemma routing_target_precedence:
  "get_port (determine_routing_target ctx port) = port
   \<and> (determine_routing_target ctx port = Default port \<longleftrightarrow>
        routing_key ctx = None \<and> service_version ctx = None
        \<and> (\<forall>c. canary_deployment ctx = Some c \<longrightarrow> to_lowercase c \<noteq> ''true'')
        \<and> (\<forall>t. trace_id (trace_context ctx) = Some t \<longrightarrow> \<not> is_high_priority_trace t))
   \<and> ((\<exists>c. canary_deployment ctx = Some c \<and> to_lowercase c = ''true'') \<longleftrightarrow>
        determine_routing_target ctx port = Canary port 10)
   \<and> (\<forall>v. determine_routing_target ctx port = Version port v \<longleftrightarrow> service_version ctx = Some v
        \<and> (\<forall>c. canary_deployment ctx = Some c \<longrightarrow> to_lowercase c \<noteq> ''true''))"
  by (auto simp: determine_routing_target_def split: option.splits)

text \<open>
  Baggage parsing: a key maps to the value of the last well-formed \<open>key=value\<close> member that
  carries it, with blanks around members, keys and values dropped, and members without \<open>=\<close> ignored.
\<close>

theorem parse_baggage_last:
  "parse_baggage b k = Some v \<longleftrightarrow>
     (\<exists>pre item post. split_on (CHR '','') b = pre @ item # post \<and> baggage_item item = Some (k, v)
        \<and> (\<forall>i \<in> set post. \<forall>v'. baggage_item i \<noteq> Some (k, v')))"
proof -
  let ?step = "\<lambda>item (m :: string \<rightharpoonup> string). case baggage_item item of
      Some (key, value) \<Rightarrow> m(key \<mapsto> value) | None \<Rightarrow> m"
  have untouched: "fold ?step is m k = m k" if "\<forall>i \<in> set is. \<forall>v'. baggage_item i \<noteq> Some (k, v')" for "is" m
    using that by (induction "is" arbitrary: m) (auto split: option.splits)
  have "fold ?step is Map.empty k = Some v \<longleftrightarrow>
      (\<exists>pre item post. is = pre @ item # post \<and> baggage_item item = Some (k, v)
        \<and> (\<forall>i \<in> set post. \<forall>v'. baggage_item i \<noteq> Some (k, v')))" (is "?l is \<longleftrightarrow> ?r is") for "is"
  proof
    show "?l is \<Longrightarrow> ?r is"
    proof (induction "is" rule: rev_induct)
      case (snoc i "is")
      show ?case
      proof (cases "\<exists>v'. baggage_item i = Some (k, v')")
        case True
        with snoc.prems show ?thesis
          by (intro exI [of _ "is"] exI [of _ i] exI [of _ "[]"]) auto
      next
        case False
        with snoc.prems have "?l is"
          by (auto split: option.splits if_splits)
        with snoc.IH obtain pre item post where "is = pre @ item # post" "baggage_item item = Some (k, v)"
            "\<forall>i \<in> set post. \<forall>v'. baggage_item i \<noteq> Some (k, v')" by blast
        with False show ?thesis
          by (intro exI [of _ pre] exI [of _ item] exI [of _ "post @ [i]"]) auto
      qed
    qed simp
    show "?r is \<Longrightarrow> ?l is"
      by (auto simp: untouched)
  qed
  then show ?thesis
    by (simp add: parse_baggage_def)
qed

section \<open>Witnesses\<close>

theorem parse_baggage_last_witness:
  "parse_baggage ''a=1, a = 2,x'' ''a'' = Some ''2''"
proof -
  have "split_on (CHR '','') ''a=1, a = 2,x'' = [''a=1''] @ '' a = 2'' # [''x'']"
    "baggage_item '' a = 2'' = Some (''a'', ''2'')" "baggage_item ''x'' = None"
    by code_simp+
  then show ?thesis
    unfolding parse_baggage_last
    by (intro exI [of _ "[''a=1'']"] exI [of _ "'' a = 2''"] exI [of _ "[''x'']"]) simp
qed

end
