(* ===== verification/Preview_Url.thy ===== *)
theory Preview_Url
  imports Lapdev_Prelude
begin

text \<open>
  Preview URLs: the subdomain \<^verbatim>\<open><port>-<service>-<hash>\<close> that names a port of a service of a Kubernetes
  environment.
  \<^item> \<^verbatim>\<open>crates/api/src/kube_controller/preview_url.rs\<close> creates, lists, changes and deletes them;
  \<^item> \<^verbatim>\<open>crates/db/src/api.rs\<close> stores them (the queries on the three tables involved);
  \<^item> \<^verbatim>\<open>crates/kube/src/preview_url.rs\<close> parses a subdomain and resolves it to its target.
  A table is the list of its rows, with the columns the code reads; a row is live while its
  \<^verbatim>\<open>deleted_at\<close> is null. An insertion checks the table's two unique indexes. Time stamps, new ids and the
  random suffix are arguments. A failing database connection is not modelled.
\<close>

section \<open>Rows and requests\<close>

datatype access_level = Organization | Public

fun access_level_to_string :: "access_level \<Rightarrow> string" where
  "access_level_to_string Organization = ''Organization''"
| "access_level_to_string Public = ''Public''"

definition access_level_from_str :: "string \<Rightarrow> access_level option" where
  "access_level_from_str s =
     (if s = ''Organization'' then Some Organization else if s = ''Public'' then Some Public else None)"

record kube_service_port =
  port_label :: "string option"
  port_number :: int

record environment_service =
  svc_id :: uuid
  svc_deleted_at :: "nat option"
  svc_environment_id :: uuid
  svc_name :: string
  svc_ports :: "kube_service_port list"

record kube_environment =
  env_id :: uuid
  env_deleted_at :: "nat option"
  env_organization_id :: uuid
  env_user_id :: uuid
  env_cluster_id :: uuid
  env_namespace :: string
  env_is_shared :: bool
  env_base_environment_id :: "uuid option"

record preview_url =
  pv_id :: uuid
  pv_created_at :: nat
  pv_deleted_at :: "nat option"
  pv_environment_id :: uuid
  pv_service_id :: uuid
  pv_name :: string
  pv_description :: "string option"
  pv_port :: int
  pv_port_name :: "string option"
  pv_protocol :: string
  pv_access_level :: string
  pv_created_by :: uuid
  pv_last_accessed_at :: "nat option"

record organization_member =
  mem_user_id :: uuid
  mem_organization_id :: uuid
  mem_deleted_at :: "nat option"

record kube_db =
  preview_urls :: "preview_url list"
  environments :: "kube_environment list"
  services :: "environment_service list"
  members :: "organization_member list"

record create_preview_request =
  rq_description :: "string option"
  rq_service_id :: uuid
  rq_port :: int
  rq_port_name :: "string option"
  rq_protocol :: "string option"
  rq_access_level :: "access_level option"

datatype db_err = UniqueConstraintViolation | RecordNotUpdated

datatype api_error = InvalidRequest string | Unauthorized | InternalDb db_err

section \<open>Queries\<close>

definition live :: "nat option \<Rightarrow> bool" where
  "live deleted_at = (deleted_at = None)"

definition get_kube_environment :: "kube_db \<Rightarrow> uuid \<Rightarrow> kube_environment option" where
  "get_kube_environment db i = find (\<lambda>e. env_id e = i \<and> live (env_deleted_at e)) (environments db)"

definition get_kube_environment_service_by_id :: "kube_db \<Rightarrow> uuid \<Rightarrow> environment_service option" where
  "get_kube_environment_service_by_id db i = find (\<lambda>s. svc_id s = i \<and> live (svc_deleted_at s)) (services db)"

definition find_preview_url_by_name :: "kube_db \<Rightarrow> string \<Rightarrow> preview_url option" where
  "find_preview_url_by_name db name =
     find (\<lambda>p. pv_name p = name \<and> live (pv_deleted_at p)) (preview_urls db)"

definition get_organization_member :: "kube_db \<Rightarrow> uuid \<Rightarrow> uuid \<Rightarrow> organization_member option" where
  "get_organization_member db user org =
     find (\<lambda>m. mem_user_id m = user \<and> mem_organization_id m = org \<and> live (mem_deleted_at m)) (members db)"

definition insert_preview_url :: "kube_db \<Rightarrow> preview_url \<Rightarrow> db_err + kube_db" where
  "insert_preview_url db p =
     (if list_ex (\<lambda>q. pv_name q = pv_name p \<and> pv_deleted_at q = pv_deleted_at p) (preview_urls db)
         \<or> list_ex (\<lambda>q. pv_environment_id q = pv_environment_id p \<and> pv_service_id q = pv_service_id p
                       \<and> pv_port q = pv_port p \<and> pv_deleted_at q = pv_deleted_at p) (preview_urls db)
      then Err UniqueConstraintViolation
      else Ok (db\<lparr>preview_urls := preview_urls db @ [p]\<rparr>))"

definition db_create_preview_url ::
    "kube_db \<Rightarrow> uuid \<Rightarrow> nat \<Rightarrow> uuid \<Rightarrow> uuid \<Rightarrow> uuid \<Rightarrow> string \<Rightarrow> string option \<Rightarrow> int \<Rightarrow> string option
     \<Rightarrow> string \<Rightarrow> access_level \<Rightarrow> db_err + (preview_url \<times> kube_db)" where
  "db_create_preview_url db new_id now environment_id service_id user_id name description port port_name
       protocol level =
     (let p = \<lparr>pv_id = new_id, pv_created_at = now, pv_deleted_at = None,
               pv_environment_id = environment_id, pv_service_id = service_id, pv_name = name,
               pv_description = description, pv_port = port, pv_port_name = port_name,
               pv_protocol = protocol, pv_access_level = access_level_to_string level,
               pv_created_by = user_id, pv_last_accessed_at = None\<rparr>
      in and_then (insert_preview_url db p) (\<lambda>db'. Ok (p, db')))"

text \<open>\<^verbatim>\<open>ActiveModel::update\<close> writes the set columns of the row with the given primary key.\<close>

definition update_preview_row ::
    "kube_db \<Rightarrow> uuid \<Rightarrow> (preview_url \<Rightarrow> preview_url) \<Rightarrow> db_err + (preview_url \<times> kube_db)" where
  "update_preview_row db i f =
     (case find (\<lambda>p. pv_id p = i) (preview_urls db) of
        None \<Rightarrow> Err RecordNotUpdated
      | Some p \<Rightarrow> Ok (f p, db\<lparr>preview_urls := map (\<lambda>q. if pv_id q = i then f q else q) (preview_urls db)\<rparr>))"

definition db_update_preview_url ::
    "kube_db \<Rightarrow> uuid \<Rightarrow> string option \<Rightarrow> access_level option \<Rightarrow> db_err + (preview_url \<times> kube_db)" where
  "db_update_preview_url db i description level =
     update_preview_row db i (\<lambda>p.
       p\<lparr>pv_description := (case description of Some d \<Rightarrow> Some d | None \<Rightarrow> pv_description p),
         pv_access_level := (case level of Some a \<Rightarrow> access_level_to_string a | None \<Rightarrow> pv_access_level p)\<rparr>)"

definition db_delete_preview_url :: "kube_db \<Rightarrow> uuid \<Rightarrow> nat \<Rightarrow> db_err + kube_db" where
  "db_delete_preview_url db i now =
     and_then (update_preview_row db i (\<lambda>p. p\<lparr>pv_deleted_at := Some now\<rparr>)) (\<lambda>(_, db'). Ok db')"

definition db_update_preview_url_access :: "kube_db \<Rightarrow> uuid \<Rightarrow> nat \<Rightarrow> db_err + kube_db" where
  "db_update_preview_url_access db i now =
     and_then (update_preview_row db i (\<lambda>p. p\<lparr>pv_last_accessed_at := Some now\<rparr>)) (\<lambda>(_, db'). Ok db')"

section \<open>The controller\<close>

definition LAPDEV_API_HOST :: string where "LAPDEV_API_HOST = ''app.lap.dev''"

definition show_i32 :: "int \<Rightarrow> string" where
  "show_i32 i = (if i < 0 then CHR ''-'' # show_nat (nat (- i)) else show_nat (nat i))"

record preview_url_view =
  view_row :: preview_url
  view_access_level :: access_level
  view_url :: string

definition preview_view :: "preview_url \<Rightarrow> preview_url_view" where
  "preview_view p =
     \<lparr>view_row = p,
      view_access_level = (case access_level_from_str (pv_access_level p) of Some a \<Rightarrow> a | None \<Rightarrow> Organization),
      view_url = ''https://'' @ pv_name p @ ''.'' @ LAPDEV_API_HOST\<rparr>"

definition create_environment_preview_url ::
    "kube_db \<Rightarrow> uuid \<Rightarrow> nat \<Rightarrow> string \<Rightarrow> uuid \<Rightarrow> kube_environment \<Rightarrow> create_preview_request
     \<Rightarrow> api_error + (preview_url_view \<times> kube_db)" where
  "create_environment_preview_url db new_id now rand12 user_id environment request =
     and_then (ok_or (InvalidRequest ''Service not found'')
                (get_kube_environment_service_by_id db (rq_service_id request))) (\<lambda>service.
     if (case env_base_environment_id environment of
           Some base_environment_id \<Rightarrow> svc_environment_id service \<noteq> base_environment_id
         | None \<Rightarrow> False)
     then Err (InvalidRequest ''Service not found in base environment'')
     else if env_base_environment_id environment = None \<and> svc_environment_id service \<noteq> env_id environment
     then Err (InvalidRequest ''Service not found in environment'')
     else if \<not> list_ex (\<lambda>p. port_number p = rq_port request
                   \<and> (rq_port_name request = None \<or> port_label p = rq_port_name request)) (svc_ports service)
     then Err (InvalidRequest ''Specified port does not exist on the service'')
     else
       (let auto_name = show_i32 (rq_port request) @ ''-'' @ svc_name service @ ''-'' @ rand12;
            protocol = (case rq_protocol request of Some p \<Rightarrow> p | None \<Rightarrow> ''HTTP'');
            level = (case rq_access_level request of Some a \<Rightarrow> a | None \<Rightarrow> Organization)
        in case db_create_preview_url db new_id now (env_id environment) (rq_service_id request) user_id
                  auto_name (rq_description request) (rq_port request) (rq_port_name request) protocol level of
             Inr (p, db') \<Rightarrow> Ok (preview_view p, db')
           | Inl UniqueConstraintViolation \<Rightarrow>
               Err (InvalidRequest ''A preview URL already exists for this service and port combination'')
           | Inl e \<Rightarrow> Err (InternalDb e)))"


definition get_environment_preview_urls ::
    "kube_db \<Rightarrow> uuid \<Rightarrow> uuid \<Rightarrow> uuid \<Rightarrow> api_error + preview_url_view list" where
  "get_environment_preview_urls db org user environment_id =
     and_then (ok_or (InvalidRequest ''Environment not found'') (get_kube_environment db environment_id)) (\<lambda>environment.
     if env_organization_id environment \<noteq> org then Err Unauthorized
     else if \<not> env_is_shared environment \<and> env_user_id environment \<noteq> user then Err Unauthorized
     else Ok (map preview_view
           (sort_key pv_created_at
             (filter (\<lambda>p. pv_environment_id p = environment_id \<and> live (pv_deleted_at p)) (preview_urls db)))))"

definition update_environment_preview_url ::
    "kube_db \<Rightarrow> uuid \<Rightarrow> string option \<Rightarrow> access_level option \<Rightarrow> api_error + (preview_url_view \<times> kube_db)" where
  "update_environment_preview_url db i description level =
     (case db_update_preview_url db i description level of
        Inl e \<Rightarrow> Err (InternalDb e)
      | Inr (p, db') \<Rightarrow> Ok (preview_view p, db'))"

definition delete_environment_preview_url :: "kube_db \<Rightarrow> uuid \<Rightarrow> nat \<Rightarrow> api_error + kube_db" where
  "delete_environment_preview_url db i now =
     (case db_delete_preview_url db i now of Inl e \<Rightarrow> Err (InternalDb e) | Inr db' \<Rightarrow> Ok db')"

section \<open>The resolver\<close>

record preview_url_info =
  info_service_name :: string
  info_port :: u16
  info_environment_hash :: string

record preview_url_target =
  cluster_id :: uuid
  namespace :: string
  service_name :: string
  service_port :: u16
  target_access_level :: access_level
  protocol :: string
  environment_id :: uuid
  organization_id :: uuid
  preview_url_id :: uuid

datatype preview_url_error =
    InvalidFormat | InvalidPort | EnvironmentNotFound | ServiceNotFound
  | PreviewUrlNotConfigured | AccessDenied

definition parse_preview_url :: "string \<Rightarrow> preview_url_error + preview_url_info" where
  "parse_preview_url subdomain =
     (let parts = split_on (CHR ''-'') subdomain
      in if length parts < 3 then Err InvalidFormat
         else and_then (ok_or InvalidPort (parse_u16 (parts ! 0))) (\<lambda>port.
           Ok \<lparr>info_service_name = join ''-'' (butlast (tl parts)), info_port = port,
               info_environment_hash = last parts\<rparr>))"

definition resolve_preview_url :: "kube_db \<Rightarrow> preview_url_info \<Rightarrow> preview_url_error + preview_url_target" where
  "resolve_preview_url db info =
     (let preview_name = show_u16 (info_port info) @ ''-'' @ info_service_name info @ ''-''
                           @ info_environment_hash info
      in and_then (ok_or PreviewUrlNotConfigured (find_preview_url_by_name db preview_name)) (\<lambda>pv.
         if pv_port pv \<noteq> int (unat (info_port info)) then Err PreviewUrlNotConfigured
         else and_then (ok_or EnvironmentNotFound (get_kube_environment db (pv_environment_id pv))) (\<lambda>env.
         and_then (ok_or ServiceNotFound (get_kube_environment_service_by_id db (pv_service_id pv))) (\<lambda>svc.
         (let expected = (case env_base_environment_id env of Some b \<Rightarrow> b | None \<Rightarrow> env_id env)
          in if svc_environment_id svc \<noteq> expected \<or> svc_name svc \<noteq> info_service_name info
             then Err ServiceNotFound
             else and_then (ok_or AccessDenied (access_level_from_str (pv_access_level pv))) (\<lambda>level.
               Ok \<lparr>cluster_id = env_cluster_id env, namespace = env_namespace env,
                   service_name = svc_name svc, service_port = info_port info,
                   target_access_level = level, protocol = pv_protocol pv,
                   environment_id = env_id env, organization_id = env_organization_id env,
                   preview_url_id = pv_id pv\<rparr>))))))"


section \<open>Names\<close>

lemma show_u16_no_dash: "CHR ''-'' \<notin> set (show_u16 p)"
  unfolding show_u16_def by (rule show_nat_no) simp

lemma show_i32_u16: "show_i32 (int (unat (p :: u16))) = show_u16 p" "show_i32 (uint p) = show_u16 p"
  by (simp_all add: show_i32_def show_u16_def flip: uint_nat)

lemma split_preview_name:
  assumes "CHR ''-'' \<notin> set ds" and "CHR ''-'' \<notin> set h"
  shows "split_on (CHR ''-'') (ds @ ''-'' @ s @ ''-'' @ h) = ds # split_on (CHR ''-'') s @ [h]"
  using split_on_append_sep [OF assms(1), of "s @ ''-'' @ h"] split_on_append [of "CHR ''-''" s h]
    split_on_no_sep [OF assms(2)] by simp

lemma parse_preview_name:
  assumes "CHR ''-'' \<notin> set ds" and "CHR ''-'' \<notin> set h" and "parse_u16 ds = Some p"
  shows "parse_preview_url (ds @ ''-'' @ s @ ''-'' @ h)
    = Ok \<lparr>info_service_name = s, info_port = p, info_environment_hash = h\<rparr>"
proof -
  have "2 \<le> length (split_on (CHR ''-'') s @ [h])"
    by (cases "split_on (CHR ''-'') s") (use split_on_not_Nil in auto)
  then show ?thesis
    using assms(3)
    unfolding parse_preview_url_def split_preview_name [OF assms(1,2)] Let_def
    by (simp add: join_split_on)
qed

text \<open>
  The subdomain parser is exact: it accepts a subdomain precisely when it is a decimal port, a
  service name (which may itself contain dashes) and a hash without a dash, joined by dashes, and
  then returns these three parts. In particular a name the controller generates is read back.
\<close>

theorem parse_preview_url_iff:
  "parse_preview_url subdomain = Ok info \<longleftrightarrow>
     (\<exists>ds. parse_u16 ds = Some (info_port info) \<and> CHR ''-'' \<notin> set ds
        \<and> CHR ''-'' \<notin> set (info_environment_hash info)
        \<and> subdomain = ds @ ''-'' @ info_service_name info @ ''-'' @ info_environment_hash info)"
  (is "?l \<longleftrightarrow> ?r")
proof
  assume ?r
  then obtain ds where "parse_u16 ds = Some (info_port info)" "CHR ''-'' \<notin> set ds"
      "CHR ''-'' \<notin> set (info_environment_hash info)"
      "subdomain = ds @ ''-'' @ info_service_name info @ ''-'' @ info_environment_hash info"
    by blast
  moreover from this(1-3) have "parse_preview_url (ds @ ''-'' @ info_service_name info @ ''-''
      @ info_environment_hash info) = Ok info"
    using parse_preview_name [of ds "info_environment_hash info" "info_port info" "info_service_name info"]
    by (cases info) simp
  ultimately show ?l by simp
next
  assume l: ?l
  obtain ds rest where parts: "split_on (CHR ''-'') subdomain = ds # rest"
    by (metis neq_Nil_conv split_on_not_Nil)
  with l have len: "2 \<le> length rest" and port: "parse_u16 ds = Some (info_port info)"
    and svc: "info_service_name info = join ''-'' (butlast rest)"
    and h: "info_environment_hash info = last rest"
    by (auto simp: parse_preview_url_def Let_def and_then_eq_Ok ok_or_eq_Ok split: if_splits)
  from len have ne: "butlast rest \<noteq> []" "rest \<noteq> []"
    by (auto simp flip: length_greater_0_conv)
  have "subdomain = join ''-'' (ds # butlast rest @ [last rest])"
    using join_split_on [of "CHR ''-''" subdomain] parts ne by simp
  then have "subdomain = ds @ ''-'' @ join ''-'' (butlast rest) @ ''-'' @ last rest"
    using ne join_append [of "butlast rest" "[last rest]"] by (simp add: join_Cons_not_Nil)
  moreover have "CHR ''-'' \<notin> set ds" "CHR ''-'' \<notin> set (last rest)"
    using split_on_parts [of _ "CHR ''-''" subdomain] parts ne(2) by auto
  ultimately show ?r
    using port svc h by metis
qed

section \<open>Life cycle\<close>

lemma access_level_roundtrip [simp]: "access_level_from_str (access_level_to_string a) = Some a"
  by (cases a) (simp_all add: access_level_from_str_def)

text \<open>What a successful creation has checked and written.\<close>

lemma create_preview_elim:
  assumes "create_environment_preview_url db new_id now rand12 user environment request = Ok (view, db')"
  obtains svc where
    "get_kube_environment_service_by_id db (rq_service_id request) = Some svc"
    "svc_environment_id svc
       = (case env_base_environment_id environment of Some b \<Rightarrow> b | None \<Rightarrow> env_id environment)"
    "insert_preview_url db (view_row view) = Ok db'"
    "view_url view = ''https://'' @ pv_name (view_row view) @ ''.app.lap.dev''"
    "view_row view = \<lparr>pv_id = new_id, pv_created_at = now, pv_deleted_at = None,
       pv_environment_id = env_id environment, pv_service_id = rq_service_id request,
       pv_name = show_i32 (rq_port request) @ ''-'' @ svc_name svc @ ''-'' @ rand12,
       pv_description = rq_description request, pv_port = rq_port request,
       pv_port_name = rq_port_name request,
       pv_protocol = (case rq_protocol request of Some p \<Rightarrow> p | None \<Rightarrow> ''HTTP''),
       pv_access_level = access_level_to_string
         (case rq_access_level request of Some a \<Rightarrow> a | None \<Rightarrow> Organization),
       pv_created_by = user, pv_last_accessed_at = None\<rparr>"
  using assms
  by (fastforce simp: create_environment_preview_url_def db_create_preview_url_def and_then_eq_Ok
      ok_or_eq_Ok preview_view_def LAPDEV_API_HOST_def Let_def
      split: if_splits sum.splits prod.splits db_err.splits option.splits)

lemma find_append_new:
  "\<forall>x \<in> set xs. \<not> P x \<Longrightarrow> P y \<Longrightarrow> find P (xs @ [y]) = Some y"
  by (induction xs) auto

lemma insert_then_find:
  assumes "insert_preview_url db p = Ok db'" and "pv_deleted_at p = None"
  shows "find_preview_url_by_name db' (pv_name p) = Some p"
    and "environments db' = environments db" and "services db' = services db"
  using assms
  by (auto simp: insert_preview_url_def find_preview_url_by_name_def live_def list_ex_iff
      split: if_splits intro!: find_append_new) force



text \<open>The invariant the unique indexes and the primary key keep.\<close>

definition preview_wf :: "kube_db \<Rightarrow> bool" where
  "preview_wf db =
     (distinct (map pv_id (preview_urls db))
      \<and> distinct (map pv_name (filter (\<lambda>p. live (pv_deleted_at p)) (preview_urls db)))
      \<and> distinct (map (\<lambda>p. (pv_environment_id p, pv_service_id p, pv_port p))
           (filter (\<lambda>p. live (pv_deleted_at p)) (preview_urls db))))"

lemma preview_wf_insert:
  assumes "preview_wf db" and "insert_preview_url db p = Ok db'" and "pv_deleted_at p = None"
    and "pv_id p \<notin> set (map pv_id (preview_urls db))"
  shows "preview_wf db'"
  using assms by (auto simp: preview_wf_def insert_preview_url_def live_def list_ex_iff split: if_splits)
    force+

text \<open>An update that keeps the key columns of a row, or takes the row out of the live ones.\<close>

lemma filter_map_update:
  assumes "\<And>q. live (pv_deleted_at (f q)) \<Longrightarrow> live (pv_deleted_at q) \<and> key (f q) = key q"
    and "distinct (map key (filter (\<lambda>p. live (pv_deleted_at p)) ps))"
  shows "distinct (map key (filter (\<lambda>p. live (pv_deleted_at p)) (map f ps)))"
proof -
  have "map key (filter (\<lambda>p. live (pv_deleted_at p)) (map f ps))
      = map key (filter (\<lambda>p. live (pv_deleted_at (f p))) (filter (\<lambda>p. live (pv_deleted_at p)) ps))"
    using assms(1) by (induction ps) auto
  then show ?thesis
    using assms(2) by (simp only: distinct_map_filter)
qed

lemma preview_wf_update:
  assumes "preview_wf db" and "update_preview_row db i f = Ok (p, db')"
    and "\<And>q. pv_id (f q) = pv_id q"
    and "\<And>q. live (pv_deleted_at (f q)) \<Longrightarrow> live (pv_deleted_at q) \<and> pv_name (f q) = pv_name q
      \<and> pv_environment_id (f q) = pv_environment_id q \<and> pv_service_id (f q) = pv_service_id q
      \<and> pv_port (f q) = pv_port q"
  shows "preview_wf db'"
proof -
  let ?g = "\<lambda>q. if pv_id q = i then f q else q"
  have ids: "map pv_id (map ?g ps) = map pv_id ps" for ps
    using assms(3) by (induction ps) auto
  have db': "db' = db\<lparr>preview_urls := map ?g (preview_urls db)\<rparr>"
    using assms(2) by (auto simp: update_preview_row_def split: option.splits)
  show ?thesis
    using assms(1) ids unfolding preview_wf_def db'
    by (auto intro!: filter_map_update [where f = ?g] dest: assms(4) simp del: map_map split: if_splits)
qed

text \<open>
  The table stays well formed: creating (with a fresh id), changing and deleting preview URLs and
  recording an access all keep the ids distinct, the names of live preview URLs distinct, and at most
  one live preview URL per environment, service and port.
\<close>

theorem preview_wf_preserved:
  assumes "preview_wf db"
  shows "(create_environment_preview_url db i now rnd user env request = Ok (view, db')
        \<and> i \<notin> set (map pv_id (preview_urls db)) \<longrightarrow> preview_wf db')
    \<and> (update_environment_preview_url db i descr level = Ok (view, db') \<longrightarrow> preview_wf db')
    \<and> (delete_environment_preview_url db i now = Ok db' \<longrightarrow> preview_wf db')
    \<and> (db_update_preview_url_access db i now = Ok db' \<longrightarrow> preview_wf db')"
proof -
  have create: "preview_wf db'"
    if "create_environment_preview_url db i now rnd user env request = Ok (view, db')"
      "i \<notin> set (map pv_id (preview_urls db))"
  proof -
    have "insert_preview_url db (view_row view) = Ok db' \<and> pv_id (view_row view) = i
        \<and> pv_deleted_at (view_row view) = None"
      using that(1) by (rule create_preview_elim) simp
    with that(2) preview_wf_insert [OF assms] show ?thesis by blast
  qed
  have others: "preview_wf db'"
    if "update_environment_preview_url db i descr level = Ok (view, db')
      \<or> delete_environment_preview_url db i now = Ok db' \<or> db_update_preview_url_access db i now = Ok db'"
    using that preview_wf_update [OF assms]
    by (auto simp: update_environment_preview_url_def db_update_preview_url_def
        delete_environment_preview_url_def db_delete_preview_url_def db_update_preview_url_access_def
        and_then_eq_Ok live_def split: sum.splits) fastforce+
  from create others show ?thesis by blast
qed

text \<open>
  Deleting a preview URL revokes it: from then on its name resolves to nothing, with the error
  the proxy answers as not found, while every other name resolves as before.
\<close>

theorem deleted_preview_revoked:
  assumes "preview_wf db" and "delete_environment_preview_url db (pv_id p) now = Ok db'"
    and "p \<in> set (preview_urls db)" and "pv_deleted_at p = None"
  shows "find_preview_url_by_name db' name
    = (if name = pv_name p then None else find_preview_url_by_name db name)"
proof -
  let ?g = "\<lambda>q. if pv_id q = pv_id p then q\<lparr>pv_deleted_at := Some now\<rparr> else q"
  have db': "preview_urls db' = map ?g (preview_urls db)"
    using assms(2) by (auto simp: delete_environment_preview_url_def db_delete_preview_url_def
        update_preview_row_def and_then_eq_Ok split: sum.splits option.splits)
  have uniq: "q = p" if "q \<in> set (preview_urls db)" "pv_id q = pv_id p \<or> pv_name q = pv_name p \<and> live (pv_deleted_at q)" for q
    using that assms(1,3,4) unfolding preview_wf_def distinct_map inj_on_def live_def by auto
  have step: "find (\<lambda>q. pv_name q = name \<and> live (pv_deleted_at q)) (map ?g qs)
      = (if name = pv_name p then None
         else find (\<lambda>q. pv_name q = name \<and> live (pv_deleted_at q)) qs)"
    if "set qs \<subseteq> set (preview_urls db)" for qs
    using that by (induction qs) (auto simp: live_def dest: uniq)
  show ?thesis
    using step [of "preview_urls db"] by (simp add: find_preview_url_by_name_def db')
qed


text \<open>
  The resolver only ever hands out configured targets: a resolved target comes from a live
  preview URL that carries exactly the requested port, service and hash, its environment and service
  are live, the service belongs to that environment or to the base of that branch, and the access
  level is the stored one.
\<close>

theorem resolve_preview_url_sound:
  assumes "resolve_preview_url db info = Ok target"
  shows "\<exists>pv env svc. pv \<in> set (preview_urls db) \<and> env \<in> set (environments db) \<and> svc \<in> set (services db)
    \<and> live (pv_deleted_at pv) \<and> live (env_deleted_at env) \<and> live (svc_deleted_at svc)
    \<and> pv_name pv = show_u16 (info_port info) @ ''-'' @ info_service_name info @ ''-''
                     @ info_environment_hash info
    \<and> pv_port pv = int (unat (service_port target)) \<and> service_port target = info_port info
    \<and> pv_environment_id pv = env_id env \<and> env_id env = environment_id target
    \<and> pv_service_id pv = svc_id svc \<and> svc_name svc = service_name target
    \<and> (svc_environment_id svc = env_id env \<or> env_base_environment_id env = Some (svc_environment_id svc))
    \<and> access_level_from_str (pv_access_level pv) = Some (target_access_level target)
    \<and> organization_id target = env_organization_id env"
proof -
  from assms obtain pv env svc where
    found: "find_preview_url_by_name db (show_u16 (info_port info) @ ''-'' @ info_service_name info
        @ ''-'' @ info_environment_hash info) = Some pv"
      "get_kube_environment db (pv_environment_id pv) = Some env"
      "get_kube_environment_service_by_id db (pv_service_id pv) = Some svc"
    and facts: "pv_port pv = int (unat (info_port info))" "svc_name svc = info_service_name info"
      "svc_environment_id svc = (case env_base_environment_id env of Some b \<Rightarrow> b | None \<Rightarrow> env_id env)"
      "access_level_from_str (pv_access_level pv) = Some (target_access_level target)"
      "service_port target = info_port info" "environment_id target = env_id env"
      "organization_id target = env_organization_id env" "service_name target = svc_name svc"
    by (auto simp: resolve_preview_url_def Let_def and_then_eq_Ok ok_or_eq_Ok split: if_splits)
  from found have "pv \<in> set (preview_urls db)" "env \<in> set (environments db)" "svc \<in> set (services db)"
    "live (pv_deleted_at pv)" "live (env_deleted_at env)" "live (svc_deleted_at svc)"
    "env_id env = pv_environment_id pv" "svc_id svc = pv_service_id pv"
    "pv_name pv = show_u16 (info_port info) @ ''-'' @ info_service_name info @ ''-''
       @ info_environment_hash info"
    by (auto simp: find_preview_url_by_name_def get_kube_environment_def
        get_kube_environment_service_by_id_def find_Some_iff)
  with facts show ?thesis
    by (intro exI [of _ pv] exI [of _ env] exI [of _ svc]) (auto split: option.splits)
qed

section \<open>Witnesses\<close>

definition ex_env :: kube_environment where
  "ex_env = \<lparr>env_id = 2, env_deleted_at = None, env_organization_id = 9, env_user_id = 5,
     env_cluster_id = 7, env_namespace = ''ns'', env_is_shared = False,
     env_base_environment_id = Some 1\<rparr>"

definition ex_service :: environment_service where
  "ex_service = \<lparr>svc_id = 3, svc_deleted_at = None, svc_environment_id = 1, svc_name = ''my-app'',
     svc_ports = [\<lparr>port_label = None, port_number = 80\<rparr>]\<rparr>"

definition ex_db :: kube_db where
  "ex_db = \<lparr>preview_urls = [], environments = [ex_env], services = [ex_service], members = []\<rparr>"

definition ex_request :: create_preview_request where
  "ex_request = \<lparr>rq_description = None, rq_service_id = 3, rq_port = 80, rq_port_name = None,
     rq_protocol = None, rq_access_level = None\<rparr>"

definition ex_preview :: preview_url where
  "ex_preview = \<lparr>pv_id = 4, pv_created_at = 0, pv_deleted_at = None, pv_environment_id = 2,
     pv_service_id = 3, pv_name = ''80-my-app-abc'', pv_description = None, pv_port = 80,
     pv_port_name = None, pv_protocol = ''HTTP'', pv_access_level = ''Organization'',
     pv_created_by = 5, pv_last_accessed_at = None\<rparr>"

lemma ex_show_80: "show_i32 80 = ''80''" "show_u16 80 = ''80''" "show_nat 80 = ''80''"
  by (simp_all add: show_i32_def show_u16_def show_nat.simps digit_char_def) code_simp+

lemma ex_create:
  "create_environment_preview_url ex_db 4 0 ''abc'' 5 ex_env ex_request
    = Ok (preview_view ex_preview, ex_db\<lparr>preview_urls := [ex_preview]\<rparr>)"
  by (simp add: create_environment_preview_url_def ex_db_def ex_request_def ex_env_def ex_service_def
      get_kube_environment_service_by_id_def live_def db_create_preview_url_def insert_preview_url_def
      ex_preview_def ex_show_80 Let_def)

theorem parse_preview_url_iff_witness:
  "parse_preview_url ''80-my-app-abc''
    = Ok \<lparr>info_service_name = ''my-app'', info_port = 80, info_environment_hash = ''abc''\<rparr>"
proof -
  have "parse_u16 ''80'' = Some 80"
    using parse_u16_show_u16 [of 80] ex_show_80(2) by simp
  then show ?thesis
    unfolding parse_preview_url_iff by (intro exI [of _ "''80''"]) simp
qed


theorem preview_wf_preserved_witness:
  "preview_wf ex_db \<and> preview_wf (ex_db\<lparr>preview_urls := [ex_preview]\<rparr>)"
proof -
  have wf: "preview_wf ex_db"
    by (simp add: preview_wf_def ex_db_def)
  moreover have "4 \<notin> set (map pv_id (preview_urls ex_db))"
    by (simp add: ex_db_def)
  ultimately show ?thesis
    using preview_wf_preserved [OF wf] ex_create by blast
qed

theorem deleted_preview_revoked_witness:
  "find_preview_url_by_name (ex_db\<lparr>preview_urls := [ex_preview\<lparr>pv_deleted_at := Some 1\<rparr>]\<rparr>) ''80-my-app-abc'' = None"
proof -
  let ?db = "ex_db\<lparr>preview_urls := [ex_preview]\<rparr>"
  have "preview_wf ?db"
    by (simp add: preview_wf_def ex_preview_def)
  moreover have "delete_environment_preview_url ?db (pv_id ex_preview) 1
      = Ok (ex_db\<lparr>preview_urls := [ex_preview\<lparr>pv_deleted_at := Some 1\<rparr>]\<rparr>)"
    by (simp add: delete_environment_preview_url_def db_delete_preview_url_def update_preview_row_def)
  ultimately show ?thesis
    using deleted_preview_revoked [of ?db ex_preview 1 _ "''80-my-app-abc''"] by (simp add: ex_preview_def)
qed

theorem resolve_preview_url_sound_witness:
  "\<exists>pv. pv \<in> set (preview_urls (ex_db\<lparr>preview_urls := [ex_preview]\<rparr>)) \<and> pv_environment_id pv = 2
    \<and> live (pv_deleted_at pv)"
proof -
  let ?info = "\<lparr>info_service_name = ''my-app'', info_port = 80, info_environment_hash = ''abc''\<rparr>"
  let ?target = "\<lparr>cluster_id = 7, namespace = ''ns'', service_name = ''my-app'', service_port = 80,
    target_access_level = Organization, protocol = ''HTTP'', environment_id = 2, organization_id = 9,
    preview_url_id = 4\<rparr>"
  have "resolve_preview_url (ex_db\<lparr>preview_urls := [ex_preview]\<rparr>) ?info = Ok ?target"
    by (simp add: resolve_preview_url_def find_preview_url_by_name_def ex_preview_def ex_db_def ex_env_def
        ex_service_def get_kube_environment_def get_kube_environment_service_by_id_def live_def
        ex_show_80 access_level_from_str_def)
  from resolve_preview_url_sound [OF this] show ?thesis by auto
qed

end
