(* ===== verification/Tunnel_Message.thy ===== *)
theory Tunnel_Message
  imports Lapdev_Prelude
begin

text \<open>
  The messages with which a tunnel stream is opened and a direct connection is authenticated:
  \<^verbatim>\<open>crates/tunnel/src/error.rs\<close>, \<^verbatim>\<open>message.rs\<close>, \<^verbatim>\<open>direct/handshake.rs\<close>, the opening exchange of
  \<^verbatim>\<open>client.rs\<close> and \<^verbatim>\<open>server.rs\<close>.

  A QUIC receive stream is the bytes it still delivers and how it ends: finished by the peer or with a
  read error. A send stream is the bytes accepted so far and the point at which the peer stops it, if
  any. Flushing a QUIC stream does nothing. The wording of errors of the QUIC library is not modelled.
\<close>

section \<open>Errors and streams\<close>

datatype tunnel_error = Transport io_error | ConnectionClosed | Remote string

definition io_error_of_tunnel :: "tunnel_error \<Rightarrow> io_error" where
  "io_error_of_tunnel e =
     (case e of
        Transport err \<Rightarrow> err
      | ConnectionClosed \<Rightarrow> IoError BrokenPipe ''connection closed''
      | Remote reason \<Rightarrow> IoError Other (''remote error: '' @ reason))"

definition tunnel_error_display :: "tunnel_error \<Rightarrow> string" where
  "tunnel_error_display e =
     (case e of
        Transport err \<Rightarrow> ''transport error: '' @ io_message err
      | ConnectionClosed \<Rightarrow> ''connection closed''
      | Remote reason \<Rightarrow> ''remote error: '' @ reason)"

record recv_stream =
  rx_bytes :: string
  rx_end :: "io_error option"

record send_stream =
  tx_sent :: string
  tx_limit :: "nat option"
  tx_error :: io_error

definition EOF_ERROR :: io_error where
  "EOF_ERROR = IoError UnexpectedEof ''early eof''"

definition stream_end :: "recv_stream \<Rightarrow> io_error" where
  "stream_end r = (case rx_end r of None \<Rightarrow> EOF_ERROR | Some e \<Rightarrow> e)"

definition u16_be :: "u16 \<Rightarrow> string" where
  "u16_be w = [char_of (unat w div 256), char_of (unat w mod 256)]"

definition be_u16 :: "char \<Rightarrow> char \<Rightarrow> u16" where
  "be_u16 a b = of_nat (of_char a * 256 + of_char b)"

definition read_u8 :: "recv_stream \<Rightarrow> (io_error + nat) \<times> recv_stream" where
  "read_u8 r =
     (case rx_bytes r of
        a # rest \<Rightarrow> (Ok (of_char a), r\<lparr>rx_bytes := rest\<rparr>)
      | [] \<Rightarrow> (Err (stream_end r), r))"

definition read_u16 :: "recv_stream \<Rightarrow> (io_error + u16) \<times> recv_stream" where
  "read_u16 r =
     (case rx_bytes r of
        a # b # rest \<Rightarrow> (Ok (be_u16 a b), r\<lparr>rx_bytes := rest\<rparr>)
      | _ \<Rightarrow> (Err (stream_end r), r\<lparr>rx_bytes := []\<rparr>))"

datatype read_exact_error = FinishedEarly | ReadFailed io_error

definition read_exact :: "recv_stream \<Rightarrow> nat \<Rightarrow> (read_exact_error + string) \<times> recv_stream" where
  "read_exact r n =
     (if n \<le> length (rx_bytes r)
      then (Ok (take n (rx_bytes r)), r\<lparr>rx_bytes := drop n (rx_bytes r)\<rparr>)
      else (Err (case rx_end r of None \<Rightarrow> FinishedEarly | Some e \<Rightarrow> ReadFailed e), r\<lparr>rx_bytes := []\<rparr>))"

definition read_exact_into :: "recv_stream \<Rightarrow> nat \<Rightarrow> (tunnel_error + string) \<times> recv_stream" where
  "read_exact_into r n =
     (case read_exact r n of
        (Inl FinishedEarly, r') \<Rightarrow> (Err ConnectionClosed, r')
      | (Inl (ReadFailed inner), r') \<Rightarrow> (Err (Transport (IoError Other (io_message inner))), r')
      | (Inr bs, r') \<Rightarrow> (Ok bs, r'))"

definition write_bytes :: "send_stream \<Rightarrow> string \<Rightarrow> (io_error + unit) \<times> send_stream" where
  "write_bytes s bs =
     (case tx_limit s of
        None \<Rightarrow> (Ok (), s\<lparr>tx_sent := tx_sent s @ bs\<rparr>)
      | Some n \<Rightarrow>
          (if length bs \<le> n then (Ok (), s\<lparr>tx_sent := tx_sent s @ bs, tx_limit := Some (n - length bs)\<rparr>)
           else (Err (tx_error s), s\<lparr>tx_sent := tx_sent s @ take n bs, tx_limit := Some 0\<rparr>)))"

section \<open>Opening a stream\<close>

datatype protocol = ProtoTcp | ProtoUdp

fun as_u8 :: "protocol \<Rightarrow> nat" where
  "as_u8 ProtoTcp = 0"
| "as_u8 ProtoUdp = 1"

definition protocol_try_from :: "nat \<Rightarrow> protocol option" where
  "protocol_try_from v = (if v = 0 then Some ProtoTcp else if v = 1 then Some ProtoUdp else None)"

record tunnel_target =
  target_host :: string
  target_port :: u16

record stream_open_request =
  open_protocol :: protocol
  open_target :: tunnel_target

record stream_open_response =
  open_success :: bool
  open_error :: "string option"

definition MAX_HOST_LEN :: nat where "MAX_HOST_LEN = 65535"

definition MAX_ERROR_LEN :: nat where "MAX_ERROR_LEN = 65535"

text \<open>A sequence of writes, stopped by the first that fails.\<close>

fun write_all :: "send_stream \<Rightarrow> string list \<Rightarrow> (tunnel_error + unit) \<times> send_stream" where
  "write_all s [] = (Ok (), s)"
| "write_all s (bs # rest) =
     (case write_bytes s bs of
        (Inl e, s') \<Rightarrow> (Err (Transport e), s')
      | (Inr _, s') \<Rightarrow> write_all s' rest)"

definition write_stream_open_request ::
    "send_stream \<Rightarrow> protocol \<Rightarrow> tunnel_target \<Rightarrow> (tunnel_error + unit) \<times> send_stream" where
  "write_stream_open_request s proto target =
     (let host_bytes = target_host target in
      if length host_bytes > MAX_HOST_LEN then (Err (Remote ''target host too long''), s)
      else write_all s [[char_of (as_u8 proto)], u16_be (of_nat (length host_bytes)), host_bytes,
                        u16_be (target_port target)])"

definition read_stream_open_request :: "recv_stream \<Rightarrow> (tunnel_error + stream_open_request) \<times> recv_stream" where
  "read_stream_open_request r =
     (case read_u8 r of
        (Inl e, r') \<Rightarrow> (Err (Transport e), r')
      | (Inr v, r') \<Rightarrow>
          (case protocol_try_from v of
             None \<Rightarrow> (Err (Remote ''unsupported protocol''), r')
           | Some proto \<Rightarrow>
               (case read_u16 r' of
                  (Inl e, r') \<Rightarrow> (Err (Transport e), r')
                | (Inr host_len, r') \<Rightarrow>
                    (if unat host_len > MAX_HOST_LEN then (Err (Remote ''target host too large''), r')
                     else
                       (case read_exact_into r' (unat host_len) of
                          (Inl e, r') \<Rightarrow> (Err e, r')
                        | (Inr host, r') \<Rightarrow>
                            (if \<not> utf8_valid host then (Err (Remote ''invalid target host encoding''), r')
                             else
                               (case read_u16 r' of
                                  (Inl e, r') \<Rightarrow> (Err (Transport e), r')
                                | (Inr port, r') \<Rightarrow>
                                    (Ok \<lparr>open_protocol = proto,
                                         open_target = \<lparr>target_host = host, target_port = port\<rparr>\<rparr>, r'))))))))"

definition write_stream_open_response ::
    "send_stream \<Rightarrow> bool \<Rightarrow> string option \<Rightarrow> (tunnel_error + unit) \<times> send_stream" where
  "write_stream_open_response s success error =
     (if success then write_all s [[char_of (1 :: nat)]]
      else
        (let message = (case error of Some m \<Rightarrow> m | None \<Rightarrow> ''remote open failed'');
             len = min (length message) MAX_ERROR_LEN
         in write_all s [[char_of (0 :: nat)], u16_be (of_nat len), take len message]))"

definition read_stream_open_response :: "recv_stream \<Rightarrow> (tunnel_error + stream_open_response) \<times> recv_stream" where
  "read_stream_open_response r =
     (case read_u8 r of
        (Inl e, r') \<Rightarrow> (Err (Transport e), r')
      | (Inr v, r') \<Rightarrow>
          (if v \<noteq> 0 then (Ok \<lparr>open_success = True, open_error = None\<rparr>, r')
           else
             (case read_u16 r' of
                (Inl e, r') \<Rightarrow> (Err (Transport e), r')
              | (Inr len, r') \<Rightarrow>
                  (if unat len > MAX_ERROR_LEN then (Err (Remote ''error message too large''), r')
                   else
                     (case read_exact_into r' (unat len) of
                        (Inl e, r') \<Rightarrow> (Err e, r')
                      | (Inr buf, r') \<Rightarrow>
                          (Ok \<lparr>open_success = False,
                               open_error = Some (if utf8_valid buf then buf else ''remote open failed'')\<rparr>, r'))))))"

section \<open>Credentials of a direct connection\<close>

definition HANDSHAKE_MAX_TOKEN_LEN :: nat where "HANDSHAKE_MAX_TOKEN_LEN = 65535"

definition as_other :: "tunnel_error \<Rightarrow> tunnel_error" where
  "as_other e = (case e of Transport err \<Rightarrow> Transport (IoError Other (io_message err)) | _ \<Rightarrow> e)"

definition map_err :: "('e \<Rightarrow> 'f) \<Rightarrow> ('e + 'a) \<Rightarrow> ('f + 'a)" where
  "map_err f r = (case r of Inl e \<Rightarrow> Inl (f e) | Inr x \<Rightarrow> Inr x)"

definition write_token :: "send_stream \<Rightarrow> string \<Rightarrow> (tunnel_error + unit) \<times> send_stream" where
  "write_token s token =
     (if length token > HANDSHAKE_MAX_TOKEN_LEN then (Err (Remote ''direct credential too long''), s)
      else apfst (map_err as_other) (write_all s [u16_be (of_nat (length token)), token]))"

definition read_token :: "recv_stream \<Rightarrow> (tunnel_error + string) \<times> recv_stream" where
  "read_token r =
     (case read_u16 r of
        (Inl e, r') \<Rightarrow> (Err (Transport (IoError Other (io_message e))), r')
      | (Inr len, r') \<Rightarrow>
          (case read_exact r' (unat len) of
             (Inl FinishedEarly, r') \<Rightarrow> (Err (Transport (IoError Other ''stream finished early'')), r')
           | (Inl (ReadFailed e), r') \<Rightarrow> (Err (Transport (IoError Other (io_message e))), r')
           | (Inr buf, r') \<Rightarrow>
               (if utf8_valid buf then (Ok buf, r') else (Err (Remote ''invalid credential encoding''), r'))))"

definition read_server_ack :: "recv_stream \<Rightarrow> (tunnel_error + unit) \<times> recv_stream" where
  "read_server_ack r =
     (case read_u8 r of
        (Inl e, r') \<Rightarrow> (Err (Transport (IoError Other (io_message e))), r')
      | (Inr ack, r') \<Rightarrow> (if ack = 1 then Ok () else Err (Remote ''direct server rejected credential''), r'))"

definition write_server_ack :: "send_stream \<Rightarrow> (tunnel_error + unit) \<times> send_stream" where
  "write_server_ack s = apfst (map_err as_other) (write_all s [[char_of (1 :: nat)]])"

section \<open>The two ends of an opening exchange\<close>

text \<open>
  The client's side after \<^verbatim>\<open>open_bi\<close>. \<open>peer\<close> is what comes back for the bytes sent.
  \<open>bi\<close> is the outcome of opening the stream.
\<close>

definition connect_with_protocol ::
    "(io_error + send_stream) \<Rightarrow> (string \<Rightarrow> recv_stream) \<Rightarrow> protocol \<Rightarrow> tunnel_target \<Rightarrow> tunnel_error + recv_stream" where
  "connect_with_protocol bi peer proto target =
     (case bi of
        Inl e \<Rightarrow> Err (Transport e)
      | Inr send \<Rightarrow>
          (case write_stream_open_request send proto target of
             (Inl e, _) \<Rightarrow> Err e
           | (Inr _, send') \<Rightarrow>
               (case read_stream_open_response (peer (tx_sent send')) of
                  (Inl e, _) \<Rightarrow> Err e
                | (Inr response, recv') \<Rightarrow>
                    (if \<not> open_success response
                     then Err (Remote (case open_error response of Some reason \<Rightarrow> reason | None \<Rightarrow> ''remote open failed''))
                     else Ok recv'))))"

datatype stream_outcome = Piping | StreamFailed tunnel_error

definition UNSUPPORTED_PROTOCOL :: string where
  "UNSUPPORTED_PROTOCOL = ''protocol not supported''"

text \<open>The server's side; \<open>Piping\<close> means that bytes are copied between the stream and the target from here on.\<close>

definition handle_stream ::
    "(tunnel_target \<Rightarrow> tunnel_error + unit) \<Rightarrow> send_stream \<Rightarrow> recv_stream
     \<Rightarrow> stream_outcome \<times> send_stream \<times> recv_stream" where
  "handle_stream connector send recv =
     (case read_stream_open_request recv of
        (Inl err, recv') \<Rightarrow>
          (StreamFailed err, snd (write_stream_open_response send False (Some ''bad request'')), recv')
      | (Inr request, recv') \<Rightarrow>
          (if open_protocol request \<noteq> ProtoTcp then
             (case write_stream_open_response send False (Some UNSUPPORTED_PROTOCOL) of
                (Inl e, send') \<Rightarrow> (StreamFailed e, send', recv')
              | (Inr _, send') \<Rightarrow> (StreamFailed (Remote UNSUPPORTED_PROTOCOL), send', recv'))
           else
             (case connector (open_target request) of
                Inl err \<Rightarrow>
                  (case write_stream_open_response send False (Some (tunnel_error_display err)) of
                     (Inl e, send') \<Rightarrow> (StreamFailed e, send', recv')
                   | (Inr _, send') \<Rightarrow> (StreamFailed err, send', recv'))
              | Inr _ \<Rightarrow>
                  (case write_stream_open_response send True None of
                     (Inl e, send') \<Rightarrow> (StreamFailed e, send', recv')
                   | (Inr _, send') \<Rightarrow> (Piping, send', recv')))))"

section \<open>Primitive reads and writes\<close>

lemma of_char_char_of_small: "n < 256 \<Longrightarrow> (of_char (char_of (n :: nat)) :: nat) = n"
  by simp

lemma unat_u16_bounds: "unat (w :: u16) div 256 < 256" "unat w < 65536"
  using unsigned_less [of w] by (simp_all add: div_less_iff_less_mult)

lemma be_u16_u16_be [be_simps]:
  "be_u16 (char_of (unat w div 256)) (char_of (unat w mod 256)) = w"
proof -
  have "of_char (char_of (unat w div 256)) * 256 + of_char (char_of (unat w mod 256)) = unat w"
    using unat_u16_bounds [of w] by (simp add: of_char_char_of_small)
  then show ?thesis by (simp add: be_u16_def)
qed

lemma u16_be_be_u16 [be_simps]: "u16_be (be_u16 a b) = [a, b]"
proof -
  have ab: "(of_char a :: nat) < 256" "(of_char b :: nat) < 256" by simp_all
  then have "(of_char a :: nat) * 256 + of_char b < 65536" by linarith
  then have "unat (be_u16 a b) = of_char a * 256 + of_char b"
    by (simp add: be_u16_def unat_of_nat del: of_nat_add of_nat_mult)
  with ab show ?thesis by (simp add: u16_be_def)
qed

lemma u16_be_inj [be_simps]: "u16_be v = u16_be w \<longleftrightarrow> v = w"
proof
  assume "u16_be v = u16_be w"
  then have "be_u16 (char_of (unat v div 256)) (char_of (unat v mod 256))
      = be_u16 (char_of (unat w div 256)) (char_of (unat w mod 256))"
    unfolding u16_be_def by (simp only: list.inject)
  then show "v = w" unfolding be_u16_u16_be .
qed simp

lemma length_u16_be [simp]: "length (u16_be w) = 2"
  by (simp add: u16_be_def)

lemma recv_eq: "r' = r\<lparr>rx_bytes := bs\<rparr> \<longleftrightarrow> rx_bytes r' = bs \<and> rx_end r' = rx_end (r :: recv_stream)"
  by (cases r; cases r') auto

lemma read_u8_Ok:
  "read_u8 r = (Ok v, r') \<longleftrightarrow> v < 256 \<and> rx_bytes r = char_of v # rx_bytes r' \<and> rx_end r' = rx_end r"
proof (cases "rx_bytes r")
  case (Cons a rest)
  have "of_char a = v \<longleftrightarrow> v < 256 \<and> a = char_of v"
  proof
    assume "of_char a = v"
    moreover have "(of_char a :: nat) < 256" by simp
    ultimately show "v < 256 \<and> a = char_of v" by (metis char_of_char)
  qed (simp add: of_char_char_of_small)
  with Cons show ?thesis
    by (auto simp: read_u8_def recv_eq [symmetric])
qed (simp add: read_u8_def)

lemma read_u16_Ok:
  "read_u16 r = (Ok w, r') \<longleftrightarrow> rx_bytes r = u16_be w @ rx_bytes r' \<and> rx_end r' = rx_end r"
proof -
  have eq: "be_u16 a b = w \<longleftrightarrow> [a, b] = u16_be w" for a b
    by (metis u16_be_be_u16 u16_be_inj)
  show ?thesis
  proof (cases "rx_bytes r" rule: remdups_adj.cases)
    case (3 a b rest)
    then show ?thesis
      using eq [of a b] by (auto simp: read_u16_def recv_eq [symmetric] u16_be_def)
  qed (auto simp: read_u16_def u16_be_def)
qed

lemma read_exact_Ok:
  "read_exact r n = (Ok bs, r') \<longleftrightarrow>
     length bs = n \<and> rx_bytes r = bs @ rx_bytes r' \<and> rx_end r' = rx_end r"
proof (cases "n \<le> length (rx_bytes r)")
  case True
  then show ?thesis
    by (auto simp: read_exact_def recv_eq [symmetric])
qed (auto simp: read_exact_def)

lemma read_exact_into_Ok:
  "read_exact_into r n = (Ok bs, r') \<longleftrightarrow>
     length bs = n \<and> rx_bytes r = bs @ rx_bytes r' \<and> rx_end r' = rx_end r"
  unfolding read_exact_Ok [symmetric]
  by (auto simp: read_exact_into_def split: prod.splits sum.splits read_exact_error.splits)

lemma write_all_Ok: "write_all s bss = (Ok (), s') \<Longrightarrow> tx_sent s' = tx_sent s @ concat bss"
  by (induction s bss rule: write_all.induct)
    (auto simp: write_bytes_def split: prod.splits sum.splits option.splits if_splits)

lemma write_all_unlimited:
  "tx_limit s = None \<Longrightarrow> write_all s bss = (Ok (), s\<lparr>tx_sent := tx_sent s @ concat bss\<rparr>)"
  by (induction bss arbitrary: s) (auto simp: write_bytes_def)

declare write_all.simps [simp del]

section \<open>The interface of a wire format\<close>

text \<open>
  A reader understands what a writer puts on the wire and leaves what follows. An exact format moreover
  accepts nothing else, so that a message cut short is never taken for another one.
\<close>

locale wire_codec =
  fixes ok :: "'a \<Rightarrow> bool"
    and put :: "'a \<Rightarrow> string"
    and get :: "recv_stream \<Rightarrow> ('e + 'a) \<times> recv_stream"
  assumes get_put: "ok x \<Longrightarrow> rx_bytes r = put x @ rest \<Longrightarrow> get r = (Ok x, r\<lparr>rx_bytes := rest\<rparr>)"
begin

lemma unambiguous:
  assumes "ok x" and "ok y" and "put x @ a = put y @ b"
  shows "x = y \<and> a = b"
proof -
  let ?r = "\<lparr>rx_bytes = put x @ a, rx_end = None\<rparr>"
  have "get ?r = (Ok x, ?r\<lparr>rx_bytes := a\<rparr>)" "get ?r = (Ok y, ?r\<lparr>rx_bytes := b\<rparr>)"
    using get_put [OF assms(1), of ?r a] get_put [OF assms(2), of ?r b] assms(3) by simp_all
  then show ?thesis by simp
qed

text \<open>Messages that follow each other are read one after the other.\<close>

fun get_many :: "nat \<Rightarrow> recv_stream \<Rightarrow> 'a list" where
  "get_many 0 r = []"
| "get_many (Suc n) r = (case get r of (Ok x, r') \<Rightarrow> x # get_many n r' | (Err _, _) \<Rightarrow> [])"

lemma get_many_put:
  "list_all ok xs \<Longrightarrow> rx_bytes r = concat (map put xs) @ rest \<Longrightarrow> get_many (length xs) r = xs"
proof (induction xs arbitrary: r)
  case (Cons x xs)
  then have "get r = (Ok x, r\<lparr>rx_bytes := concat (map put xs) @ rest\<rparr>)"
    using get_put [of x r "concat (map put xs) @ rest"] by simp
  with Cons show ?case by simp
qed simp

end

locale exact_codec = wire_codec ok put get
  for ok :: "'a \<Rightarrow> bool" and put :: "'a \<Rightarrow> string" and get :: "recv_stream \<Rightarrow> ('e + 'a) \<times> recv_stream" +
  assumes get_exact: "get r = (Ok x, r') \<Longrightarrow> ok x \<and> rx_bytes r = put x @ rx_bytes r'"
begin

lemma cut_refused:
  assumes "ok x" and "n < length (put x)"
  shows "\<exists>e r'. get \<lparr>rx_bytes = take n (put x), rx_end = fin\<rparr> = (Err e, r')"
proof (cases "get \<lparr>rx_bytes = take n (put x), rx_end = fin\<rparr>")
  case (Pair res r')
  show ?thesis
  proof (cases res)
    case (Inr y)
    with Pair get_exact have y: "ok y" "take n (put x) = put y @ rx_bytes r'" by fastforce+
    then have "put x @ [] = put y @ (rx_bytes r' @ drop n (put x))"
      by (metis append_assoc append_take_drop_id append_Nil2)
    from unambiguous [OF assms(1) y(1) this] have "drop n (put x) = []" by auto
    with assms(2) show ?thesis by simp
  qed (use Pair in auto)
qed

end

definition request_ok :: "stream_open_request \<Rightarrow> bool" where
  "request_ok q \<longleftrightarrow> length (target_host (open_target q)) \<le> MAX_HOST_LEN \<and> utf8_valid (target_host (open_target q))"

definition request_bytes :: "stream_open_request \<Rightarrow> string" where
  "request_bytes q =
     char_of (as_u8 (open_protocol q)) # u16_be (of_nat (length (target_host (open_target q))))
       @ target_host (open_target q) @ u16_be (target_port (open_target q))"

definition response_ok :: "stream_open_response \<Rightarrow> bool" where
  "response_ok p \<longleftrightarrow>
     (if open_success p then open_error p = None
      else \<exists>m. open_error p = Some m \<and> length m \<le> MAX_ERROR_LEN \<and> utf8_valid m)"

definition response_bytes :: "stream_open_response \<Rightarrow> string" where
  "response_bytes p =
     (if open_success p then [char_of (1 :: nat)]
      else (case open_error p of
              Some m \<Rightarrow> char_of (0 :: nat) # u16_be (of_nat (length m)) @ m
            | None \<Rightarrow> []))"

definition token_ok :: "string \<Rightarrow> bool" where
  "token_ok t \<longleftrightarrow> length t \<le> HANDSHAKE_MAX_TOKEN_LEN \<and> utf8_valid t"

definition token_bytes :: "string \<Rightarrow> string" where
  "token_bytes t = u16_be (of_nat (length t)) @ t"

lemma unat_len: "n \<le> 65535 \<Longrightarrow> unat (of_nat n :: u16) = n"
  by (simp add: unat_of_nat)

lemma unat_word_len: "length bs = unat (w :: u16) \<Longrightarrow> of_nat (length bs) = w"
  by simp

lemma as_u8_inverse: "protocol_try_from v = Some p \<longleftrightarrow> v = as_u8 p"
  by (cases p) (auto simp: protocol_try_from_def)

lemma as_u8_small: "as_u8 p < 256"
  by (cases p) simp_all

text \<open>The reader of requests accepts exactly the bytes of a request.\<close>

lemma read_request_Ok:
  "read_stream_open_request r = (Ok q, r') \<longleftrightarrow>
     request_ok q \<and> rx_bytes r = request_bytes q @ rx_bytes r' \<and> rx_end r' = rx_end r"
  (is "?l \<longleftrightarrow> ?r")
proof
  assume ?l
  then obtain v r1 p len r2 host r3 port where
    steps: "read_u8 r = (Ok v, r1)" "protocol_try_from v = Some p" "read_u16 r1 = (Ok len, r2)"
      "read_exact_into r2 (unat len) = (Ok host, r3)" "utf8_valid host" "read_u16 r3 = (Ok port, r')"
    and q: "q = \<lparr>open_protocol = p, open_target = \<lparr>target_host = host, target_port = port\<rparr>\<rparr>"
    by (auto simp: read_stream_open_request_def split: prod.splits sum.splits option.splits if_splits)
  from steps(4) have "length host = unat len" by (simp add: read_exact_into_Ok)
  with steps q unat_u16_bounds(2) [of len] show ?r
    by (auto simp: read_u8_Ok read_u16_Ok read_exact_into_Ok as_u8_inverse request_ok_def request_bytes_def
        MAX_HOST_LEN_def)
next
  assume ?r
  then have bytes: "rx_bytes r = char_of (as_u8 (open_protocol q))
      # u16_be (of_nat (length (target_host (open_target q)))) @ target_host (open_target q)
      @ u16_be (target_port (open_target q)) @ rx_bytes r'"
    and q: "request_ok q" and e: "rx_end r' = rx_end r"
    by (simp_all add: request_bytes_def)
  define r1 where "r1 = r\<lparr>rx_bytes := u16_be (of_nat (length (target_host (open_target q))))
      @ target_host (open_target q) @ u16_be (target_port (open_target q)) @ rx_bytes r'\<rparr>"
  define r2 where "r2 = r\<lparr>rx_bytes := target_host (open_target q) @ u16_be (target_port (open_target q)) @ rx_bytes r'\<rparr>"
  define r3 where "r3 = r\<lparr>rx_bytes := u16_be (target_port (open_target q)) @ rx_bytes r'\<rparr>"
  have len: "unat (of_nat (length (target_host (open_target q))) :: u16) = length (target_host (open_target q))"
    using q by (intro unat_len) (simp add: request_ok_def MAX_HOST_LEN_def)
  have "read_u8 r = (Ok (as_u8 (open_protocol q)), r1)"
    unfolding read_u8_Ok by (simp add: bytes r1_def as_u8_small)
  moreover have "read_u16 r1 = (Ok (of_nat (length (target_host (open_target q)))), r2)"
    unfolding read_u16_Ok by (simp add: r1_def r2_def)
  moreover have "read_exact_into r2 (length (target_host (open_target q))) = (Ok (target_host (open_target q)), r3)"
    unfolding read_exact_into_Ok by (simp add: r2_def r3_def)
  moreover have "read_u16 r3 = (Ok (target_port (open_target q)), r')"
    unfolding read_u16_Ok by (simp add: r3_def e)
  moreover have "protocol_try_from (as_u8 (open_protocol q)) = Some (open_protocol q)"
    by (simp add: as_u8_inverse)
  ultimately show ?l
    using q len by (simp add: read_stream_open_request_def request_ok_def)
qed

lemma read_token_Ok:
  "read_token r = (Ok t, r') \<longleftrightarrow> token_ok t \<and> rx_bytes r = token_bytes t @ rx_bytes r' \<and> rx_end r' = rx_end r"
  (is "?l \<longleftrightarrow> ?r")
proof
  assume ?l
  then obtain len r1 where steps: "read_u16 r = (Ok len, r1)" "read_exact r1 (unat len) = (Ok t, r')" "utf8_valid t"
    by (auto simp: read_token_def split: prod.splits sum.splits read_exact_error.splits if_splits)
  then show ?r
    using unat_u16_bounds(2) [of len]
    by (auto simp: read_u16_Ok read_exact_Ok token_ok_def token_bytes_def HANDSHAKE_MAX_TOKEN_LEN_def)
next
  assume ?r
  then have "read_u16 r = (Ok (of_nat (length t)), r\<lparr>rx_bytes := t @ rx_bytes r'\<rparr>)"
    "read_exact (r\<lparr>rx_bytes := t @ rx_bytes r'\<rparr>) (length t) = (Ok t, r')"
    unfolding read_u16_Ok read_exact_Ok by (simp_all add: token_bytes_def)
  moreover have "unat (of_nat (length t) :: u16) = length t" "utf8_valid t"
    using \<open>?r\<close> by (auto intro!: unat_len simp: token_ok_def HANDSHAKE_MAX_TOKEN_LEN_def)
  ultimately show ?l
    by (simp add: read_token_def)
qed

lemma read_response_put:
  assumes "response_ok p" and "rx_bytes r = response_bytes p @ rest"
  shows "read_stream_open_response r = (Ok p, r\<lparr>rx_bytes := rest\<rparr>)"
proof (cases "open_success p")
  case True
  with assms have "read_u8 r = (Ok 1, r\<lparr>rx_bytes := rest\<rparr>)"
    unfolding read_u8_Ok by (simp add: response_bytes_def)
  with True assms(1) show ?thesis
    by (cases p) (simp add: read_stream_open_response_def response_ok_def)
next
  case False
  then obtain m where m: "open_error p = Some m" "length m \<le> 65535" "utf8_valid m"
    using assms(1) by (auto simp: response_ok_def MAX_ERROR_LEN_def)
  with False assms(2) have "read_u8 r = (Ok 0, r\<lparr>rx_bytes := u16_be (of_nat (length m)) @ m @ rest\<rparr>)"
    unfolding read_u8_Ok by (simp add: response_bytes_def)
  moreover have "read_u16 (r\<lparr>rx_bytes := u16_be (of_nat (length m)) @ m @ rest\<rparr>)
      = (Ok (of_nat (length m)), r\<lparr>rx_bytes := m @ rest\<rparr>)"
    unfolding read_u16_Ok by simp
  moreover have "read_exact_into (r\<lparr>rx_bytes := m @ rest\<rparr>) (length m) = (Ok m, r\<lparr>rx_bytes := rest\<rparr>)"
    unfolding read_exact_into_Ok by simp
  ultimately show ?thesis
    using False m unat_len [of "length m"]
    by (cases p) (simp add: read_stream_open_response_def MAX_ERROR_LEN_def)
qed

interpretation open_request: exact_codec request_ok request_bytes read_stream_open_request
  by unfold_locales (simp_all add: read_request_Ok)

interpretation token: exact_codec token_ok token_bytes read_token
  by unfold_locales (simp_all add: read_token_Ok)

interpretation open_response: wire_codec response_ok response_bytes read_stream_open_response
  by unfold_locales (rule read_response_put)

section \<open>Properties\<close>

lemma write_request_bytes:
  assumes "write_stream_open_request s proto target = (Ok (), s')"
  shows "length (target_host target) \<le> MAX_HOST_LEN"
    and "tx_sent s' = tx_sent s @ request_bytes \<lparr>open_protocol = proto, open_target = target\<rparr>"
proof -
  show len: "length (target_host target) \<le> MAX_HOST_LEN"
    using assms by (auto simp: write_stream_open_request_def Let_def split: if_splits)
  with assms have "write_all s [[char_of (as_u8 proto)], u16_be (of_nat (length (target_host target))),
      target_host target, u16_be (target_port target)] = (Ok (), s')"
    by (simp add: write_stream_open_request_def Let_def)
  from write_all_Ok [OF this]
  show "tx_sent s' = tx_sent s @ request_bytes \<lparr>open_protocol = proto, open_target = target\<rparr>"
    by (simp add: request_bytes_def)
qed

text \<open>
  A stream request that was written without an error is read back as the same protocol, host and
  port, the bytes that follow it are left to the stream, and no part of it that is cut short is taken
  for a request.
\<close>

theorem open_request_roundtrip:
  assumes "write_stream_open_request s proto target = (Ok (), s')" and "utf8_valid (target_host target)"
  shows "\<exists>w. tx_sent s' = tx_sent s @ w
    \<and> read_stream_open_request \<lparr>rx_bytes = w @ rest, rx_end = fin\<rparr>
        = (Ok \<lparr>open_protocol = proto, open_target = target\<rparr>, \<lparr>rx_bytes = rest, rx_end = fin\<rparr>)
    \<and> (\<forall>n < length w. \<exists>e r'. read_stream_open_request \<lparr>rx_bytes = take n w, rx_end = fin\<rparr> = (Err e, r'))"
proof -
  let ?q = "\<lparr>open_protocol = proto, open_target = target\<rparr>"
  have "request_ok ?q"
    using write_request_bytes(1) [OF assms(1)] assms(2) by (simp add: request_ok_def)
  with open_request.get_put [of ?q] open_request.cut_refused [of ?q] write_request_bytes(2) [OF assms(1)]
  show ?thesis
    by (intro exI [of _ "request_bytes ?q"]) simp
qed

text \<open>
  A credential that was written without an error is read back unchanged, a truncated one is
  refused, and two credentials are never confused on the wire.
\<close>

theorem token_roundtrip:
  assumes "write_token s t = (Ok (), s')" and "utf8_valid t"
  shows "\<exists>w. tx_sent s' = tx_sent s @ w
    \<and> read_token \<lparr>rx_bytes = w @ rest, rx_end = fin\<rparr> = (Ok t, \<lparr>rx_bytes = rest, rx_end = fin\<rparr>)
    \<and> (\<forall>n < length w. \<exists>e r'. read_token \<lparr>rx_bytes = take n w, rx_end = fin\<rparr> = (Err e, r'))"
proof -
  have "length t \<le> HANDSHAKE_MAX_TOKEN_LEN"
    using assms(1) by (auto simp: write_token_def split: if_splits)
  then have t: "token_ok t" and "write_all s [u16_be (of_nat (length t)), t] = (Ok (), s')"
    using assms by (auto simp: token_ok_def write_token_def map_err_def apfst_def map_prod_def
        split: prod.splits sum.splits)
  from write_all_Ok [OF this(2)] have "tx_sent s' = tx_sent s @ token_bytes t"
    by (simp add: token_bytes_def)
  with token.get_put [OF t] token.cut_refused [OF t] show ?thesis
    by (intro exI [of _ "token_bytes t"]) simp
qed

text \<open>The reason a refusal arrives with: cut at the limit, and replaced if the cut breaks a character.\<close>

definition delivered_reason :: "string \<Rightarrow> string" where
  "delivered_reason m =
     (let cut = take MAX_ERROR_LEN m in if utf8_valid cut then cut else ''remote open failed'')"

lemma read_refusal:
  assumes "rx_bytes r = char_of (0 :: nat) # u16_be (of_nat (length m)) @ m @ rest" and "length m \<le> 65535"
  shows "read_stream_open_response r
    = (Ok \<lparr>open_success = False, open_error = Some (if utf8_valid m then m else ''remote open failed'')\<rparr>,
       r\<lparr>rx_bytes := rest\<rparr>)"
proof -
  have "read_u8 r = (Ok 0, r\<lparr>rx_bytes := u16_be (of_nat (length m)) @ m @ rest\<rparr>)"
    unfolding read_u8_Ok using assms(1) by simp
  moreover have "read_u16 (r\<lparr>rx_bytes := u16_be (of_nat (length m)) @ m @ rest\<rparr>)
      = (Ok (of_nat (length m)), r\<lparr>rx_bytes := m @ rest\<rparr>)"
    unfolding read_u16_Ok by simp
  moreover have "read_exact_into (r\<lparr>rx_bytes := m @ rest\<rparr>) (length m) = (Ok m, r\<lparr>rx_bytes := rest\<rparr>)"
    unfolding read_exact_into_Ok by simp
  ultimately show ?thesis
    using unat_len [of "length m"] assms(2) by (simp add: read_stream_open_response_def MAX_ERROR_LEN_def)
qed

lemma write_response_unlimited:
  assumes "tx_limit s = None"
  shows "write_stream_open_response s True e = (Ok (), s\<lparr>tx_sent := tx_sent s @ [char_of (1 :: nat)]\<rparr>)"
    and "write_stream_open_response s False (Some m) = (Ok (), s\<lparr>tx_sent := tx_sent s
      @ char_of (0 :: nat) # u16_be (of_nat (length (take MAX_ERROR_LEN m))) @ take MAX_ERROR_LEN m\<rparr>)"
proof -
  have "take (min (length m) MAX_ERROR_LEN) m = take MAX_ERROR_LEN m"
    by (cases "length m \<le> MAX_ERROR_LEN") (simp_all add: min_def)
  then show "write_stream_open_response s False (Some m) = (Ok (), s\<lparr>tx_sent := tx_sent s
      @ char_of (0 :: nat) # u16_be (of_nat (length (take MAX_ERROR_LEN m))) @ take MAX_ERROR_LEN m\<rparr>)"
    using assms by (simp add: write_stream_open_response_def write_all_unlimited Let_def)
qed (use assms in \<open>simp add: write_stream_open_response_def write_all_unlimited\<close>)

text \<open>
  C13: Both ends of a stream opening agree: the server connects to exactly the host and port the client
  asked for; the client's call succeeds if and only if that connection succeeded, and then the bytes
  the client sends next are the first the target gets; otherwise the client's call fails with the
  server's reason, as far as it fits the message.
\<close>

theorem tunnel_open_agrees:
  assumes "tx_sent s = []" and "tx_limit s = None" and "tx_sent s0 = []" and "tx_limit s0 = None"
    and "length (target_host target) \<le> MAX_HOST_LEN" and "utf8_valid (target_host target)"
    and "server = (\<lambda>w. handle_stream connector s0 \<lparr>rx_bytes = w @ early_data, rx_end = None\<rparr>)"
    and "peer = (\<lambda>w. \<lparr>rx_bytes = tx_sent (fst (snd (server w))), rx_end = None\<rparr>)"
    and "sent = tx_sent (snd (write_stream_open_request s ProtoTcp target))"
  shows "case connector target of
      Ok _ \<Rightarrow> connect_with_protocol (Ok s) peer ProtoTcp target = Ok \<lparr>rx_bytes = [], rx_end = None\<rparr>
        \<and> fst (server sent) = Piping \<and> rx_bytes (snd (snd (server sent))) = early_data
    | Err err \<Rightarrow>
        connect_with_protocol (Ok s) peer ProtoTcp target
          = Err (Remote (delivered_reason (tunnel_error_display err)))
        \<and> fst (server sent) = StreamFailed err"
proof -
  let ?q = "\<lparr>open_protocol = ProtoTcp, open_target = target\<rparr>"
  have q: "request_ok ?q" using assms(5,6) by (simp add: request_ok_def)
  have w: "write_stream_open_request s ProtoTcp target = (Ok (), s\<lparr>tx_sent := request_bytes ?q\<rparr>)"
    using assms(1,2,5) by (simp add: write_stream_open_request_def write_all_unlimited request_bytes_def Let_def)
  then have sent: "sent = request_bytes ?q" by (simp add: assms(9))
  have read: "read_stream_open_request \<lparr>rx_bytes = request_bytes ?q @ early_data, rx_end = None\<rparr>
      = (Ok ?q, \<lparr>rx_bytes = early_data, rx_end = None\<rparr>)"
    using open_request.get_put [OF q] by simp
  show ?thesis
  proof (cases "connector target")
    case (Inr u)
    then have srv: "server sent = (Piping, s0\<lparr>tx_sent := [char_of (1 :: nat)]\<rparr>, \<lparr>rx_bytes = early_data, rx_end = None\<rparr>)"
      using assms(3,4) by (simp add: assms(7) sent handle_stream_def read write_response_unlimited)
    moreover have "read_stream_open_response \<lparr>rx_bytes = [char_of (1 :: nat)], rx_end = None\<rparr>
        = (Ok \<lparr>open_success = True, open_error = None\<rparr>, \<lparr>rx_bytes = [], rx_end = None\<rparr>)"
      by (simp add: read_stream_open_response_def read_u8_def)
    ultimately show ?thesis
      using Inr sent by (simp add: connect_with_protocol_def w assms(8))
  next
    case (Inl err)
    let ?m = "take MAX_ERROR_LEN (tunnel_error_display err)"
    have srv: "server sent = (StreamFailed err,
        s0\<lparr>tx_sent := char_of (0 :: nat) # u16_be (of_nat (length ?m)) @ ?m\<rparr>, \<lparr>rx_bytes = early_data, rx_end = None\<rparr>)"
      using assms(3,4) Inl by (simp add: assms(7) sent handle_stream_def read write_response_unlimited)
    moreover have "read_stream_open_response \<lparr>rx_bytes = char_of (0 :: nat) # u16_be (of_nat (length ?m)) @ ?m, rx_end = None\<rparr>
        = (Ok \<lparr>open_success = False, open_error = Some (delivered_reason (tunnel_error_display err))\<rparr>,
           \<lparr>rx_bytes = [], rx_end = None\<rparr>)"
      by (subst read_refusal [of _ ?m "[]"]) (simp_all add: delivered_reason_def MAX_ERROR_LEN_def)
    ultimately show ?thesis
      using Inl sent by (simp add: connect_with_protocol_def w assms(8))
  qed
qed

text \<open>
  The error \<^verbatim>\<open>ConnectionClosed\<close> is rare: opening a stream fails with it exactly when the request was
  sent and the peer began a refusal and finished the stream inside its message. A stream that cannot
  be opened, a connection lost while waiting, and a stream finished before the first byte of the
  response are all reported as transport errors.
\<close>

theorem connect_closed_iff:
  "connect_with_protocol bi peer proto target = Err ConnectionClosed \<longleftrightarrow>
     (\<exists>s s' a b m. bi = Ok s \<and> write_stream_open_request s proto target = (Ok (), s')
        \<and> rx_bytes (peer (tx_sent s')) = char_of (0 :: nat) # a # b # m
        \<and> length m < unat (be_u16 a b) \<and> rx_end (peer (tx_sent s')) = None)"
proof -
  have not_large: "\<not> 65535 < unat (w :: u16)" for w
    using unat_u16_bounds(2) [of w] by linarith
  have read: "fst (read_stream_open_response r) = Err ConnectionClosed \<longleftrightarrow>
      (\<exists>a b m. rx_bytes r = char_of (0 :: nat) # a # b # m \<and> length m < unat (be_u16 a b) \<and> rx_end r = None)" for r
  proof (cases "rx_bytes r")
    case (Cons v rest)
    show ?thesis
    proof (cases "v = char_of (0 :: nat)")
      case True
      then show ?thesis
        using Cons
        by (cases rest rule: remdups_adj.cases)
          (auto simp: read_stream_open_response_def read_u8_def read_u16_def read_exact_into_def read_exact_def
            MAX_ERROR_LEN_def linorder_not_le not_large split: option.splits)
    next
      case False
      then have "of_char v \<noteq> (0 :: nat)" by (metis char_of_char)
      with False Cons show ?thesis
        by (simp add: read_stream_open_response_def read_u8_def)
    qed
  qed (simp add: read_stream_open_response_def read_u8_def)
  have no_write: "write_stream_open_request s proto target \<noteq> (Err ConnectionClosed, s')" for s s'
  proof -
    have "write_all s bss \<noteq> (Err ConnectionClosed, s')" for bss s
      by (induction s bss rule: write_all.induct) (auto simp: write_all.simps split: prod.splits sum.splits)
    then show ?thesis by (simp add: write_stream_open_request_def Let_def)
  qed
  show ?thesis
  proof (cases bi)
    case (Inr s)
    show ?thesis
    proof (cases "write_stream_open_request s proto target")
      case (Pair res s')
      show ?thesis
      proof (cases res)
        case (Inl e)
        with Pair Inr no_write show ?thesis by (auto simp: connect_with_protocol_def)
      next
        case ok: (Inr u)
        have "connect_with_protocol bi peer proto target = Err ConnectionClosed
            \<longleftrightarrow> fst (read_stream_open_response (peer (tx_sent s'))) = Err ConnectionClosed"
          by (auto simp: connect_with_protocol_def Inr Pair ok split: prod.splits sum.splits)
        with read show ?thesis using Inr Pair ok by simp
      qed
    qed
  qed (simp add: connect_with_protocol_def)
qed

section \<open>Witnesses\<close>

definition ex_send :: send_stream where
  "ex_send = \<lparr>tx_sent = [], tx_limit = None, tx_error = EOF_ERROR\<rparr>"

definition ex_tunnel_target :: tunnel_target where
  "ex_tunnel_target = \<lparr>target_host = ''db'', target_port = 5432\<rparr>"

lemma ex_host_valid: "utf8_valid (target_host ex_tunnel_target)" "length (target_host ex_tunnel_target) \<le> MAX_HOST_LEN"
proof -
  have "is_ascii ''db''" by code_simp
  then show "utf8_valid (target_host ex_tunnel_target)"
    by (simp add: ex_tunnel_target_def is_ascii_utf8_valid)
qed (simp add: ex_tunnel_target_def MAX_HOST_LEN_def)

theorem open_request_roundtrip_witness:
  "\<exists>w. read_stream_open_request \<lparr>rx_bytes = w @ ''GET'', rx_end = None\<rparr>
    = (Ok \<lparr>open_protocol = ProtoTcp, open_target = ex_tunnel_target\<rparr>, \<lparr>rx_bytes = ''GET'', rx_end = None\<rparr>)"
proof -
  have "fst (write_stream_open_request ex_send ProtoTcp ex_tunnel_target) = Ok ()"
    using ex_host_valid(2) by (simp add: write_stream_open_request_def write_all_unlimited ex_send_def Let_def)
  then obtain s' where w: "write_stream_open_request ex_send ProtoTcp ex_tunnel_target = (Ok (), s')"
    by (metis prod.collapse)
  from open_request_roundtrip [OF w ex_host_valid(1), of "''GET''" None] show ?thesis by blast
qed

theorem token_roundtrip_witness:
  "\<exists>w. read_token \<lparr>rx_bytes = w @ [], rx_end = None\<rparr> = (Ok ''secret'', \<lparr>rx_bytes = [], rx_end = None\<rparr>)"
proof -
  have "is_ascii ''secret''" by code_simp
  then have "utf8_valid ''secret''" by (rule is_ascii_utf8_valid)
  moreover have "fst (write_token ex_send ''secret'') = Ok ()"
    by (simp add: write_token_def HANDSHAKE_MAX_TOKEN_LEN_def write_all_unlimited ex_send_def map_err_def)
  then obtain s' where w: "write_token ex_send ''secret'' = (Ok (), s')"
    by (metis prod.collapse)
  ultimately show ?thesis
    using token_roundtrip [OF w, of "[]" None] by blast
qed

theorem tunnel_open_agrees_witness:
  "connect_with_protocol (Ok ex_send)
     (\<lambda>w. \<lparr>rx_bytes = tx_sent (fst (snd (handle_stream (\<lambda>_. Ok ()) ex_send \<lparr>rx_bytes = w @ ''hi'', rx_end = None\<rparr>))),
           rx_end = None\<rparr>) ProtoTcp ex_tunnel_target = Ok \<lparr>rx_bytes = [], rx_end = None\<rparr>"
proof -
  have s: "tx_sent ex_send = []" "tx_limit ex_send = None" by (simp_all add: ex_send_def)
  show ?thesis
    using tunnel_open_agrees [OF s s ex_host_valid(2,1) refl refl refl, of "\<lambda>_. Ok ()" "''hi''"] by simp
qed

theorem connect_closed_iff_witness:
  "connect_with_protocol (Ok ex_send)
     (\<lambda>_. \<lparr>rx_bytes = [char_of (0 :: nat), char_of (0 :: nat), char_of (5 :: nat), CHR ''x''], rx_end = None\<rparr>)
     ProtoTcp ex_tunnel_target = Err ConnectionClosed"
proof -
  have "fst (write_stream_open_request ex_send ProtoTcp ex_tunnel_target) = Ok ()"
    using ex_host_valid(2) by (simp add: write_stream_open_request_def write_all_unlimited ex_send_def Let_def)
  then obtain s' where "write_stream_open_request ex_send ProtoTcp ex_tunnel_target = (Ok (), s')"
    by (metis prod.collapse)
  moreover have "unat (be_u16 (char_of (0 :: nat)) (char_of (5 :: nat))) = 5"
    by (simp add: be_u16_def)
  ultimately show ?thesis
    unfolding connect_closed_iff by auto
qed

end
