(* ===== verification/Preview_Proxy.thy ===== *)
theory Preview_Proxy
  imports Http_Parser Otel_Routing Preview_Url Tunnel_Message
begin

text \<open>
  \<^verbatim>\<open>crates/kube/src/http_proxy.rs\<close>: the server behind preview URLs. It reads a request, resolves the
  subdomain of its \<^verbatim>\<open>Host\<close> header, checks that the caller may see the preview, writes the environment
  id into the \<^verbatim>\<open>tracestate\<close> header, and proxies the connection to the cluster.

  Parameters of the model: \<^verbatim>\<open>httparse\<close>, the decryption of the session token (\<^verbatim>\<open>pasetors\<close>), parsing and
  printing of UUIDs, and the outcome of the byte copying through the tunnel. The wording of error
  pages is left out; their status codes are kept.
\<close>

section \<open>Errors\<close>

datatype proxy_error =
    InvalidUrl | NotFound | Forbidden | TunnelNotAvailable | ProxyTimeout | NetworkError | InternalError

fun proxy_error_status :: "proxy_error \<Rightarrow> nat" where
  "proxy_error_status Forbidden = 403"
| "proxy_error_status NotFound = 404"
| "proxy_error_status TunnelNotAvailable = 503"
| "proxy_error_status ProxyTimeout = 504"
| "proxy_error_status InvalidUrl = 400"
| "proxy_error_status NetworkError = 502"
| "proxy_error_status InternalError = 500"

fun map_tunnel_connect_error :: "tunnel_error \<Rightarrow> proxy_error" where
  "map_tunnel_connect_error (Remote reason) = ProxyTimeout"
| "map_tunnel_connect_error (Transport io_err) =
     (if kind io_err \<in> {ConnectionRefused, ConnectionAborted, ConnectionReset, io_kind.TimedOut, NotConnected}
      then ProxyTimeout else NetworkError)"
| "map_tunnel_connect_error ConnectionClosed = NetworkError"

fun map_tunnel_runtime_error :: "tunnel_error option \<Rightarrow> proxy_error" where
  "map_tunnel_runtime_error (Some (Remote reason)) = ProxyTimeout"
| "map_tunnel_runtime_error (Some ConnectionClosed) = TunnelNotAvailable"
| "map_tunnel_runtime_error (Some (Transport inner)) = NetworkError"
| "map_tunnel_runtime_error None = NetworkError"

section \<open>Resolution and authorization\<close>

fun resolve_error :: "preview_url_error \<Rightarrow> proxy_error" where
  "resolve_error EnvironmentNotFound = NotFound"
| "resolve_error ServiceNotFound = NotFound"
| "resolve_error PreviewUrlNotConfigured = NotFound"
| "resolve_error AccessDenied = Forbidden"
| "resolve_error _ = InternalError"

text \<open>The access time is recorded when the target was found; a failure to do so is only logged.\<close>

definition resolve_preview_url_target ::
    "kube_db \<Rightarrow> nat \<Rightarrow> string \<Rightarrow> (proxy_error + preview_url_target) \<times> kube_db" where
  "resolve_preview_url_target db now subdomain =
     (case parse_preview_url subdomain of
        Inl e \<Rightarrow> (Err InvalidUrl, db)
      | Inr url_info \<Rightarrow>
          (case resolve_preview_url db url_info of
             Inl e \<Rightarrow> (Err (resolve_error e), db)
           | Inr target \<Rightarrow>
               (Ok target,
                case db_update_preview_url_access db (preview_url_id target) now of
                  Inl _ \<Rightarrow> db | Inr db' \<Rightarrow> db')))"

definition LAPDEV_AUTH_TOKEN_COOKIE :: string where
  "LAPDEV_AUTH_TOKEN_COOKIE = ''lapdev_auth_token''"

definition strip_prefix :: "string \<Rightarrow> string \<Rightarrow> string option" where
  "strip_prefix s p = (if starts_with s p then Some (drop (length p) s) else None)"

definition extract_cookie_value :: "header_list \<Rightarrow> string \<Rightarrow> string option" where
  "extract_cookie_value hs cookie_name =
     find_map (\<lambda>cookie. strip_prefix (trim cookie) (cookie_name @ ''=''))
       (concat (map (\<lambda>(_, value). split_on (CHR '';'') value)
          (filter (\<lambda>(name, _). eq_ignore_ascii_case name ''cookie'') hs)))"

datatype json_value = JString string | JOther

type_synonym token_key = "string \<Rightarrow> (string \<rightharpoonup> json_value) option"

definition user_id_from_token ::
    "token_key \<Rightarrow> (string \<Rightarrow> uuid option) \<Rightarrow> string \<Rightarrow> proxy_error + uuid" where
  "user_id_from_token decrypt parse_uuid token =
     and_then (ok_or Forbidden (decrypt token)) (\<lambda>claims.
     and_then (ok_or Forbidden (claims ''user_id'')) (\<lambda>value.
     case value of
       JString user_id \<Rightarrow> ok_or Forbidden (parse_uuid user_id)
     | JOther \<Rightarrow> Err Forbidden))"

definition ensure_org_membership :: "kube_db \<Rightarrow> uuid \<Rightarrow> uuid \<Rightarrow> proxy_error + unit" where
  "ensure_org_membership db user_id org_id =
     (case get_organization_member db user_id org_id of Some _ \<Rightarrow> Ok () | None \<Rightarrow> Err Forbidden)"

definition authorize_request ::
    "token_key \<Rightarrow> (string \<Rightarrow> uuid option) \<Rightarrow> kube_db \<Rightarrow> parsed_http_request \<Rightarrow> preview_url_target
     \<Rightarrow> proxy_error + unit" where
  "authorize_request decrypt parse_uuid db request target =
     (case target_access_level target of
        Public \<Rightarrow> Ok ()
      | Organization \<Rightarrow>
          and_then (ok_or Forbidden (extract_cookie_value (http_headers request) LAPDEV_AUTH_TOKEN_COOKIE)) (\<lambda>token.
          and_then (user_id_from_token decrypt parse_uuid token) (\<lambda>user_id.
          ensure_org_membership db user_id (organization_id target))))"

section \<open>Rewriting the request head\<close>

definition CRLF :: string where "CRLF = [CR, LF]"

definition contains_str :: "string \<Rightarrow> string \<Rightarrow> bool" where
  "contains_str s p = list_ex (\<lambda>w. w = p) (windows (length p) s)"

record rewrite_state =
  modified_headers :: string
  tracestate_added :: bool
  connection_header_written :: bool
  is_upgrade_request :: bool

definition rewrite_line :: "string \<Rightarrow> string \<Rightarrow> rewrite_state \<Rightarrow> rewrite_state" where
  "rewrite_line env_ts line st =
     (let lower = to_lowercase line; out = modified_headers st in
      if starts_with lower ''tracestate:'' then
        (let existing_value = trim (drop 11 line)
         in st\<lparr>modified_headers := out @
                 (if existing_value = [] then ''tracestate: '' @ env_ts @ CRLF
                  else ''tracestate: '' @ existing_value @ '','' @ env_ts @ CRLF),
               tracestate_added := True\<rparr>)
      else if starts_with lower ''connection:'' then
        (let st = st\<lparr>connection_header_written := True\<rparr>
         in if contains_str lower ''upgrade''
            then st\<lparr>is_upgrade_request := True, modified_headers := out @ line @ CRLF\<rparr>
            else st\<lparr>modified_headers := out @ ''connection: close'' @ CRLF\<rparr>)
      else if starts_with lower ''upgrade:'' then
        st\<lparr>is_upgrade_request := True, modified_headers := out @ line @ CRLF\<rparr>
      else if line = [] then
        (let st1 = (if tracestate_added st then st
                    else st\<lparr>modified_headers := modified_headers st @ ''tracestate: '' @ env_ts @ CRLF,
                            tracestate_added := True\<rparr>);
             st2 = (if \<not> connection_header_written st1 \<and> \<not> is_upgrade_request st1
                    then st1\<lparr>modified_headers := modified_headers st1 @ ''connection: close'' @ CRLF,
                             connection_header_written := True\<rparr>
                    else st1)
         in st2\<lparr>modified_headers := modified_headers st2 @ CRLF\<rparr>)
      else st\<lparr>modified_headers := out @ line @ CRLF\<rparr>)"

text \<open>\<open>None\<close> is the panic of slicing the request past its end.\<close>

definition add_environment_id_to_headers ::
    "(uuid \<Rightarrow> string) \<Rightarrow> string \<Rightarrow> nat \<Rightarrow> uuid \<Rightarrow> (proxy_error + string) option" where
  "add_environment_id_to_headers show_uuid request_data headers_len env =
     (if headers_len > length request_data then None
      else
        (let headers_part = take headers_len request_data; body_part = drop headers_len request_data in
         if \<not> utf8_valid headers_part then Some (Err InternalError)
         else
           (let env_ts = ''lapdev-env-id='' @ show_uuid env;
                st = fold (rewrite_line env_ts) (lines headers_part)
                  \<lparr>modified_headers = [], tracestate_added = False,
                   connection_header_written = False, is_upgrade_request = False\<rparr>;
                out = modified_headers st;
                out = (if tracestate_added st then out else out @ ''tracestate: '' @ env_ts @ CRLF);
                out = (if \<not> connection_header_written st \<and> \<not> is_upgrade_request st
                       then out @ ''connection: close'' @ CRLF else out)
            in Some (Ok (out @ body_part)))))"

section \<open>One connection\<close>

datatype outcome =
    ErrorPage nat
  | Proxied preview_url_target string
  | Failed proxy_error
  | Panic

text \<open>
  The whole handler. \<open>tunnel\<close> is the outcome of proxying: connecting through the cluster's tunnel,
  sending the initial data and copying bytes both ways.
\<close>

definition handle_client_connection ::
    "httparse \<Rightarrow> token_key \<Rightarrow> (string \<Rightarrow> uuid option) \<Rightarrow> (uuid \<Rightarrow> string)
     \<Rightarrow> (preview_url_target \<Rightarrow> string \<Rightarrow> proxy_error + unit) \<Rightarrow> kube_db \<Rightarrow> nat \<Rightarrow> reader
     \<Rightarrow> outcome \<times> kube_db" where
  "handle_client_connection parse decrypt parse_uuid show_uuid tunnel db now stream =
     (case read_http_headers stream [] of
        (Inl e, _, _) \<Rightarrow>
          (ErrorPage (if kind e = InvalidData \<and> contains_str (io_message e) ''exceed maximum size''
                      then 413 else 400), db)
      | (Inr (), buffer, _) \<Rightarrow>
          (case parse_http_request_from_buffer parse buffer of
             Inl _ \<Rightarrow> (ErrorPage 400, db)
           | Inr (request, headers_len) \<Rightarrow>
               (case get_host_header (http_headers request) of
                  None \<Rightarrow> (Failed InvalidUrl, db)
                | Some host \<Rightarrow>
                    (let subdomain = hd (split_on (CHR ''.'') host) in
                     case resolve_preview_url_target db now subdomain of
                       (Inl err, db') \<Rightarrow> (ErrorPage (proxy_error_status err), db')
                     | (Inr target, db') \<Rightarrow>
                         (case authorize_request decrypt parse_uuid db' request target of
                            Inl err \<Rightarrow> (ErrorPage (proxy_error_status err), db')
                          | Inr () \<Rightarrow>
                              (case add_environment_id_to_headers show_uuid buffer headers_len
                                      (environment_id target) of
                                 None \<Rightarrow> (Panic, db')
                               | Some (Inl err) \<Rightarrow> (Failed err, db')
                               | Some (Inr data) \<Rightarrow>
                                   (case tunnel target data of
                                      Inr () \<Rightarrow> (Proxied target data, db')
                                    | Inl err \<Rightarrow> (ErrorPage (proxy_error_status err), db'))))))))"


section \<open>The rewritten head as a list of lines\<close>

text \<open>A request head is its lines, each ended by \<open>CRLF\<close>, and a blank line.\<close>

definition render_head :: "string list \<Rightarrow> string" where
  "render_head ls = concat (map (\<lambda>l. l @ CRLF) ls) @ CRLF"

definition head_lines_ok :: "string list \<Rightarrow> bool" where
  "head_lines_ok ls = list_all (\<lambda>l. l \<noteq> [] \<and> LF \<notin> set l) ls"

definition is_ts :: "string \<Rightarrow> bool" where
  "is_ts l = starts_with (to_lowercase l) ''tracestate:''"

definition is_conn :: "string \<Rightarrow> bool" where
  "is_conn l = (\<not> is_ts l \<and> starts_with (to_lowercase l) ''connection:'')"

definition is_upg :: "string \<Rightarrow> bool" where
  "is_upg l = (\<not> is_ts l \<and> (if is_conn l then contains_str (to_lowercase l) ''upgrade''
                            else starts_with (to_lowercase l) ''upgrade:''))"

definition out_line :: "string \<Rightarrow> string \<Rightarrow> string" where
  "out_line env_ts l =
     (if is_ts l then
        (let v = trim (drop 11 l)
         in if v = [] then ''tracestate: '' @ env_ts else ''tracestate: '' @ v @ '','' @ env_ts)
      else if is_conn l \<and> \<not> is_upg l then ''connection: close'' else l)"

definition rewritten :: "string \<Rightarrow> string list \<Rightarrow> string list" where
  "rewritten env_ts ls =
     map (out_line env_ts) ls
     @ (if list_ex is_ts ls then [] else [''tracestate: '' @ env_ts])
     @ (if list_ex is_conn ls \<or> list_ex is_upg ls then [] else [''connection: close''])"

lemma lines_render_head:
  assumes "head_lines_ok ls"
  shows "lines (render_head ls) = ls @ [[]]"
proof -
  have "CR \<noteq> LF" by (simp add: CR_def LF_def)
  have split: "split_on LF (render_head ls) = map (\<lambda>l. l @ [CR]) ls @ [[CR], []]"
    using assms
  proof (induction ls)
    case Nil
    with \<open>CR \<noteq> LF\<close> show ?case by (simp add: render_head_def CRLF_def)
  next
    case (Cons l ls)
    then have "LF \<notin> set (l @ [CR])" using \<open>CR \<noteq> LF\<close> by (simp add: head_lines_ok_def)
    from split_on_append_sep [OF this, of "render_head ls"] Cons show ?case
      by (simp add: render_head_def CRLF_def head_lines_ok_def)
  qed
  have "map strip_cr (butlast (map (\<lambda>l. l @ [CR]) ls @ [[CR], []])) = ls @ [[]]"
    by (simp add: butlast_append strip_cr_def comp_def)
  with split show ?thesis
    by (simp add: lines_def)
qed

lemma rewrite_line_step:
  assumes "l \<noteq> []"
  shows "rewrite_line env_ts l st =
    \<lparr>modified_headers = modified_headers st @ out_line env_ts l @ CRLF,
     tracestate_added = (tracestate_added st \<or> is_ts l),
     connection_header_written = (connection_header_written st \<or> is_conn l),
     is_upgrade_request = (is_upgrade_request st \<or> is_upg l)\<rparr>"
  using assms by (cases st) (auto simp: rewrite_line_def out_line_def is_ts_def is_conn_def is_upg_def Let_def)

lemma rewrite_lines:
  "head_lines_ok ls \<Longrightarrow> fold (rewrite_line env_ts) ls st =
    \<lparr>modified_headers = modified_headers st @ concat (map (\<lambda>l. out_line env_ts l @ CRLF) ls),
     tracestate_added = (tracestate_added st \<or> list_ex is_ts ls),
     connection_header_written = (connection_header_written st \<or> list_ex is_conn ls),
     is_upgrade_request = (is_upgrade_request st \<or> list_ex is_upg ls)\<rparr>"
  by (induction ls arbitrary: st) (auto simp: head_lines_ok_def rewrite_line_step)

text \<open>
  The one-pass rewriting of a request head is the declarative one: on a head made of non-empty
  lines, the result is the same head with every \<^verbatim>\<open>tracestate\<close> line extended by the environment id, every
  \<^verbatim>\<open>connection\<close> line that does not ask for an upgrade replaced by \<^verbatim>\<open>connection: close\<close>, a \<^verbatim>\<open>tracestate\<close> line
  added at the end if there was none and a \<^verbatim>\<open>connection: close\<close> line if there was neither a connection
  line nor an upgrade; it ends in one blank line, and the body follows unchanged.
\<close>

theorem add_environment_id_spec:
  assumes "head_lines_ok ls" and "utf8_valid (render_head ls)"
  shows "add_environment_id_to_headers show_uuid (render_head ls @ body) (length (render_head ls)) env
    = Some (Ok (render_head (rewritten (''lapdev-env-id='' @ show_uuid env) ls) @ body))"
proof -
  have blank: "\<not> starts_with (to_lowercase []) ''tracestate:''" "\<not> starts_with (to_lowercase []) ''connection:''"
    "\<not> starts_with (to_lowercase []) ''upgrade:''"
    by (simp_all add: starts_with_def to_lowercase_def)
  show ?thesis
    using assms
    by (simp add: add_environment_id_to_headers_def lines_render_head rewrite_lines)
      (auto simp: rewrite_line_def blank Let_def rewritten_def render_head_def comp_def)
qed

section \<open>The environment id seen by the sidecar\<close>

text \<open>The header fields of a head: name and value of every line after the request line.\<close>

definition header_field :: "string \<Rightarrow> (string \<times> string) option" where
  "header_field l = map_option (\<lambda>(n, v). (n, trim v)) (split_once (CHR '':'') l)"

definition header_fields :: "string list \<Rightarrow> header_list" where
  "header_fields ls = List.map_filter header_field (tl ls)"

lemma lower_char_colon: "lower_char c = CHR '':'' \<longleftrightarrow> c = CHR '':''"
proof -
  have "c \<noteq> CHR '':'' \<and> lower_char c \<noteq> CHR '':''" if "is_ascii_uppercase c"
  proof -
    let ?n = "of_char c :: nat"
    from that have n: "65 \<le> ?n" "?n \<le> 90" by (simp_all add: is_ascii_uppercase_def)
    then have "(of_char (lower_char c) :: nat) = ?n + 32"
      using that by (simp add: lower_char_def)
    moreover have "(of_char (lower_char c) :: nat) = 58" if "lower_char c = CHR '':''"
      unfolding that by simp
    moreover have "c \<noteq> CHR '':''"
      using that by (auto simp: is_ascii_uppercase_def)
    ultimately show ?thesis using n by fastforce
  qed
  then show ?thesis by (auto simp: lower_char_def)
qed

lemma colon_in_lower: "CHR '':'' \<in> set (to_lowercase s) \<longleftrightarrow> CHR '':'' \<in> set s"
  unfolding to_lowercase_def set_map image_iff by (metis lower_char_colon)

lemma is_ts_field:
  "is_ts l \<longleftrightarrow> (\<exists>n v. split_once (CHR '':'') l = Some (n, v) \<and> to_lowercase n = ''tracestate'')"
  (is "?l \<longleftrightarrow> ?r")
proof
  assume ?l
  then obtain t where "to_lowercase l = ''tracestate'' @ CHR '':'' # t"
    unfolding is_ts_def starts_with_iff by auto
  then have "map lower_char (take 10 l) = ''tracestate''" "map lower_char (drop 10 l) = CHR '':'' # t"
    unfolding to_lowercase_def take_map [symmetric] drop_map [symmetric] by simp_all
  then obtain n c v where l: "l = n @ c # v" and n: "to_lowercase n = ''tracestate''"
    and c: "lower_char c = CHR '':''"
    unfolding to_lowercase_def map_eq_Cons_conv by (metis append_take_drop_id)
  from n have "CHR '':'' \<notin> set n"
    using colon_in_lower [of n] by simp
  with l n c show ?r
    by (auto simp: split_once_Some lower_char_colon)
next
  assume ?r
  then obtain n v where "l = n @ CHR '':'' # v" "to_lowercase n = ''tracestate''"
    by (auto simp: split_once_Some)
  then have "to_lowercase l = ''tracestate:'' @ to_lowercase v"
    by (simp add: to_lowercase_def lower_char_colon)
  then show ?l unfolding is_ts_def by (simp only: starts_with_append)
qed


lemma trim_start_ends:
  assumes "x \<noteq> []" and "\<not> is_whitespace (hd x)" and "\<not> is_whitespace (last x)"
  shows "trim x = x" and "trim (CHR '' '' # x) = x"
proof -
  have start: "trim_start x = x"
    using assms(1,2) by (cases x) (auto simp: trim_start_def)
  have "dropWhile is_whitespace (rev x) = rev x"
    using assms(1,3) by (cases x rule: rev_cases) auto
  then have "trim_end x = x" by (simp add: trim_end_def)
  with start show "trim x = x" "trim (CHR '' '' # x) = x"
    by (simp_all add: trim_def) (simp add: trim_start_def is_whitespace_def)
qed

lemma trim_hd: "trim s \<noteq> [] \<Longrightarrow> \<not> is_whitespace (hd (trim s))"
proof -
  assume ne: "trim s \<noteq> []"
  let ?t = "trim_start s"
  have "\<exists>w. ?t = trim s @ w"
    unfolding trim_def trim_end_def
    by (metis rev_append rev_rev_ident takeWhile_dropWhile_id)
  then have "hd (trim s) = hd ?t" "?t \<noteq> []" using ne by auto
  then show ?thesis
    by (metis hd_dropWhile trim_start_def)
qed

lemma header_field_ts:
  assumes "is_ts l"
  obtains n where "header_field l = Some (n, trim (drop 11 l))" "eq_ignore_ascii_case n ''tracestate''"
proof -
  from assms obtain n v where nv: "split_once (CHR '':'') l = Some (n, v)" "to_lowercase n = ''tracestate''"
    unfolding is_ts_field by blast
  have "length (to_lowercase n) = 10" unfolding nv(2) by simp
  then have "length n = 10" by (simp add: to_lowercase_def)
  with nv(1) have "drop 11 l = v" by (auto simp: split_once_Some)
  moreover have "to_lowercase ''tracestate'' = ''tracestate''" by code_simp
  ultimately show ?thesis
    using that nv by (simp add: header_field_def eq_ignore_ascii_case_def)
qed

lemma header_field_not_ts:
  assumes "\<not> is_ts l" and "header_field l = Some (n, v)"
  shows "\<not> eq_ignore_ascii_case n ''tracestate''"
proof -
  have "to_lowercase ''tracestate'' = ''tracestate''" by code_simp
  with assms show ?thesis
    unfolding is_ts_field by (auto simp: header_field_def eq_ignore_ascii_case_def)
qed

text \<open>The value of a rewritten \<^verbatim>\<open>tracestate\<close> line.\<close>

definition extended :: "string \<Rightarrow> string \<Rightarrow> string" where
  "extended env_ts v = (if v = [] then env_ts else v @ '','' @ env_ts)"

lemma header_field_tracestate:
  assumes "env_ts \<noteq> []" "\<not> is_whitespace (hd env_ts)" "\<not> is_whitespace (last env_ts)"
  shows "header_field (''tracestate: '' @ extended env_ts (trim s)) = Some (''tracestate'', extended env_ts (trim s))"
proof -
  let ?v = "extended env_ts (trim s)"
  have "split_once (CHR '':'') (''tracestate'' @ CHR '':'' # CHR '' '' # ?v) = Some (''tracestate'', CHR '' '' # ?v)"
    by (rule split_once_literal) simp
  moreover have "?v \<noteq> []" "\<not> is_whitespace (hd ?v)" "\<not> is_whitespace (last ?v)"
    using assms trim_hd [of s] by (auto simp: extended_def)
  ultimately show ?thesis
    using trim_start_ends(2) [of ?v] by (simp add: header_field_def)
qed

lemma out_line_ts: "is_ts l \<Longrightarrow> out_line env_ts l = ''tracestate: '' @ extended env_ts (trim (drop 11 l))"
  by (simp add: out_line_def extended_def Let_def)

lemma out_line_not_ts: "\<not> is_ts l \<Longrightarrow> \<not> is_ts (out_line env_ts l)"
proof -
  have "\<not> is_ts ''connection: close''" unfolding is_ts_def by code_simp
  then show "\<not> is_ts l \<Longrightarrow> ?thesis" by (auto simp: out_line_def)
qed

lemma otel_header_value_filter:
  "otel_header_value (List.map_filter header_field (map (out_line env_ts) ls @ ext)) TRACESTATE_HEADER
    = (case otel_header_value (List.map_filter header_field ls) TRACESTATE_HEADER of
         Some v \<Rightarrow> Some (extended env_ts v)
       | None \<Rightarrow> otel_header_value (List.map_filter header_field ext) TRACESTATE_HEADER)"
  if env: "env_ts \<noteq> []" "\<not> is_whitespace (hd env_ts)" "\<not> is_whitespace (last env_ts)"
proof (induction ls)
  case Nil
  then show ?case by (simp add: otel_header_value_def map_filter_simps)
next
  case (Cons l ls)
  show ?case
  proof (cases "is_ts l")
    case True
    then obtain n where "header_field l = Some (n, trim (drop 11 l))" "eq_ignore_ascii_case n ''tracestate''"
      by (rule header_field_ts)
    with True header_field_tracestate [OF env, of "drop 11 l"] show ?thesis
      by (simp add: map_filter_simps out_line_ts otel_header_value_def TRACESTATE_HEADER_def)
  next
    case False
    with Cons header_field_not_ts [OF False] header_field_not_ts [OF out_line_not_ts [OF False, of env_ts]]
    show ?thesis
      by (auto simp: map_filter_simps otel_header_value_def TRACESTATE_HEADER_def split: option.splits)
  qed
qed


lemma otel_tracestate_None:
  "otel_header_value (List.map_filter header_field ls) TRACESTATE_HEADER = None \<longleftrightarrow> \<not> list_ex is_ts ls"
proof (induction ls)
  case (Cons l ls)
  show ?case
  proof (cases "is_ts l")
    case True
    then obtain n where "header_field l = Some (n, trim (drop 11 l))" "eq_ignore_ascii_case n ''tracestate''"
      by (rule header_field_ts)
    with True show ?thesis
      by (simp add: map_filter_simps otel_header_value_def TRACESTATE_HEADER_def)
  next
    case False
    with Cons header_field_not_ts [OF False] show ?thesis
      by (auto simp: map_filter_simps otel_header_value_def TRACESTATE_HEADER_def split: option.splits)
  qed
qed (simp add: otel_header_value_def map_filter_simps)

lemma extract_env_id_eq:
  "lapdev_environment_id (extract_routing_context parse_uuid hs)
    = extract_lapdev_environment_id parse_uuid (otel_header_value hs TRACESTATE_HEADER)"
  by (simp add: extract_routing_context_def extract_trace_context_def Let_def split: option.splits prod.splits)

lemma header_fields_rewritten:
  assumes "ls \<noteq> []" and "\<not> is_ts (hd ls)"
    and env: "env_ts \<noteq> []" "\<not> is_whitespace (hd env_ts)" "\<not> is_whitespace (last env_ts)"
  shows "otel_header_value (header_fields (rewritten env_ts ls)) TRACESTATE_HEADER
    = Some (extended env_ts (case otel_header_value (header_fields ls) TRACESTATE_HEADER of
        Some v \<Rightarrow> v | None \<Rightarrow> []))"
proof -
  obtain l0 ls' where ls: "ls = l0 # ls'" "\<not> is_ts l0"
    using assms(1,2) by (cases ls) auto
  let ?conn = "if list_ex is_conn ls \<or> list_ex is_upg ls then [] else [''connection: close'']"
  let ?ext = "(if list_ex is_ts ls' then [] else [''tracestate: '' @ env_ts]) @ ?conn"
  have "otel_header_value (header_fields (rewritten env_ts ls)) TRACESTATE_HEADER
      = (case otel_header_value (List.map_filter header_field ls') TRACESTATE_HEADER of
           Some v \<Rightarrow> Some (extended env_ts v)
         | None \<Rightarrow> otel_header_value (List.map_filter header_field ?ext) TRACESTATE_HEADER)"
    using otel_header_value_filter [OF env, of ls' ?ext] ls
    by (simp add: header_fields_def rewritten_def)
  moreover have "otel_header_value (List.map_filter header_field ?ext) TRACESTATE_HEADER = Some env_ts"
    if "\<not> list_ex is_ts ls'"
    using that header_field_tracestate [OF env, of "[]"]
    by (simp add: map_filter_simps otel_header_value_def TRACESTATE_HEADER_def extended_def
        trim_def trim_start_def trim_end_def)
  ultimately show ?thesis
    using otel_tracestate_None [of ls']
    by (auto simp: ls(1) header_fields_def extended_def split: option.splits)
qed


section \<open>Access control\<close>

lemma access_update_members:
  "db_update_preview_url_access db i now = Ok db' \<Longrightarrow> members db' = members db"
  by (auto simp: db_update_preview_url_access_def update_preview_row_def and_then_eq_Ok split: option.splits)

lemma user_id_from_token_Ok:
  "user_id_from_token decrypt parse_uuid token = Ok user \<longleftrightarrow>
     (\<exists>claims uid. decrypt token = Some claims \<and> claims ''user_id'' = Some (JString uid)
        \<and> parse_uuid uid = Some user)"
proof -
  have "(case v of JString uid \<Rightarrow> ok_or Forbidden (parse_uuid uid) | JOther \<Rightarrow> Err Forbidden) = Ok user
      \<longleftrightarrow> (\<exists>uid. v = JString uid \<and> parse_uuid uid = Some user)" for v
    by (cases v) (simp_all add: ok_or_eq_Ok)
  then show ?thesis
    by (auto simp: user_id_from_token_def and_then_eq_Ok ok_or_eq_Ok)
qed

lemma ensure_org_membership_Ok:
  "ensure_org_membership db user org = Ok () \<longleftrightarrow> get_organization_member db user org \<noteq> None"
  by (simp add: ensure_org_membership_def split: option.splits)

text \<open>The condition the handler means to enforce, over the parsed request.\<close>

definition may_view ::
    "token_key \<Rightarrow> (string \<Rightarrow> uuid option) \<Rightarrow> kube_db \<Rightarrow> header_list \<Rightarrow> preview_url_target \<Rightarrow> bool" where
  "may_view decrypt parse_uuid db hs target \<longleftrightarrow>
     target_access_level target = Public
     \<or> (\<exists>token claims uid user.
          extract_cookie_value hs LAPDEV_AUTH_TOKEN_COOKIE = Some token
          \<and> decrypt token = Some claims \<and> claims ''user_id'' = Some (JString uid)
          \<and> parse_uuid uid = Some user
          \<and> get_organization_member db user (organization_id target) \<noteq> None)"

lemma authorize_request_Ok:
  "authorize_request decrypt parse_uuid db request target = Ok ()
     \<longleftrightarrow> may_view decrypt parse_uuid db (http_headers request) target"
proof (cases "target_access_level target")
  case Organization
  then show ?thesis
    by (auto simp: authorize_request_def may_view_def and_then_eq_Ok ok_or_eq_Ok
        user_id_from_token_Ok ensure_org_membership_Ok)
qed (simp add: authorize_request_def may_view_def)

text \<open>
  C10: No request reaches a cluster without permission: when the handler proxies a connection to a
  target, a complete request was read and parsed, the first label of its \<^verbatim>\<open>Host\<close> header parsed as a
  preview address and resolved to that target, either the preview is public or the request carried a
  session cookie whose token decrypts to a user who is a live member of the organization that owns
  the environment, and the bytes sent are the request rewritten for that target's environment.
\<close>

theorem proxied_requests_authorized:
  assumes "handle_client_connection parse decrypt parse_uuid show_uuid tunnel db now stream
      = (Proxied target data, db')"
  shows "\<exists>buffer rest request headers_len host info.
      read_http_headers stream [] = (Ok (), buffer, rest)
      \<and> parse_http_request_from_buffer parse buffer = Ok (request, headers_len)
      \<and> get_host_header (http_headers request) = Some host
      \<and> parse_preview_url (hd (split_on (CHR ''.'') host)) = Ok info
      \<and> resolve_preview_url db info = Ok target
      \<and> may_view decrypt parse_uuid db (http_headers request) target
      \<and> add_environment_id_to_headers show_uuid buffer headers_len (environment_id target) = Some (Ok data)"
proof -
  from assms obtain buffer rest request headers_len host where
    read: "read_http_headers stream [] = (Ok (), buffer, rest)"
      "parse_http_request_from_buffer parse buffer = Ok (request, headers_len)"
      "get_host_header (http_headers request) = Some host"
    and res: "resolve_preview_url_target db now (hd (split_on (CHR ''.'') host)) = (Ok target, db')"
    and auth: "authorize_request decrypt parse_uuid db' request target = Ok ()"
    and data: "add_environment_id_to_headers show_uuid buffer headers_len (environment_id target) = Some (Ok data)"
    by (auto simp: handle_client_connection_def Let_def
        split: prod.splits sum.splits option.splits unit.splits)
  from res have "members db' = members db"
    by (auto simp: resolve_preview_url_target_def split: sum.splits dest: access_update_members)
  then have "get_organization_member db' = get_organization_member db"
    by (simp add: get_organization_member_def fun_eq_iff)
  with auth have "may_view decrypt parse_uuid db (http_headers request) target"
    by (simp add: authorize_request_Ok may_view_def)
  moreover from res obtain info where
    "parse_preview_url (hd (split_on (CHR ''.'') host)) = Ok info" "resolve_preview_url db info = Ok target"
    by (auto simp: resolve_preview_url_target_def split: sum.splits)
  ultimately show ?thesis using read data by blast
qed

section \<open>Witnesses\<close>

definition ex_head :: "string list" where
  "ex_head = [''GET / HTTP/1.1'', ''Host: 80-my-app-abc.app.lap.dev'']"

definition ex_head_rewritten :: string where
  "ex_head_rewritten = ''GET / HTTP/1.1'' @ CRLF @ ''Host: 80-my-app-abc.app.lap.dev'' @ CRLF
     @ ''tracestate: lapdev-env-id=2'' @ CRLF @ ''connection: close'' @ CRLF @ CRLF"

definition ex_show_uuid :: "uuid \<Rightarrow> string" where
  "ex_show_uuid u = show_nat (unat u)"

definition ex_parse_uuid :: "string \<Rightarrow> uuid option" where
  "ex_parse_uuid s = map_option of_nat (parse_uint (2 ^ 128) s)"

lemma ex_uuid: "ex_parse_uuid (ex_show_uuid u) = Some u"
proof -
  have "unat u < 2 ^ 128" using unsigned_less [of u] by simp
  then show ?thesis
    by (simp add: ex_parse_uuid_def ex_show_uuid_def parse_uint_show_nat)
qed

lemma ex_show_uuid_2: "ex_show_uuid 2 = ''2''"
  by (simp add: ex_show_uuid_def show_nat.simps digit_char_def) code_simp

lemma ex_head_ok: "head_lines_ok ex_head" "utf8_valid (render_head ex_head)"
proof -
  show "head_lines_ok ex_head" by (simp add: head_lines_ok_def ex_head_def LF_def)
  have "is_ascii (render_head ex_head)" by code_simp
  then show "utf8_valid (render_head ex_head)" by (rule is_ascii_utf8_valid)
qed

lemma ex_rewritten: "render_head (rewritten ''lapdev-env-id=2'' ex_head) = ex_head_rewritten"
  by code_simp

theorem add_environment_id_spec_witness:
  "add_environment_id_to_headers ex_show_uuid (render_head ex_head) (length (render_head ex_head)) 2
    = Some (Ok ex_head_rewritten)"
  using add_environment_id_spec [OF ex_head_ok, of ex_show_uuid "[]" 2] ex_rewritten
  by (simp add: ex_show_uuid_2)


definition ex_parse :: httparse where
  "ex_parse buffer = Ok (StComplete (length buffer),
     \<lparr>req_method = Some ''GET'', req_path = Some ''/'', req_headers = [(''Host'', ''80-my-app-abc.app.lap.dev'')]\<rparr>)"

definition ex_public_db :: kube_db where
  "ex_public_db = ex_db\<lparr>preview_urls := [ex_preview\<lparr>pv_access_level := ''Public''\<rparr>]\<rparr>"

definition ex_target :: preview_url_target where
  "ex_target = \<lparr>cluster_id = 7, namespace = ''ns'', service_name = ''my-app'', service_port = 80,
    target_access_level = Public, protocol = ''HTTP'', environment_id = 2, organization_id = 9,
    preview_url_id = 4\<rparr>"

definition ex_stream :: reader where
  "ex_stream = \<lparr>pending = [Bytes (render_head ex_head)], expired = False\<rparr>"

lemma ex_read: "read_http_headers ex_stream [] = (Ok (), render_head ex_head, \<lparr>pending = [], expired = False\<rparr>)"
  by code_simp

lemma ex_request_parsed:
  "parse_http_request_from_buffer ex_parse (render_head ex_head)
    = Ok (\<lparr>http_method = ''GET'', http_path = ''/'',
           http_headers = [(''Host'', ''80-my-app-abc.app.lap.dev'')]\<rparr>, length (render_head ex_head))"
proof -
  have "is_ascii ''80-my-app-abc.app.lap.dev''" by code_simp
  then show ?thesis
    by (simp add: parse_http_request_from_buffer_def ex_parse_def from_utf8_lossy_valid is_ascii_utf8_valid)
qed

lemma ex_host:
  "get_host_header [(''Host'', ''80-my-app-abc.app.lap.dev'')] = Some ''80-my-app-abc.app.lap.dev''"
  "hd (split_on (CHR ''.'') ''80-my-app-abc.app.lap.dev'') = ''80-my-app-abc''"
  by code_simp+

lemma ex_resolved:
  "parse_preview_url ''80-my-app-abc''
    = Ok \<lparr>info_service_name = ''my-app'', info_port = 80, info_environment_hash = ''abc''\<rparr>"
  "resolve_preview_url ex_public_db
     \<lparr>info_service_name = ''my-app'', info_port = 80, info_environment_hash = ''abc''\<rparr> = Ok ex_target"
proof -
  have "parse_u16 ''80'' = Some 80"
    using parse_u16_show_u16 [of 80] ex_show_80(2) by simp
  moreover have "split_on (CHR ''-'') ''80-my-app-abc'' = [''80'', ''my'', ''app'', ''abc'']" by simp
  ultimately show "parse_preview_url ''80-my-app-abc''
    = Ok \<lparr>info_service_name = ''my-app'', info_port = 80, info_environment_hash = ''abc''\<rparr>"
    by (simp add: parse_preview_url_def)
qed (simp add: resolve_preview_url_def find_preview_url_by_name_def ex_preview_def ex_db_def
      ex_env_def ex_service_def get_kube_environment_def get_kube_environment_service_by_id_def live_def
      ex_show_80 access_level_from_str_def ex_public_db_def ex_target_def)

lemma ex_handled:
  "\<exists>db'. handle_client_connection ex_parse (\<lambda>_. None) ex_parse_uuid ex_show_uuid (\<lambda>_ _. Ok ()) ex_public_db 1
     ex_stream = (Proxied ex_target ex_head_rewritten, db')"
proof -
  have "add_environment_id_to_headers ex_show_uuid (render_head ex_head) (length (render_head ex_head)) 2
      = Some (Ok ex_head_rewritten)"
    by code_simp
  then show ?thesis
    unfolding handle_client_connection_def ex_read prod.case sum.case old.unit.case
    by (simp add: ex_request_parsed ex_host ex_resolved
        resolve_preview_url_target_def authorize_request_def ex_target_def Let_def split: unit.split)
qed

theorem proxied_requests_authorized_witness:
  "\<exists>request. parse_http_request_from_buffer ex_parse (render_head ex_head) = Ok request
    \<and> may_view (\<lambda>_. None) ex_parse_uuid ex_public_db (http_headers (fst request)) ex_target"
proof -
  obtain db' where run: "handle_client_connection ex_parse (\<lambda>_. None) ex_parse_uuid ex_show_uuid
      (\<lambda>_ _. Ok ()) ex_public_db 1 ex_stream = (Proxied ex_target ex_head_rewritten, db')"
    using ex_handled by blast
  from proxied_requests_authorized [OF this] show ?thesis
    by (auto simp: ex_read ex_request_parsed)
qed

end
