(* ===== verification/Routing_Table.thy ===== *)
theory Routing_Table
  imports Lapdev_Prelude
begin

text \<open>
  \<^verbatim>\<open>crates/kube-sidecar-proxy/src/config.rs\<close>: the routing state of a sidecar. A workload's traffic goes to
  the workload itself, to the branch service of an environment, or to a developer's machine that
  intercepts it (a devbox), either for one branch environment or for everybody.

  Hash maps are partial functions. Where the code walks over one, the order of its keys is an
  argument. A devbox connection is its immutable part (route metadata and target environment); the
  tunnel it opens on demand is modelled with the tunnel client.
\<close>

section \<open>Data\<close>

datatype route_access_level = Personal | Shared | PublicRoute

record devbox_route_metadata =
  intercept_id :: uuid
  workload_id :: uuid
  auth_token :: string
  websocket_url :: string
  path_pattern :: string
  port_mappings :: "u16 \<rightharpoonup> u16"
  created_at_epoch_seconds :: "int option"
  expires_at_epoch_seconds :: "int option"

record devbox_connection =
  dc_metadata :: devbox_route_metadata
  dc_target_environment_id :: uuid

record branch_service_route =
  service_names :: "u16 \<rightharpoonup> string"
  route_headers :: "string \<rightharpoonup> string"
  requires_auth :: bool
  route_access_level :: route_access_level
  timeout_ms :: "nat option"

datatype branch_mode = ModeService | ModeDevbox devbox_connection

datatype default_route = RouteLocal | RouteDevbox devbox_connection

record branch_route =
  br_service :: branch_service_route
  br_mode :: branch_mode

record proxy_port_route =
  pr_proxy_port :: u16
  pr_service_port :: u16
  pr_target_port :: u16

record routing_table =
  branch_routes :: "uuid \<rightharpoonup> branch_route"
  rt_default_route :: default_route
  port_routes :: "u16 \<rightharpoonup> proxy_port_route"

datatype route_decision =
    BranchService branch_service_route
  | BranchDevbox uuid devbox_connection u16
  | DefaultDevbox devbox_connection u16
  | DefaultLocal u16

definition default_routing_table :: routing_table where
  "default_routing_table = \<lparr>branch_routes = Map.empty, rt_default_route = RouteLocal, port_routes = Map.empty\<rparr>"

definition new_service :: "u16 \<Rightarrow> string \<Rightarrow> branch_service_route" where
  "new_service port name =
     \<lparr>service_names = [port \<mapsto> name], route_headers = Map.empty, requires_auth = True,
      route_access_level = Personal, timeout_ms = None\<rparr>"

definition service_name_for_port :: "branch_service_route \<Rightarrow> u16 \<Rightarrow> string option" where
  "service_name_for_port r port = service_names r port"

definition resolve_target_port :: "devbox_connection \<Rightarrow> u16 \<Rightarrow> u16" where
  "resolve_target_port c original_port =
     (case port_mappings (dc_metadata c) original_port of Some p \<Rightarrow> p | None \<Rightarrow> original_port)"

section \<open>Ports\<close>

definition set_port_routes :: "routing_table \<Rightarrow> proxy_port_route list \<Rightarrow> routing_table" where
  "set_port_routes t routes =
     t\<lparr>port_routes := fold (\<lambda>r m. m(pr_proxy_port r \<mapsto> r)) routes Map.empty\<rparr>"

definition upsert_port_route :: "routing_table \<Rightarrow> proxy_port_route \<Rightarrow> proxy_port_route option \<times> routing_table" where
  "upsert_port_route t r =
     (port_routes t (pr_proxy_port r), t\<lparr>port_routes := (port_routes t)(pr_proxy_port r \<mapsto> r)\<rparr>)"

definition remove_port_route :: "routing_table \<Rightarrow> u16 \<Rightarrow> proxy_port_route option \<times> routing_table" where
  "remove_port_route t p = (port_routes t p, t\<lparr>port_routes := (port_routes t)(p := None)\<rparr>)"

definition service_port_for_proxy :: "routing_table \<Rightarrow> u16 \<Rightarrow> u16" where
  "service_port_for_proxy t proxy_port =
     (case port_routes t proxy_port of Some r \<Rightarrow> pr_service_port r | None \<Rightarrow> proxy_port)"

text \<open>The values in the order \<open>ks\<close> of the keys.\<close>

definition target_port_for_service :: "u16 list \<Rightarrow> routing_table \<Rightarrow> u16 \<Rightarrow> u16" where
  "target_port_for_service ks t service_port =
     (case find (\<lambda>r. pr_service_port r = service_port) (List.map_filter (port_routes t) ks) of
        Some r \<Rightarrow> pr_target_port r
      | None \<Rightarrow> service_port)"

section \<open>Decisions\<close>

definition resolve_tcp :: "u16 list \<Rightarrow> routing_table \<Rightarrow> u16 \<Rightarrow> route_decision" where
  "resolve_tcp ks t port =
     (case rt_default_route t of
        RouteDevbox connection \<Rightarrow> DefaultDevbox connection (resolve_target_port connection port)
      | RouteLocal \<Rightarrow> DefaultLocal (target_port_for_service ks t port))"

definition resolve_http :: "u16 list \<Rightarrow> routing_table \<Rightarrow> u16 \<Rightarrow> uuid option \<Rightarrow> route_decision" where
  "resolve_http ks t port branch =
     (case Option.bind branch (branch_routes t) of
        Some route \<Rightarrow>
          (case br_mode route of
             ModeDevbox connection \<Rightarrow>
               BranchDevbox (the branch) connection (resolve_target_port connection port)
           | ModeService \<Rightarrow> BranchService (br_service route))
      | None \<Rightarrow>
          (case rt_default_route t of
             RouteDevbox connection \<Rightarrow> DefaultDevbox connection (resolve_target_port connection port)
           | RouteLocal \<Rightarrow> DefaultLocal (target_port_for_service ks t port)))"

section \<open>Updates\<close>

text \<open>One route of the loop: an environment that was known keeps its mode, once.\<close>

definition replace_step ::
    "uuid \<times> branch_service_route \<Rightarrow> (uuid \<rightharpoonup> branch_route) \<times> (uuid \<rightharpoonup> branch_route)
     \<Rightarrow> (uuid \<rightharpoonup> branch_route) \<times> (uuid \<rightharpoonup> branch_route)" where
  "replace_step = (\<lambda>(env_id, service_route) (old_routes, new_routes).
     case old_routes env_id of
       Some existing \<Rightarrow>
         (old_routes(env_id := None),
          new_routes(env_id \<mapsto> \<lparr>br_service = service_route, br_mode = br_mode existing\<rparr>))
     | None \<Rightarrow> (old_routes, new_routes(env_id \<mapsto> \<lparr>br_service = service_route, br_mode = ModeService\<rparr>)))"

definition replace_branch_routes :: "routing_table \<Rightarrow> (uuid \<times> branch_service_route) list \<Rightarrow> routing_table" where
  "replace_branch_routes t routes =
     t\<lparr>branch_routes := snd (fold replace_step routes (branch_routes t, Map.empty))\<rparr>"

definition set_branch_devbox :: "routing_table \<Rightarrow> uuid \<Rightarrow> devbox_connection \<Rightarrow> bool \<times> routing_table" where
  "set_branch_devbox t branch_id connection =
     (case branch_routes t branch_id of
        None \<Rightarrow> (False, t)
      | Some entry \<Rightarrow>
          (True, t\<lparr>branch_routes := (branch_routes t)(branch_id \<mapsto> entry\<lparr>br_mode := ModeDevbox connection\<rparr>)\<rparr>))"

fun is_devbox_mode :: "branch_mode \<Rightarrow> bool" where
  "is_devbox_mode (ModeDevbox _) = True"
| "is_devbox_mode ModeService = False"

definition clear_branch_devboxes :: "routing_table \<Rightarrow> routing_table" where
  "clear_branch_devboxes t =
     t\<lparr>branch_routes := (\<lambda>b. map_option
         (\<lambda>r. if is_devbox_mode (br_mode r) then r\<lparr>br_mode := ModeService\<rparr> else r) (branch_routes t b))\<rparr>"

definition remove_branch_devbox :: "routing_table \<Rightarrow> uuid \<Rightarrow> bool \<times> routing_table" where
  "remove_branch_devbox t branch_id =
     (case branch_routes t branch_id of
        None \<Rightarrow> (False, t)
      | Some route \<Rightarrow>
          (if is_devbox_mode (br_mode route)
           then (True, t\<lparr>branch_routes := (branch_routes t)(branch_id \<mapsto> route\<lparr>br_mode := ModeService\<rparr>)\<rparr>)
           else (False, t)))"

definition upsert_branch_service_route :: "routing_table \<Rightarrow> uuid \<Rightarrow> branch_service_route \<Rightarrow> routing_table" where
  "upsert_branch_service_route t branch_id service_route =
     t\<lparr>branch_routes := (branch_routes t)(branch_id \<mapsto>
         \<lparr>br_service = service_route,
          br_mode = (case branch_routes t branch_id of Some existing \<Rightarrow> br_mode existing | None \<Rightarrow> ModeService)\<rparr>)\<rparr>"

definition remove_branch_service_route :: "routing_table \<Rightarrow> uuid \<Rightarrow> bool \<times> routing_table" where
  "remove_branch_service_route t branch_id =
     (branch_routes t branch_id \<noteq> None, t\<lparr>branch_routes := (branch_routes t)(branch_id := None)\<rparr>)"

definition intercepts :: "branch_route \<Rightarrow> uuid \<Rightarrow> bool" where
  "intercepts r i = (case br_mode r of ModeDevbox c \<Rightarrow> intercept_id (dc_metadata c) = i | ModeService \<Rightarrow> False)"

definition remove_branch_devbox_by_intercept ::
    "uuid list \<Rightarrow> routing_table \<Rightarrow> uuid \<Rightarrow> uuid option \<times> routing_table" where
  "remove_branch_devbox_by_intercept bs t i =
     (case find (\<lambda>b. case branch_routes t b of Some r \<Rightarrow> intercepts r i | None \<Rightarrow> False) bs of
        Some b \<Rightarrow>
          (Some b, t\<lparr>branch_routes := (branch_routes t)(b := map_option (\<lambda>r. r\<lparr>br_mode := ModeService\<rparr>) (branch_routes t b))\<rparr>)
      | None \<Rightarrow> (None, t))"

definition set_default_devbox :: "routing_table \<Rightarrow> devbox_connection \<Rightarrow> routing_table" where
  "set_default_devbox t connection = t\<lparr>rt_default_route := RouteDevbox connection\<rparr>"

definition clear_default_devbox :: "routing_table \<Rightarrow> routing_table" where
  "clear_default_devbox t = t\<lparr>rt_default_route := RouteLocal\<rparr>"

definition default_devbox :: "routing_table \<Rightarrow> devbox_connection option" where
  "default_devbox t = (case rt_default_route t of RouteDevbox c \<Rightarrow> Some c | RouteLocal \<Rightarrow> None)"

definition remove_default_devbox_by_intercept :: "routing_table \<Rightarrow> uuid \<Rightarrow> bool \<times> routing_table" where
  "remove_default_devbox_by_intercept t i =
     (case rt_default_route t of
        RouteDevbox c \<Rightarrow>
          (if intercept_id (dc_metadata c) = i then (True, t\<lparr>rt_default_route := RouteLocal\<rparr>) else (False, t))
      | RouteLocal \<Rightarrow> (False, t))"

section \<open>Lookups after an update\<close>

named_theorems table_simps \<open>what the lookups return after each update of the table\<close>

lemma replace_step_simps:
  "fst (replace_step (b, sr) (old, new)) = old(b := None)"
  "snd (replace_step (b, sr) (old, new))
    = new(b \<mapsto> \<lparr>br_service = sr, br_mode = (case old b of Some r \<Rightarrow> br_mode r | None \<Rightarrow> ModeService)\<rparr>)"
  by (auto simp: replace_step_def split: option.splits)

lemma replace_fold:
  assumes "distinct (map fst routes)"
  shows "snd (fold replace_step routes (old, new)) b =
    (case map_of routes b of
       None \<Rightarrow> new b
     | Some sr \<Rightarrow> Some \<lparr>br_service = sr, br_mode = (case old b of Some r \<Rightarrow> br_mode r | None \<Rightarrow> ModeService)\<rparr>)"
  using assms
proof (induction routes arbitrary: old new)
  case (Cons route routes)
  obtain c sr where route: "route = (c, sr)" by force
  obtain old' new' where step: "replace_step (c, sr) (old, new) = (old', new')" by force
  then have "old' = old(c := None)"
    "new' = new(c \<mapsto> \<lparr>br_service = sr, br_mode = (case old c of Some r \<Rightarrow> br_mode r | None \<Rightarrow> ModeService)\<rparr>)"
    by (metis fst_conv replace_step_simps(1), metis snd_conv replace_step_simps(2))
  moreover from Cons.prems have "map_of routes c = None"
    by (simp add: route map_of_eq_None_iff)
  moreover have "snd (fold replace_step routes (old', new')) b =
    (case map_of routes b of
       None \<Rightarrow> new' b
     | Some sr \<Rightarrow> Some \<lparr>br_service = sr, br_mode = (case old' b of Some r \<Rightarrow> br_mode r | None \<Rightarrow> ModeService)\<rparr>)"
    using Cons by simp
  ultimately show ?case
    by (auto simp: route step split: option.splits)
qed simp

lemma table_frames [table_simps]:
  "rt_default_route (replace_branch_routes t routes) = rt_default_route t"
  "port_routes (replace_branch_routes t routes) = port_routes t"
  "rt_default_route (snd (set_branch_devbox t b c)) = rt_default_route t"
  "port_routes (snd (set_branch_devbox t b c)) = port_routes t"
  "rt_default_route (snd (remove_branch_devbox t b)) = rt_default_route t"
  "port_routes (snd (remove_branch_devbox t b)) = port_routes t"
  "rt_default_route (upsert_branch_service_route t b sr) = rt_default_route t"
  "port_routes (upsert_branch_service_route t b sr) = port_routes t"
  "rt_default_route (snd (remove_branch_service_route t b)) = rt_default_route t"
  "port_routes (snd (remove_branch_service_route t b)) = port_routes t"
  "branch_routes (set_default_devbox t c) = branch_routes t"
  "port_routes (set_default_devbox t c) = port_routes t"
  "branch_routes (clear_default_devbox t) = branch_routes t"
  "port_routes (clear_default_devbox t) = port_routes t"
  by (simp_all add: replace_branch_routes_def set_branch_devbox_def remove_branch_devbox_def
      upsert_branch_service_route_def remove_branch_service_route_def set_default_devbox_def
      clear_default_devbox_def split: option.splits)

lemma set_branch_devbox_other [table_simps]:
  "b' \<noteq> b \<Longrightarrow> branch_routes (snd (set_branch_devbox t b c)) b' = branch_routes t b'"
  by (simp add: set_branch_devbox_def split: option.splits)

lemma remove_branch_devbox_other [table_simps]:
  "b' \<noteq> b \<Longrightarrow> branch_routes (snd (remove_branch_devbox t b)) b' = branch_routes t b'"
  by (simp add: remove_branch_devbox_def split: option.splits)

lemma upsert_branch_service_route_other [table_simps]:
  "b' \<noteq> b \<Longrightarrow> branch_routes (upsert_branch_service_route t b sr) b' = branch_routes t b'"
  by (simp add: upsert_branch_service_route_def)

lemma remove_branch_service_route_other [table_simps]:
  "b' \<noteq> b \<Longrightarrow> branch_routes (snd (remove_branch_service_route t b)) b' = branch_routes t b'"
  by (simp add: remove_branch_service_route_def)

text \<open>A decision reads the table only at the branch it is for, the default route and the ports.\<close>

lemma resolve_http_cong:
  assumes "Option.bind branch (branch_routes t) = Option.bind branch (branch_routes t')"
    and "rt_default_route t = rt_default_route t'" and "port_routes t = port_routes t'"
  shows "resolve_http ks t port branch = resolve_http ks t' port branch"
proof -
  have "target_port_for_service ks t port = target_port_for_service ks t' port"
    by (simp add: target_port_for_service_def assms(3))
  then show ?thesis
    unfolding resolve_http_def assms(1,2) by (simp only:)
qed

lemma resolve_http_default_cong:
  assumes "rt_default_route t = rt_default_route t'" and "port_routes t = port_routes t'"
  shows "resolve_http ks t port None = resolve_http ks t' port None"
  using assms by (intro resolve_http_cong) simp_all

lemma resolve_http_branch_cong:
  assumes "branch_routes t b = branch_routes t' b" and "branch_routes t b \<noteq> None"
  shows "resolve_http ks t port (Some b) = resolve_http ks t' port (Some b)"
  using assms by (auto simp: resolve_http_def)

lemma resolve_tcp_eq: "resolve_tcp ks t port = resolve_http ks t port None"
  by (simp add: resolve_tcp_def resolve_http_def)

section \<open>Properties\<close>

text \<open>
  Replacing the branch routes drops every environment that is not listed, installs the listed
  service routes, and keeps an active devbox intercept of each environment that stays.
\<close>

theorem replace_branch_routes_keeps_modes:
  assumes "distinct (map fst routes)"
  shows "branch_routes (replace_branch_routes t routes) b =
    (case map_of routes b of
       None \<Rightarrow> None
     | Some sr \<Rightarrow> Some \<lparr>br_service = sr,
         br_mode = (case branch_routes t b of Some r \<Rightarrow> br_mode r | None \<Rightarrow> ModeService)\<rparr>)"
  using assms by (simp add: replace_branch_routes_def replace_fold split: option.splits)

text \<open>
  C32: An intercept is scoped to its branch and can be undone: while a devbox is attached to a known
  branch that was served by its service, requests of that branch go to the devbox on the mapped port
  and every other request is decided as before; detaching it restores the table exactly.
\<close>

theorem branch_devbox_scoped:
  assumes "branch_routes t b = Some r" and "br_mode r = ModeService"
  shows "resolve_http ks (snd (set_branch_devbox t b c)) port (Some b)
      = BranchDevbox b c (resolve_target_port c port)
    \<and> (branch \<noteq> Some b \<longrightarrow>
         resolve_http ks (snd (set_branch_devbox t b c)) port branch = resolve_http ks t port branch)
    \<and> remove_branch_devbox (snd (set_branch_devbox t b c)) b = (True, t)"
proof -
  have "(branch_routes t)(b \<mapsto> r\<lparr>br_mode := ModeService\<rparr>) = branch_routes t"
    using assms by (auto simp: fun_eq_iff)
  then have "remove_branch_devbox (snd (set_branch_devbox t b c)) b = (True, t)"
    using assms by (simp add: set_branch_devbox_def remove_branch_devbox_def)
  moreover have "resolve_http ks (snd (set_branch_devbox t b c)) port branch = resolve_http ks t port branch"
    if "branch \<noteq> Some b"
    using that by (intro resolve_http_cong) (cases branch, auto simp: table_simps)
  ultimately show ?thesis
    using assms by (simp add: resolve_http_def set_branch_devbox_def)
qed

lemma fold_port_routes:
  assumes "distinct (map pr_proxy_port routes)"
  shows "fold (\<lambda>r m. m(pr_proxy_port r \<mapsto> r)) routes m0 p
    = (case find (\<lambda>r. pr_proxy_port r = p) routes of Some r \<Rightarrow> Some r | None \<Rightarrow> m0 p)"
  using assms
proof (induction routes arbitrary: m0)
  case (Cons r routes)
  have "find (\<lambda>x. pr_proxy_port x = p) routes = None" if "pr_proxy_port r = p"
    using Cons.prems that by (auto simp: find_None_iff image_iff)
  with Cons show ?case
    by (cases "pr_proxy_port r = p") (simp_all split: option.splits)
qed simp

lemma set_port_routes_lookup:
  assumes "distinct (map pr_proxy_port routes)"
  shows "port_routes (set_port_routes t routes) p = Some r \<longleftrightarrow> r \<in> set routes \<and> pr_proxy_port r = p"
proof -
  have "port_routes (set_port_routes t routes) p = find (\<lambda>r. pr_proxy_port r = p) routes"
    by (simp add: set_port_routes_def fold_port_routes [OF assms] split: option.splits)
  moreover have "find (\<lambda>r. pr_proxy_port r = p) routes = Some r" if r: "r \<in> set routes" "pr_proxy_port r = p"
  proof -
    obtain r' where r': "find (\<lambda>r. pr_proxy_port r = p) routes = Some r'"
      using r by (metis (mono_tags, lifting) find_None_iff not_Some_eq)
    then have "r' \<in> set routes" "pr_proxy_port r' = pr_proxy_port r"
      using r(2) by (auto simp: find_Some_iff)
    then have "r' = r"
      using assms r(1) by (meson distinct_map inj_onD)
    with r' show ?thesis by simp
  qed
  ultimately show ?thesis
    by (auto simp: find_Some_iff)
qed

text \<open>
  Port translation is right whatever order the hash map is walked in: with the port routes of a
  pod loaded, a connection accepted on a proxy port is decided for its service port, and without an
  intercept it is sent to the container port of the same route; a port without a route is left alone.
\<close>

theorem proxy_port_delivery:
  assumes "distinct (map pr_proxy_port routes)" and "distinct (map pr_service_port routes)"
    and "iter_order (port_routes (set_port_routes t routes)) ks"
  shows "(\<forall>r \<in> set routes.
       service_port_for_proxy (set_port_routes t routes) (pr_proxy_port r) = pr_service_port r
       \<and> target_port_for_service ks (set_port_routes t routes) (pr_service_port r) = pr_target_port r)
    \<and> (\<forall>p. p \<notin> pr_proxy_port ` set routes \<longrightarrow> service_port_for_proxy (set_port_routes t routes) p = p)
    \<and> (\<forall>p. p \<notin> pr_service_port ` set routes \<longrightarrow> target_port_for_service ks (set_port_routes t routes) p = p)"
proof -
  let ?t = "set_port_routes t routes" and ?vs = "List.map_filter (port_routes (set_port_routes t routes)) ks"
  note look = set_port_routes_lookup [OF assms(1), of t]
  have vs: "set ?vs = set routes"
  proof (rule set_eqI)
    fix r
    have "r \<in> set ?vs \<longleftrightarrow> (\<exists>p \<in> set ks. port_routes ?t p = Some r)"
      by (auto simp: List.map_filter_def intro: rev_image_eqI)
    also have "\<dots> \<longleftrightarrow> (\<exists>p. port_routes ?t p = Some r)"
      using iter_orderD [OF assms(3)] by blast
    finally show "r \<in> set ?vs \<longleftrightarrow> r \<in> set routes"
      by (simp add: look)
  qed
  have "target_port_for_service ks ?t (pr_service_port r) = pr_target_port r" if r: "r \<in> set routes" for r
  proof -
    obtain r' where r': "find (\<lambda>x. pr_service_port x = pr_service_port r) ?vs = Some r'"
      using r vs by (metis (mono_tags, lifting) find_None_iff not_Some_eq)
    then have "r' \<in> set routes" "pr_service_port r' = pr_service_port r"
      using vs by (auto simp: find_Some_iff)
    then have "r' = r"
      using assms(2) r by (meson distinct_map inj_onD)
    with r' show ?thesis by (simp add: target_port_for_service_def)
  qed
  moreover have "target_port_for_service ks ?t p = p" if "p \<notin> pr_service_port ` set routes" for p
  proof -
    have "find (\<lambda>x. pr_service_port x = p) ?vs = None"
      using that vs by (auto simp: find_None_iff)
    then show ?thesis by (simp add: target_port_for_service_def)
  qed
  moreover have "service_port_for_proxy ?t (pr_proxy_port r) = pr_service_port r" if "r \<in> set routes" for r
    using look [of "pr_proxy_port r" r] that by (simp add: service_port_for_proxy_def)
  moreover have "service_port_for_proxy ?t p = p" if "p \<notin> pr_proxy_port ` set routes" for p
    using look [of p] that by (auto simp: service_port_for_proxy_def split: option.splits)
  ultimately show ?thesis by blast
qed

text \<open>
  Removing an intercept by its id: in every iteration order the operation reports nothing exactly
  when no branch is intercepted under that id; otherwise the branch it reports was intercepted under
  that id, is served by its service afterwards, and no other branch changes.
\<close>

theorem remove_branch_devbox_by_intercept_spec:
  assumes "iter_order (branch_routes t) bs"
    and "remove_branch_devbox_by_intercept bs t i = (res, t')"
  shows "case res of
      None \<Rightarrow> t' = t \<and> (\<forall>b r. branch_routes t b = Some r \<longrightarrow> \<not> intercepts r i)
    | Some b \<Rightarrow> (\<exists>r. branch_routes t b = Some r \<and> intercepts r i
        \<and> resolve_http ks t' port (Some b) = BranchService (br_service r))
        \<and> (\<forall>b'. b' \<noteq> b \<longrightarrow> branch_routes t' b' = branch_routes t b')"
proof (cases res)
  case None
  with assms have "find (\<lambda>b. case branch_routes t b of Some r \<Rightarrow> intercepts r i | None \<Rightarrow> False) bs = None" "t' = t"
    by (auto simp: remove_branch_devbox_by_intercept_def split: option.splits)
  moreover have "b \<in> set bs" if "branch_routes t b = Some r" for b r
    using iter_orderD [OF assms(1)] that by blast
  ultimately show ?thesis
    by (simp add: None find_None_iff) (metis option.simps(5))
next
  case (Some b)
  with assms(2) have hit: "find (\<lambda>b. case branch_routes t b of Some r \<Rightarrow> intercepts r i | None \<Rightarrow> False) bs = Some b"
    and t': "t' = t\<lparr>branch_routes := (branch_routes t)(b := map_option (\<lambda>r. r\<lparr>br_mode := ModeService\<rparr>) (branch_routes t b))\<rparr>"
    by (auto simp: remove_branch_devbox_by_intercept_def split: option.splits)
  from hit obtain r where "branch_routes t b = Some r" "intercepts r i"
    by (auto simp: find_Some_iff split: option.splits)
  then show ?thesis
    unfolding Some option.case t' by (simp add: resolve_http_def)
qed

section \<open>Witnesses\<close>

definition ex_connection :: devbox_connection where
  "ex_connection = \<lparr>dc_metadata = \<lparr>intercept_id = 11, workload_id = 12, auth_token = ''t'',
     websocket_url = ''wss://x'', path_pattern = ''/*'', port_mappings = [80 \<mapsto> 3000],
     created_at_epoch_seconds = None, expires_at_epoch_seconds = None\<rparr>, dc_target_environment_id = 2\<rparr>"

definition ex_table :: routing_table where
  "ex_table = \<lparr>branch_routes = [2 \<mapsto> \<lparr>br_service = new_service 80 ''web-2'', br_mode = ModeDevbox ex_connection\<rparr>,
      3 \<mapsto> \<lparr>br_service = new_service 80 ''web-3'', br_mode = ModeService\<rparr>],
    rt_default_route = RouteLocal, port_routes = Map.empty\<rparr>"

theorem replace_branch_routes_keeps_modes_witness:
  "branch_routes (replace_branch_routes ex_table [(2, new_service 81 ''web'')]) 2
    = Some \<lparr>br_service = new_service 81 ''web'', br_mode = ModeDevbox ex_connection\<rparr>"
  using replace_branch_routes_keeps_modes [of "[(2, new_service 81 ''web'')]" ex_table 2]
  by (simp add: ex_table_def)

theorem branch_devbox_scoped_witness:
  "resolve_http [] (snd (set_branch_devbox ex_table 3 ex_connection)) 80 (Some 3) = BranchDevbox 3 ex_connection 3000
    \<and> remove_branch_devbox (snd (set_branch_devbox ex_table 3 ex_connection)) 3 = (True, ex_table)"
proof -
  have "branch_routes ex_table 3 = Some \<lparr>br_service = new_service 80 ''web-3'', br_mode = ModeService\<rparr>"
    by (simp add: ex_table_def)
  from branch_devbox_scoped [OF this, of "[]" ex_connection 80 None] show ?thesis
    by (simp add: resolve_target_port_def ex_connection_def)
qed

theorem proxy_port_delivery_witness:
  "target_port_for_service [15001]
     (set_port_routes default_routing_table [\<lparr>pr_proxy_port = 15001, pr_service_port = 80, pr_target_port = 8080\<rparr>]) 80
    = 8080"
proof -
  let ?r = "\<lparr>pr_proxy_port = 15001, pr_service_port = 80, pr_target_port = 8080\<rparr>"
  have "iter_order (port_routes (set_port_routes default_routing_table [?r])) [15001]"
    by (simp add: iter_order_def set_port_routes_def)
  from proxy_port_delivery [OF _ _ this] show ?thesis by simp
qed

theorem remove_branch_devbox_by_intercept_spec_witness:
  "\<exists>t'. remove_branch_devbox_by_intercept [3, 2] ex_table 11 = (Some 2, t')
    \<and> resolve_http [] t' 80 (Some 2) = BranchService (new_service 80 ''web-2'')"
proof -
  have ord: "iter_order (branch_routes ex_table) [3, 2]"
    by (auto simp: iter_order_def ex_table_def)
  obtain t' where run: "remove_branch_devbox_by_intercept [3, 2] ex_table 11 = (Some 2, t')"
    by (simp add: remove_branch_devbox_by_intercept_def ex_table_def intercepts_def ex_connection_def)
  moreover have "branch_routes ex_table 2 = Some \<lparr>br_service = new_service 80 ''web-2'', br_mode = ModeDevbox ex_connection\<rparr>"
    by (simp add: ex_table_def)
  ultimately show ?thesis
    using remove_branch_devbox_by_intercept_spec [OF ord run, of "[]" 80] by auto
qed

end
