(* ===== verification/Sidecar_Server.thy ===== *)
theory Sidecar_Server
  imports Protocol_Detector Otel_Routing Routing_Table
begin

text \<open>
  The sidecar proxy around the routing table, from \<^verbatim>\<open>crates/kube-sidecar-proxy/src\<close>:
  \<^item> \<^verbatim>\<open>connection_registry.rs\<close>: shutdown channels per branch;
  \<^item> \<^verbatim>\<open>rpc.rs\<close>: the requests with which the manager changes the routes;
  \<^item> \<^verbatim>\<open>server.rs\<close>, \<^verbatim>\<open>http2_proxy.rs\<close>: how an accepted connection is routed and subscribed.
  A watch channel is a number, drawn from a counter; a channel is closed once \<^verbatim>\<open>true\<close> was sent on it, which
  is when the copying of every connection that holds a receiver of it is cut. The copying itself is
  not modelled: handling a connection ends with a session (upstream, data to replay, subscription).
  Parameters: \<^verbatim>\<open>httparse\<close>, UUID parsing and printing, the \<^verbatim>\<open>h2\<close> library (the headers of the first stream),
  and the iteration orders of hash maps and hash sets.
\<close>

section \<open>Connection registry\<close>

type_synonym branch_key = "uuid option"

record connection_registry =
  branch_channels :: "branch_key \<rightharpoonup> nat"
  next_channel :: nat
  closed_channels :: "nat set"

definition empty_registry :: connection_registry where
  "empty_registry = \<lparr>branch_channels = Map.empty, next_channel = 0, closed_channels = {}\<rparr>"

definition subscribe :: "connection_registry \<Rightarrow> branch_key \<Rightarrow> nat \<times> connection_registry" where
  "subscribe reg branch =
     (case branch_channels reg branch of
        Some ch \<Rightarrow> (ch, reg)
      | None \<Rightarrow> (next_channel reg,
          reg\<lparr>branch_channels := (branch_channels reg)(branch \<mapsto> next_channel reg),
              next_channel := next_channel reg + 1\<rparr>))"

definition shutdown_branch :: "connection_registry \<Rightarrow> branch_key \<Rightarrow> connection_registry" where
  "shutdown_branch reg branch =
     (case branch_channels reg branch of
        Some ch \<Rightarrow> reg\<lparr>branch_channels := (branch_channels reg)(branch := None),
                       closed_channels := insert ch (closed_channels reg)\<rparr>
      | None \<Rightarrow> reg)"

definition shutdown_branches :: "connection_registry \<Rightarrow> branch_key list \<Rightarrow> connection_registry" where
  "shutdown_branches reg branches = fold (\<lambda>b r. shutdown_branch r b) branches reg"

section \<open>Requests of the manager\<close>

record devbox_route_config =
  cfg_intercept_id :: uuid
  cfg_workload_id :: uuid
  cfg_auth_token :: string
  cfg_websocket_url :: string
  cfg_path_pattern :: string
  cfg_branch_environment_id :: "uuid option"
  cfg_created_at_epoch_seconds :: "int option"
  cfg_expires_at_epoch_seconds :: "int option"
  cfg_port_mappings :: "u16 \<rightharpoonup> u16"

datatype proxy_route_access_level = ProxyPersonal | ProxyShared | ProxyPublic

record proxy_branch_route_config =
  brc_branch_environment_id :: uuid
  brc_service_names :: "u16 \<rightharpoonup> string"
  brc_headers :: "string \<rightharpoonup> string"
  brc_requires_auth :: bool
  brc_access_level :: proxy_route_access_level
  brc_timeout_ms :: "nat option"
  brc_devbox_route :: "devbox_route_config option"

record sidecar =
  sc_workload_id :: uuid
  sc_environment_id :: uuid
  sc_table :: routing_table
  sc_registry :: connection_registry

definition devbox_connection_from_config :: "devbox_route_config \<Rightarrow> uuid \<Rightarrow> devbox_connection" where
  "devbox_connection_from_config route target_environment_id =
     \<lparr>dc_metadata =
        \<lparr>intercept_id = cfg_intercept_id route, workload_id = cfg_workload_id route,
         auth_token = cfg_auth_token route, websocket_url = cfg_websocket_url route,
         path_pattern = cfg_path_pattern route, port_mappings = cfg_port_mappings route,
         created_at_epoch_seconds = cfg_created_at_epoch_seconds route,
         expires_at_epoch_seconds = cfg_expires_at_epoch_seconds route\<rparr>,
      dc_target_environment_id = target_environment_id\<rparr>"

fun access_level_from_proxy :: "proxy_route_access_level \<Rightarrow> route_access_level" where
  "access_level_from_proxy ProxyPersonal = Personal"
| "access_level_from_proxy ProxyShared = Shared"
| "access_level_from_proxy ProxyPublic = PublicRoute"

definition service_route_of :: "proxy_branch_route_config \<Rightarrow> branch_service_route" where
  "service_route_of route =
     \<lparr>service_names = brc_service_names route, route_headers = brc_headers route,
      requires_auth = brc_requires_auth route,
      route_access_level = access_level_from_proxy (brc_access_level route),
      timeout_ms = brc_timeout_ms route\<rparr>"

text \<open>\<open>order\<close> is the order in which the hash set of affected branches is walked.\<close>

definition set_service_routes ::
    "(uuid set \<Rightarrow> uuid list) \<Rightarrow> sidecar \<Rightarrow> proxy_branch_route_config list \<Rightarrow> sidecar" where
  "set_service_routes order sc routes =
     (let previous_branches = dom (branch_routes (sc_table sc));
          updates = map (\<lambda>r. (brc_branch_environment_id r, service_route_of r))
                      (filter (\<lambda>r. brc_service_names r \<noteq> Map.empty) routes);
          devbox_overrides = List.map_filter (\<lambda>r. map_option (\<lambda>d.
              (brc_branch_environment_id r, devbox_connection_from_config d (brc_branch_environment_id r)))
              (brc_devbox_route r)) routes;
          table = replace_branch_routes (sc_table sc) updates;
          table = fold (\<lambda>(b, c) t. snd (set_branch_devbox t b c)) devbox_overrides table;
          updated_branches = set (map brc_branch_environment_id routes) \<union> previous_branches
      in sc\<lparr>sc_table := table,
            sc_registry := shutdown_branches (sc_registry sc) (map Some (order updated_branches))\<rparr>)"

definition set_devbox_route :: "sidecar \<Rightarrow> devbox_route_config \<Rightarrow> sidecar" where
  "set_devbox_route sc route =
     (if cfg_workload_id route \<noteq> sc_workload_id sc then sc
      else
        (let target = (case cfg_branch_environment_id route of Some b \<Rightarrow> b | None \<Rightarrow> sc_environment_id sc);
             connection = devbox_connection_from_config route target;
             table = (case cfg_branch_environment_id route of
                 Some branch_id \<Rightarrow> snd (set_branch_devbox (sc_table sc) branch_id connection)
               | None \<Rightarrow> set_default_devbox (sc_table sc) connection)
         in sc\<lparr>sc_table := table,
               sc_registry := shutdown_branch (sc_registry sc) (cfg_branch_environment_id route)\<rparr>))"

definition stop_devbox :: "sidecar \<Rightarrow> uuid option \<Rightarrow> sidecar" where
  "stop_devbox sc branch_environment =
     (let table = (case branch_environment of
            Some branch_id \<Rightarrow> snd (remove_branch_devbox (sc_table sc) branch_id)
          | None \<Rightarrow> clear_default_devbox (sc_table sc))
      in sc\<lparr>sc_table := table, sc_registry := shutdown_branch (sc_registry sc) branch_environment\<rparr>)"

definition rpc_upsert_branch_service_route :: "sidecar \<Rightarrow> proxy_branch_route_config \<Rightarrow> string + sidecar" where
  "rpc_upsert_branch_service_route sc route =
     (let branch_id = brc_branch_environment_id route in
      if brc_service_names route = Map.empty
      then Err ''Missing service_names for branch service route update''
      else
        (let table = upsert_branch_service_route (sc_table sc) branch_id (service_route_of route);
             table = (case brc_devbox_route route of
                 Some d \<Rightarrow> snd (set_branch_devbox table branch_id (devbox_connection_from_config d branch_id))
               | None \<Rightarrow> table)
         in Ok (sc\<lparr>sc_table := table, sc_registry := shutdown_branch (sc_registry sc) (Some branch_id)\<rparr>)))"

definition rpc_remove_branch_service_route :: "sidecar \<Rightarrow> uuid \<Rightarrow> sidecar" where
  "rpc_remove_branch_service_route sc branch_id =
     sc\<lparr>sc_table := snd (remove_branch_service_route (sc_table sc) branch_id),
        sc_registry := shutdown_branch (sc_registry sc) (Some branch_id)\<rparr>"

section \<open>Accepted connections\<close>

datatype upstream = ToLocal u16 | ToService string u16 | ToDevbox devbox_connection u16

datatype session_kind = TcpSession | HttpSession | UnparsedHttpSession | Http2Session

record session =
  se_kind :: session_kind
  se_upstream :: upstream
  se_service_port :: u16
  se_initial_data :: string
  se_key :: branch_key
  se_channel :: nat

datatype sidecar_error =
    SidecarIo io_error
  | MissingBranchService u16 "uuid option"

text \<open>The upstream of a decision and the branch under which HTTP/1 and TCP connections subscribe.\<close>

definition upstream_of :: "u16 \<Rightarrow> uuid option \<Rightarrow> route_decision \<Rightarrow> sidecar_error + upstream \<times> branch_key" where
  "upstream_of service_port branch decision =
     (case decision of
        BranchService service \<Rightarrow>
          (case service_name_for_port service service_port of
             Some name \<Rightarrow> Ok (ToService name service_port, branch)
           | None \<Rightarrow> Err (MissingBranchService service_port branch))
      | BranchDevbox b connection target_port \<Rightarrow> Ok (ToDevbox connection target_port, Some b)
      | DefaultDevbox connection target_port \<Rightarrow> Ok (ToDevbox connection target_port, None)
      | DefaultLocal target_port \<Rightarrow> Ok (ToLocal target_port, None))"

definition tcp_upstream_of :: "u16 \<Rightarrow> route_decision \<Rightarrow> upstream \<times> branch_key" where
  "tcp_upstream_of service_port decision =
     (case decision of
        BranchDevbox b connection target_port \<Rightarrow> (ToDevbox connection target_port, Some b)
      | DefaultDevbox connection target_port \<Rightarrow> (ToDevbox connection target_port, None)
      | DefaultLocal target_port \<Rightarrow> (ToLocal target_port, None)
      | BranchService _ \<Rightarrow> (ToLocal service_port, None))"

definition handle_http_proxy ::
    "u16 list \<Rightarrow> httparse \<Rightarrow> (string \<Rightarrow> uuid option) \<Rightarrow> routing_table \<Rightarrow> connection_registry \<Rightarrow> u16 \<Rightarrow> string
     \<Rightarrow> (sidecar_error + session) \<times> connection_registry" where
  "handle_http_proxy ks parse parse_uuid table reg proxy_port initial_data =
     (let service_port = service_port_for_proxy table proxy_port in
      case parse_http_request_from_buffer parse initial_data of
        Inl e \<Rightarrow>
          (let fallback_port = target_port_for_service ks table service_port;
               (ch, reg') = subscribe reg None
           in (Ok \<lparr>se_kind = UnparsedHttpSession, se_upstream = ToLocal fallback_port,
                   se_service_port = service_port, se_initial_data = initial_data, se_key = None,
                   se_channel = ch\<rparr>, reg'))
      | Inr (http_request, _) \<Rightarrow>
          (let branch_id = lapdev_environment_id (extract_routing_context parse_uuid (http_headers http_request));
               decision = resolve_http ks table service_port branch_id
           in case upstream_of service_port branch_id decision of
                Inl err \<Rightarrow> (Err err, reg)
              | Inr (up, key) \<Rightarrow>
                  (let (ch, reg') = subscribe reg key
                   in (Ok \<lparr>se_kind = HttpSession, se_upstream = up, se_service_port = service_port,
                           se_initial_data = initial_data, se_key = key, se_channel = ch\<rparr>, reg'))))"

text \<open>\<open>first_stream\<close> is the outcome of accepting the first HTTP/2 stream: an error, no stream, or its
  headers. The subscription is to the shared channel, whatever the route.\<close>

definition determine_connection_route ::
    "u16 list \<Rightarrow> (string \<Rightarrow> uuid option) \<Rightarrow> routing_table \<Rightarrow> u16 \<Rightarrow> uuid \<Rightarrow> header_list
     \<Rightarrow> sidecar_error + upstream \<times> u16 \<times> uuid option \<times> uuid" where
  "determine_connection_route ks parse_uuid table proxy_port default_environment_id hs =
     (let branch_id = lapdev_environment_id (extract_routing_context parse_uuid hs);
          target_environment_id = (case branch_id of Some b \<Rightarrow> b | None \<Rightarrow> default_environment_id);
          service_port = service_port_for_proxy table proxy_port;
          decision = resolve_http ks table service_port branch_id
      in and_then (upstream_of service_port branch_id decision) (\<lambda>(up, _).
         Ok (up, service_port, branch_id, target_environment_id)))"

definition handle_http2_proxy ::
    "u16 list \<Rightarrow> (string \<Rightarrow> uuid option) \<Rightarrow> (io_error + header_list option) \<Rightarrow> uuid \<Rightarrow> routing_table
     \<Rightarrow> connection_registry \<Rightarrow> u16 \<Rightarrow> string \<Rightarrow> (sidecar_error + session option) \<times> connection_registry" where
  "handle_http2_proxy ks parse_uuid first_stream environment_id table reg proxy_port initial_data =
     (case first_stream of
        Inl err \<Rightarrow> (Err (SidecarIo err), reg)
      | Inr None \<Rightarrow> (Ok None, reg)
      | Inr (Some hs) \<Rightarrow>
          (case determine_connection_route ks parse_uuid table proxy_port environment_id hs of
             Inl err \<Rightarrow> (Err err, reg)
           | Inr (up, service_port, _, _) \<Rightarrow>
               (let (ch, reg') = subscribe reg None
                in (Ok (Some \<lparr>se_kind = Http2Session, se_upstream = up, se_service_port = service_port,
                             se_initial_data = initial_data, se_key = None, se_channel = ch\<rparr>), reg'))))"

definition handle_connection ::
    "u16 list \<Rightarrow> httparse \<Rightarrow> (string \<Rightarrow> uuid option) \<Rightarrow> (string \<Rightarrow> io_error + header_list option)
     \<Rightarrow> sidecar \<Rightarrow> u16 \<Rightarrow> reader \<Rightarrow> (sidecar_error + session option) \<times> sidecar" where
  "handle_connection ks parse parse_uuid h2 sc proxy_port stream =
     (case detect_protocol stream True of
        (Inl e, _) \<Rightarrow> (Err (SidecarIo e), sc)
      | (Inr detection, _) \<Rightarrow>
          (let initial_data = buffer detection; table = sc_table sc; reg = sc_registry sc in
           case protocol detection of
             Http _ _ \<Rightarrow>
               (case handle_http_proxy ks parse parse_uuid table reg proxy_port initial_data of
                  (Inl e, reg') \<Rightarrow> (Err e, sc\<lparr>sc_registry := reg'\<rparr>)
                | (Inr se, reg') \<Rightarrow> (Ok (Some se), sc\<lparr>sc_registry := reg'\<rparr>))
           | Http2 \<Rightarrow>
               (case handle_http2_proxy ks parse_uuid (h2 initial_data) (sc_environment_id sc) table reg
                       proxy_port initial_data of
                  (res, reg') \<Rightarrow> (res, sc\<lparr>sc_registry := reg'\<rparr>))
           | Tcp \<Rightarrow>
               (let service_port = service_port_for_proxy table proxy_port in
                let (up, key) = tcp_upstream_of service_port (resolve_tcp ks table service_port);
                    (ch, reg') = subscribe reg key
                in (Ok (Some \<lparr>se_kind = TcpSession, se_upstream = up, se_service_port = service_port,
                             se_initial_data = initial_data, se_key = key, se_channel = ch\<rparr>),
                    sc\<lparr>sc_registry := reg'\<rparr>))))"

section \<open>HTTP/2 streams\<close>

text \<open>
  The value the \<^verbatim>\<open>tracestate\<close> header of a forwarded HTTP/2 request gets. \<open>from_str\<close> says which strings the
  \<^verbatim>\<open>http\<close> crate accepts as a header value. A header map is a list of names and values: \<^verbatim>\<open>get\<close> finds the
  first value of a name, \<^verbatim>\<open>insert\<close> replaces all of them.
\<close>

definition is_env_entry :: "string \<Rightarrow> bool" where
  "is_env_entry trimmed =
     (case split_once (CHR ''='') trimmed of
        Some (key, _) \<Rightarrow> eq_ignore_ascii_case (trim key) ''lapdev-env-id''
      | None \<Rightarrow> False)"

definition tracestate_value :: "string option \<Rightarrow> string \<Rightarrow> string" where
  "tracestate_value existing_value target_entry =
     (case existing_value of
        Some v \<Rightarrow>
          join '','' (filter (\<lambda>e. e \<noteq> [] \<and> \<not> is_env_entry e) (map trim (split_on (CHR '','') (from_utf8_lossy v)))
            @ [target_entry])
      | None \<Rightarrow> target_entry)"

definition ensure_environment_tracestate ::
    "(string \<Rightarrow> bool) \<Rightarrow> (uuid \<Rightarrow> string) \<Rightarrow> header_list \<Rightarrow> uuid \<Rightarrow> io_kind + header_list" where
  "ensure_environment_tracestate from_str show_uuid hs environment_id =
     (let target_entry = ''lapdev-env-id='' @ show_uuid environment_id;
          new_value = tracestate_value (map_of hs TRACESTATE_HEADER) target_entry
      in if from_str new_value
         then Ok (filter (\<lambda>(n, _). n \<noteq> TRACESTATE_HEADER) hs @ [(TRACESTATE_HEADER, new_value)])
         else Err InvalidInput)"

text \<open>A stream that replays the bytes protocol detection took before it reads on: one \<^verbatim>\<open>poll_read\<close> into a
  buffer with room for \<open>room\<close> bytes. \<open>inner\<close> is the read of the wrapped stream.\<close>

record prefaced =
  pf_buffer :: string
  pf_position :: nat

definition prefaced_read :: "(nat \<Rightarrow> 'r \<Rightarrow> 'x \<times> 'r) \<Rightarrow> nat \<Rightarrow> prefaced \<times> 'r \<Rightarrow> (string + 'x) \<times> prefaced \<times> 'r" where
  "prefaced_read inner room = (\<lambda>(p, r).
     if pf_position p < length (pf_buffer p) then
       (let remaining = length (pf_buffer p) - pf_position p; n = min remaining room
        in (Inl (take n (drop (pf_position p) (pf_buffer p))), p\<lparr>pf_position := pf_position p + n\<rparr>, r))
     else (case inner room r of (x, r') \<Rightarrow> (Inr x, p, r')))"

section \<open>The interface of a shutdown bus\<close>

text \<open>
  What the connections rely on: a subscription yields the open channel of its key, a shutdown of a
  key closes exactly the channel of that key, and a closed channel stays closed. \<open>current r k c\<close>
  says that \<open>c\<close> is the channel new subscribers of \<open>k\<close> would get.
\<close>

locale shutdown_bus =
  fixes inv :: "'r \<Rightarrow> bool"
    and sub :: "'r \<Rightarrow> 'k \<Rightarrow> 'c \<times> 'r"
    and shut :: "'r \<Rightarrow> 'k \<Rightarrow> 'r"
    and current :: "'r \<Rightarrow> 'k \<Rightarrow> 'c \<Rightarrow> bool"
    and closed :: "'r \<Rightarrow> 'c \<Rightarrow> bool"
  assumes inv_sub: "inv r \<Longrightarrow> inv (snd (sub r k))"
    and inv_shut: "inv r \<Longrightarrow> inv (shut r k)"
    and sub_current: "current (snd (sub r k)) k (fst (sub r k))"
    and sub_keeps: "current r j c \<Longrightarrow> current (snd (sub r k)) j c"
    and sub_closed: "closed (snd (sub r k)) c = closed r c"
    and shut_closes: "current r k c \<Longrightarrow> closed (shut r k) c"
    and shut_keeps: "current r j c \<Longrightarrow> j \<noteq> k \<Longrightarrow> current (shut r k) j c"
    and shut_closed: "closed r c \<Longrightarrow> closed (shut r k) c"
    and current_open: "inv r \<Longrightarrow> current r k c \<Longrightarrow> \<not> closed r c"
begin

text \<open>A holder of a channel obtained for \<open>k\<close> is notified or still on the current channel of \<open>k\<close>.\<close>

definition held :: "'r \<Rightarrow> 'k \<Rightarrow> 'c \<Rightarrow> bool" where
  "held r k c = (closed r c \<or> current r k c)"

lemma held_sub: "held r j c \<Longrightarrow> held (snd (sub r k)) j c"
  by (auto simp: held_def sub_closed intro: sub_keeps)

lemma held_shut: "held r j c \<Longrightarrow> held (shut r k) j c"
  unfolding held_def by (metis shut_closed shut_closes shut_keeps)

lemma held_shut_closed: "held r k c \<Longrightarrow> closed (shut r k) c"
  by (auto simp: held_def intro: shut_closed shut_closes)

lemma inv_shuts: "inv r \<Longrightarrow> inv (fold (\<lambda>k r. shut r k) ks r)"
  by (induction ks arbitrary: r) (auto intro: inv_shut)

lemma held_shuts: "held r j c \<Longrightarrow> held (fold (\<lambda>k r. shut r k) ks r) j c"
  by (induction ks arbitrary: r) (auto intro: held_shut)

lemma closed_shuts: "closed r c \<Longrightarrow> closed (fold (\<lambda>k r. shut r k) ks r) c"
  by (induction ks arbitrary: r) (auto intro: shut_closed)

lemma held_shuts_closed: "held r j c \<Longrightarrow> j \<in> set ks \<Longrightarrow> closed (fold (\<lambda>k r. shut r k) ks r) c"
proof (induction ks arbitrary: r)
  case (Cons k ks)
  then show ?case
    by (cases "j = k") (auto intro: closed_shuts held_shut_closed held_shut)
qed simp

text \<open>A subscription after a shutdown gets a channel that is open.\<close>

lemma sub_after_shut_open: "inv r \<Longrightarrow> \<not> closed (snd (sub (shut r k) k)) (fst (sub (shut r k) k))"
  using current_open inv_shut inv_sub sub_current by blast

end

definition registry_inv :: "connection_registry \<Rightarrow> bool" where
  "registry_inv reg \<longleftrightarrow>
     (\<forall>k c. branch_channels reg k = Some c \<longrightarrow> c < next_channel reg \<and> c \<notin> closed_channels reg)
     \<and> (\<forall>c \<in> closed_channels reg. c < next_channel reg)
     \<and> (\<forall>j k c. branch_channels reg j = Some c \<longrightarrow> branch_channels reg k = Some c \<longrightarrow> j = k)"

abbreviation reg_current :: "connection_registry \<Rightarrow> branch_key \<Rightarrow> nat \<Rightarrow> bool" where
  "reg_current reg k c \<equiv> branch_channels reg k = Some c"

abbreviation reg_closed :: "connection_registry \<Rightarrow> nat \<Rightarrow> bool" where
  "reg_closed reg c \<equiv> c \<in> closed_channels reg"

lemma registry_inv_subscribe: "registry_inv reg \<Longrightarrow> registry_inv (snd (subscribe reg k))"
  unfolding registry_inv_def subscribe_def
  by (auto split: option.splits if_splits) (metis less_irrefl less_SucI less_Suc_eq)+

lemma registry_inv_shutdown: "registry_inv reg \<Longrightarrow> registry_inv (shutdown_branch reg k)"
  unfolding registry_inv_def shutdown_branch_def
  by (auto split: option.splits if_splits)

interpretation bus: shutdown_bus registry_inv subscribe shutdown_branch reg_current reg_closed
  by unfold_locales
    (simp_all add: registry_inv_subscribe registry_inv_shutdown,
     auto simp: registry_inv_def subscribe_def shutdown_branch_def split: option.splits)

section \<open>The sidecar as a transition system\<close>

datatype rpc =
    SetServiceRoutes "proxy_branch_route_config list"
  | SetDevboxRoute devbox_route_config
  | StopDevbox "uuid option"
  | UpsertBranchServiceRoute proxy_branch_route_config
  | RemoveBranchServiceRoute uuid

fun apply_rpc :: "(uuid set \<Rightarrow> uuid list) \<Rightarrow> sidecar \<Rightarrow> rpc \<Rightarrow> sidecar" where
  "apply_rpc order sc (SetServiceRoutes routes) = set_service_routes order sc routes"
| "apply_rpc order sc (SetDevboxRoute route) = set_devbox_route sc route"
| "apply_rpc order sc (StopDevbox branch) = stop_devbox sc branch"
| "apply_rpc order sc (UpsertBranchServiceRoute route) =
     (case rpc_upsert_branch_service_route sc route of Inl _ \<Rightarrow> sc | Inr sc' \<Rightarrow> sc')"
| "apply_rpc order sc (RemoveBranchServiceRoute b) = rpc_remove_branch_service_route sc b"

type_synonym system = "sidecar \<times> session list"

text \<open>Connections are accepted, requests of the manager are served and connections end, in any order.\<close>

inductive sidecar_step ::
    "u16 list \<Rightarrow> (uuid set \<Rightarrow> uuid list) \<Rightarrow> httparse \<Rightarrow> (string \<Rightarrow> uuid option)
     \<Rightarrow> (string \<Rightarrow> io_error + header_list option) \<Rightarrow> system \<Rightarrow> system \<Rightarrow> bool"
  for ks order parse parse_uuid h2 where
  accept: "handle_connection ks parse parse_uuid h2 sc proxy_port stream = (Ok (Some se), sc') \<Longrightarrow>
     sidecar_step ks order parse parse_uuid h2 (sc, ses) (sc', se # ses)"
| reject: "handle_connection ks parse parse_uuid h2 sc proxy_port stream = (Err e, sc') \<Longrightarrow>
     sidecar_step ks order parse parse_uuid h2 (sc, ses) (sc', ses)"
| closed_early: "handle_connection ks parse parse_uuid h2 sc proxy_port stream = (Ok None, sc') \<Longrightarrow>
     sidecar_step ks order parse parse_uuid h2 (sc, ses) (sc', ses)"
| request: "sidecar_step ks order parse parse_uuid h2 (sc, ses) (apply_rpc order sc r, ses)"
| finish: "sidecar_step ks order parse parse_uuid h2 (sc, ses1 @ se # ses2) (sc, ses1 @ ses2)"

inductive_cases sidecar_stepE: "sidecar_step ks order parse parse_uuid h2 s s'"

text \<open>The session is served as the table says now.\<close>

definition routed_now :: "u16 list \<Rightarrow> routing_table \<Rightarrow> session \<Rightarrow> bool" where
  "routed_now ks t se =
     (upstream_of (se_service_port se) (se_key se) (resolve_http ks t (se_service_port se) (se_key se))
        = Ok (se_upstream se, se_key se))"

definition system_inv :: "u16 list \<Rightarrow> system \<Rightarrow> bool" where
  "system_inv ks = (\<lambda>(sc, ses).
     registry_inv (sc_registry sc)
     \<and> (\<forall>se \<in> set ses. bus.held (sc_registry sc) (se_key se) (se_channel se)
          \<and> (se_kind se \<in> {TcpSession, HttpSession} \<longrightarrow> se_channel se \<notin> closed_channels (sc_registry sc)
               \<longrightarrow> routed_now ks (sc_table sc) se)))"

subsection \<open>Accepting\<close>

lemma upstream_of_key:
  assumes "upstream_of sp branch (resolve_http ks t sp branch) = Ok (up, key)"
  shows "upstream_of sp key (resolve_http ks t sp key) = Ok (up, key)"
proof (cases "Option.bind branch (branch_routes t)")
  case (Some r)
  then obtain b where "branch = Some b" "branch_routes t b = Some r"
    by (cases branch) auto
  with assms show ?thesis
    by (auto simp: resolve_http_def upstream_of_def split: branch_mode.splits option.splits)
next
  case None
  have "resolve_http ks t sp branch = resolve_http ks t sp None"
    by (simp add: resolve_http_def None)
  with assms show ?thesis
    by (auto simp: resolve_http_def upstream_of_def split: default_route.splits)
qed

lemma tcp_upstream_of_key:
  assumes "tcp_upstream_of sp (resolve_tcp ks t sp) = (up, key)"
  shows "upstream_of sp key (resolve_http ks t sp key) = Ok (up, key)"
  using assms
  by (auto simp: tcp_upstream_of_def resolve_tcp_def resolve_http_def upstream_of_def
      split: default_route.splits)

text \<open>A new session holds the channel of its key, and routes as the table says unless it is HTTP/2 or
  could not be parsed.\<close>

definition opens :: "u16 list \<Rightarrow> routing_table \<Rightarrow> connection_registry \<Rightarrow> session \<Rightarrow> connection_registry \<Rightarrow> bool" where
  "opens ks t reg se reg' \<longleftrightarrow>
     reg' = snd (subscribe reg (se_key se)) \<and> se_channel se = fst (subscribe reg (se_key se))
     \<and> (se_kind se \<in> {TcpSession, HttpSession} \<longrightarrow> routed_now ks t se)"

lemma handle_http_proxy_opens:
  assumes "handle_http_proxy ks parse parse_uuid t reg port data = (res, reg')"
  shows "case res of Inl _ \<Rightarrow> reg' = reg | Inr se \<Rightarrow> opens ks t reg se reg'"
proof (cases "parse_http_request_from_buffer parse data")
  case (Inl e)
  with assms show ?thesis
    by (auto simp: handle_http_proxy_def opens_def Let_def split: prod.splits)
next
  case (Inr p)
  obtain rq n where p: "p = (rq, n)" by force
  let ?sp = "service_port_for_proxy t port"
  let ?b = "lapdev_environment_id (extract_routing_context parse_uuid (http_headers rq))"
  show ?thesis
  proof (cases "upstream_of ?sp ?b (resolve_http ks t ?sp ?b)")
    case (Inl e)
    with assms Inr p show ?thesis
      by (auto simp: handle_http_proxy_def Let_def)
  next
    case up: (Inr uk)
    obtain up key where uk: "uk = (up, key)" by force
    from upstream_of_key up uk
    have "upstream_of ?sp key (resolve_http ks t ?sp key) = Ok (up, key)" by simp
    with assms Inr p up uk show ?thesis
      by (auto simp: handle_http_proxy_def Let_def opens_def routed_now_def split: prod.splits)
  qed
qed

lemma handle_http2_proxy_opens:
  assumes "handle_http2_proxy ks parse_uuid first_stream env t reg port data = (res, reg')"
  shows "case res of Ok (Some se) \<Rightarrow> opens ks t reg se reg' \<and> se_key se = None | _ \<Rightarrow> reg' = reg"
proof (cases first_stream)
  case (Inr hs)
  then show ?thesis
    using assms
    by (cases hs; cases "determine_connection_route ks parse_uuid t port env (the hs)")
      (auto simp: handle_http2_proxy_def Let_def opens_def split: prod.splits)
qed (use assms in \<open>auto simp: handle_http2_proxy_def\<close>)

lemma handle_connection_opens:
  assumes "handle_connection ks parse parse_uuid h2 sc port stream = (res, sc')"
  shows "sc_table sc' = sc_table sc
    \<and> (case res of Ok (Some se) \<Rightarrow> opens ks (sc_table sc) (sc_registry sc) se (sc_registry sc')
       | _ \<Rightarrow> sc_registry sc' = sc_registry sc)"
proof (cases "fst (detect_protocol stream True)")
  case (Inl e)
  with assms show ?thesis
    by (cases "detect_protocol stream True") (auto simp: handle_connection_def)
next
  case (Inr det)
  then obtain r where det: "detect_protocol stream True = (Ok det, r)"
    by (metis prod.collapse)
  show ?thesis
  proof (cases "protocol det")
    case (Http m p)
    obtain res' reg' where run: "handle_http_proxy ks parse parse_uuid (sc_table sc) (sc_registry sc) port (buffer det) = (res', reg')"
      by force
    from handle_http_proxy_opens [OF run] assms run det Http show ?thesis
      by (cases res') (auto simp: handle_connection_def Let_def)
  next
    case Http2
    obtain res' reg' where run: "handle_http2_proxy ks parse_uuid (h2 (buffer det)) (sc_environment_id sc)
        (sc_table sc) (sc_registry sc) port (buffer det) = (res', reg')"
      by force
    from handle_http2_proxy_opens [OF run] assms run det Http2 show ?thesis
      by (auto simp: handle_connection_def Let_def split: sum.splits option.splits)
  next
    case Tcp
    let ?sp = "service_port_for_proxy (sc_table sc) port"
    obtain up key where uk: "tcp_upstream_of ?sp (resolve_tcp ks (sc_table sc) ?sp) = (up, key)" by force
    from tcp_upstream_of_key [OF uk] uk assms det Tcp show ?thesis
      by (auto simp: handle_connection_def Let_def opens_def routed_now_def split: prod.splits)
  qed
qed

subsection \<open>Requests\<close>

lemma replace_fold_other:
  "b \<notin> fst ` set routes \<Longrightarrow> snd (fold replace_step routes (old, new)) b = new b"
proof (induction routes arbitrary: old new)
  case (Cons route routes)
  obtain c sr where route: "route = (c, sr)" by force
  obtain old' new' where step: "replace_step (c, sr) (old, new) = (old', new')" by force
  moreover have "new' b = new b"
    using step Cons.prems replace_step_simps(2) [of c sr old new] by (simp add: route)
  ultimately show ?case
    using Cons by (simp add: route)
qed simp

lemma replace_branch_routes_other:
  "b \<notin> fst ` set routes \<Longrightarrow> branch_routes (replace_branch_routes t routes) b = None"
  by (simp add: replace_branch_routes_def replace_fold_other)

lemma fold_set_branch_devbox:
  "port_routes (fold (\<lambda>(b, c) t. snd (set_branch_devbox t b c)) os t) = port_routes t"
  "rt_default_route (fold (\<lambda>(b, c) t. snd (set_branch_devbox t b c)) os t) = rt_default_route t"
  "b \<notin> fst ` set os \<Longrightarrow>
     branch_routes (fold (\<lambda>(b, c) t. snd (set_branch_devbox t b c)) os t) b = branch_routes t b"
  by (induction os arbitrary: t) (auto simp: table_simps)

text \<open>Every request closes the channels of a list of keys, and the table keeps, for each other key,
  what decisions for that key read.\<close>

definition unaffected :: "branch_key set \<Rightarrow> routing_table \<Rightarrow> routing_table \<Rightarrow> bool" where
  "unaffected K t t' \<longleftrightarrow> port_routes t' = port_routes t
     \<and> (\<forall>b. Some b \<notin> K \<longrightarrow> branch_routes t' b = branch_routes t b)
     \<and> (None \<notin> K \<longrightarrow> rt_default_route t' = rt_default_route t)"

lemma set_service_routes_effect:
  assumes "\<forall>S. set (order S) = S"
  shows "\<exists>keys. sc_registry (set_service_routes order sc routes) = shutdown_branches (sc_registry sc) keys
    \<and> unaffected (set keys) (sc_table sc) (sc_table (set_service_routes order sc routes))"
proof -
  let ?ids = "brc_branch_environment_id ` set routes" and ?old = "dom (branch_routes (sc_table sc))"
  let ?updates = "map (\<lambda>r. (brc_branch_environment_id r, service_route_of r))
      (filter (\<lambda>r. brc_service_names r \<noteq> Map.empty) routes)"
  let ?os = "List.map_filter (\<lambda>r. map_option (\<lambda>d.
      (brc_branch_environment_id r, devbox_connection_from_config d (brc_branch_environment_id r)))
      (brc_devbox_route r)) routes"
  have ids: "fst ` set ?updates \<subseteq> ?ids" "fst ` set ?os \<subseteq> ?ids"
    by (auto simp: List.map_filter_def)
  have "branch_routes (sc_table (set_service_routes order sc routes)) b = branch_routes (sc_table sc) b"
    if "b \<notin> ?ids" "b \<notin> ?old" for b
  proof -
    have "b \<notin> fst ` set ?os" "b \<notin> fst ` set ?updates"
      using ids that(1) by blast+
    then have "branch_routes (sc_table (set_service_routes order sc routes)) b = None"
      by (simp add: set_service_routes_def Let_def fold_set_branch_devbox(3) replace_branch_routes_other)
    with that(2) show ?thesis by (simp add: dom_def)
  qed
  then have "unaffected (set (map Some (order (?ids \<union> ?old)))) (sc_table sc)
      (sc_table (set_service_routes order sc routes))"
    using assms
    by (auto simp: unaffected_def set_service_routes_def Let_def fold_set_branch_devbox(1,2) table_simps)
  then show ?thesis
    by (intro exI [of _ "map Some (order (?ids \<union> ?old))"]) (simp add: set_service_routes_def Let_def)
qed

lemma shutdown_branches_single: "shutdown_branch reg k = shutdown_branches reg [k]" "reg = shutdown_branches reg []"
  by (simp_all add: shutdown_branches_def)

lemma apply_rpc_effect:
  assumes "\<forall>S. set (order S) = S"
  shows "\<exists>keys. sc_registry (apply_rpc order sc r) = shutdown_branches (sc_registry sc) keys
    \<and> unaffected (set keys) (sc_table sc) (sc_table (apply_rpc order sc r))"
proof (cases r)
  case (SetServiceRoutes routes)
  with set_service_routes_effect [OF assms] show ?thesis by simp
next
  case (SetDevboxRoute route)
  have "unaffected {} t t" for t by (simp add: unaffected_def)
  then show ?thesis
    unfolding SetDevboxRoute
    by (intro exI [of _ "if cfg_workload_id route \<noteq> sc_workload_id sc then [] else [cfg_branch_environment_id route]"])
      (auto simp: set_devbox_route_def Let_def shutdown_branches_def unaffected_def table_simps split: option.splits)
next
  case (StopDevbox branch)
  then show ?thesis
    by (intro exI [of _ "[branch]"])
      (auto simp: stop_devbox_def Let_def shutdown_branches_def unaffected_def table_simps split: option.splits)
next
  case (UpsertBranchServiceRoute route)
  let ?keys = "if brc_service_names route = Map.empty then [] else [Some (brc_branch_environment_id route)]"
  show ?thesis
    unfolding UpsertBranchServiceRoute
    by (intro exI [of _ ?keys])
      (auto simp: rpc_upsert_branch_service_route_def Let_def shutdown_branches_def unaffected_def table_simps
        split: option.splits)
next
  case (RemoveBranchServiceRoute b)
  then show ?thesis
    by (intro exI [of _ "[Some b]"])
      (auto simp: rpc_remove_branch_service_route_def shutdown_branches_def unaffected_def table_simps)
qed

lemma routed_now_unaffected:
  assumes "routed_now ks t se" and "unaffected K t t'" and "se_key se \<notin> K"
  shows "routed_now ks t' se"
proof (cases "se_key se")
  case None
  then have "resolve_http ks t' (se_service_port se) None = resolve_http ks t (se_service_port se) None"
    using assms(2,3) by (intro resolve_http_default_cong) (simp_all add: unaffected_def)
  with assms(1) None show ?thesis by (simp add: routed_now_def)
next
  case (Some b)
  have "branch_routes t b \<noteq> None"
  proof
    assume "branch_routes t b = None"
    with assms(1) Some show False
      by (simp add: routed_now_def resolve_http_def upstream_of_def split: default_route.splits)
  qed
  moreover have "branch_routes t' b = branch_routes t b"
    using assms(2,3) Some by (simp add: unaffected_def)
  ultimately have "resolve_http ks t' (se_service_port se) (Some b) = resolve_http ks t (se_service_port se) (Some b)"
    using resolve_http_branch_cong [of t b t'] by simp
  with assms(1) Some show ?thesis by (simp add: routed_now_def)
qed

subsection \<open>The invariant\<close>

lemma system_inv_subscribe:
  assumes "system_inv ks (sc, ses)" and "sc_table sc' = sc_table sc"
    and "sc_registry sc' = snd (subscribe (sc_registry sc) k)"
  shows "system_inv ks (sc', ses)"
  using assms by (auto simp: system_inv_def bus.sub_closed intro: bus.held_sub bus.inv_sub)

lemma system_inv_same:
  assumes "system_inv ks (sc, ses)" and "sc_table sc' = sc_table sc" and "sc_registry sc' = sc_registry sc"
  shows "system_inv ks (sc', ses)"
  using assms by (simp add: system_inv_def)

lemma system_inv_accept:
  assumes "system_inv ks (sc, ses)"
    and "handle_connection ks parse parse_uuid h2 sc port stream = (Ok (Some se), sc')"
  shows "system_inv ks (sc', se # ses)"
proof -
  have new: "sc_table sc' = sc_table sc" "opens ks (sc_table sc) (sc_registry sc) se (sc_registry sc')"
    using handle_connection_opens [OF assms(2)] by simp_all
  then have "system_inv ks (sc', ses)"
    using system_inv_subscribe [OF assms(1)] by (simp add: opens_def)
  moreover have "bus.held (sc_registry sc') (se_key se) (se_channel se)"
    using new(2) bus.sub_current by (simp add: opens_def bus.held_def)
  ultimately show ?thesis
    using new by (simp add: system_inv_def opens_def)
qed

lemma system_inv_request:
  assumes "system_inv ks (sc, ses)" and "\<forall>S. set (order S) = S"
  shows "system_inv ks (apply_rpc order sc r, ses)"
proof -
  let ?sc = "apply_rpc order sc r"
  obtain keys where reg: "sc_registry ?sc = fold (\<lambda>k reg. shutdown_branch reg k) keys (sc_registry sc)"
    and unaff: "unaffected (set keys) (sc_table sc) (sc_table ?sc)"
    using apply_rpc_effect [OF assms(2), of sc r] by (auto simp: shutdown_branches_def)
  have "routed_now ks (sc_table ?sc) se"
    if se: "se \<in> set ses" "se_kind se \<in> {TcpSession, HttpSession}" "\<not> reg_closed (sc_registry ?sc) (se_channel se)"
    for se
  proof -
    have held: "bus.held (sc_registry sc) (se_key se) (se_channel se)"
      using assms(1) se(1) by (auto simp: system_inv_def)
    then have "se_key se \<notin> set keys"
      using se(3) bus.held_shuts_closed reg by metis
    moreover have "\<not> reg_closed (sc_registry sc) (se_channel se)"
      using se(3) bus.closed_shuts reg by metis
    then have "routed_now ks (sc_table sc) se"
      using assms(1) se(1,2) by (auto simp: system_inv_def)
    ultimately show ?thesis
      using routed_now_unaffected unaff by blast
  qed
  then show ?thesis
    using assms(1) by (auto simp: system_inv_def reg intro: bus.inv_shuts bus.held_shuts)
qed

lemma system_inv_step:
  assumes "sidecar_step ks order parse parse_uuid h2 s s'" and "\<forall>S. set (order S) = S" and "system_inv ks s"
  shows "system_inv ks s'"
  using assms(1)
proof (cases rule: sidecar_step.cases)
  case (accept sc port stream se sc' ses)
  with system_inv_accept assms(3) show ?thesis by simp
next
  case (reject sc port stream e sc' ses)
  from handle_connection_opens [OF reject(3)] have "sc_table sc' = sc_table sc" "sc_registry sc' = sc_registry sc"
    by simp_all
  with reject assms(3) show ?thesis using system_inv_same by simp
next
  case (closed_early sc port stream sc' ses)
  from handle_connection_opens [OF closed_early(3)] have "sc_table sc' = sc_table sc" "sc_registry sc' = sc_registry sc"
    by simp_all
  with closed_early assms(3) show ?thesis using system_inv_same by simp
next
  case (request sc ses r)
  with system_inv_request assms(2,3) show ?thesis by simp
next
  case (finish sc ses1 se ses2)
  with assms(3) show ?thesis by (auto simp: system_inv_def)
qed


text \<open>
  An HTTP/2 connection is not cut when the route of its branch changes: whatever route was chosen
  for it, it is subscribed to the shared channel, so closing the channels of any list of branches
  leaves it open, although its upstream may be the devbox or the service of one of them.
\<close>

theorem http2_session_outlives_branch_updates:
  assumes "registry_inv reg"
    and "handle_http2_proxy ks parse_uuid first_stream env table reg proxy_port data = (Ok (Some se), reg')"
  shows "se_channel se \<notin> closed_channels (shutdown_branches reg' (map Some branches))"
proof -
  have new: "reg' = snd (subscribe reg None)" "se_channel se = fst (subscribe reg None)"
    using handle_http2_proxy_opens [OF assms(2)] by (auto simp: opens_def)
  have "registry_inv (fold (\<lambda>b r. shutdown_branch r b) keys reg'')
      \<and> reg_current (fold (\<lambda>b r. shutdown_branch r b) keys reg'') None ch"
    if "registry_inv reg''" "reg_current reg'' None ch" "None \<notin> set keys" for keys reg'' ch
    using that by (induction keys arbitrary: reg'') (auto intro: bus.inv_shut bus.shut_keeps)
  then have "registry_inv (shutdown_branches reg' (map Some branches))
      \<and> reg_current (shutdown_branches reg' (map Some branches)) None (se_channel se)"
    unfolding shutdown_branches_def new
    using assms(1) bus.inv_sub bus.sub_current by simp
  then show ?thesis
    using bus.current_open by blast
qed

section \<open>HTTP/2 trace state\<close>

lemma trim_no_comma: "CHR '','' \<notin> set e \<Longrightarrow> CHR '','' \<notin> set (trim e)"
  by (auto simp: trim_def trim_start_def trim_end_def dest!: set_dropWhileD)

lemma trim_idem [simp]: "trim (trim e) = trim e"
proof -
  have start: "dropWhile is_whitespace (trim e) = trim e"
  proof (cases "trim e")
    case (Cons c cs)
    let ?t = "dropWhile is_whitespace e"
    have "\<exists>w. ?t = trim e @ w"
      unfolding trim_def trim_end_def trim_start_def
      by (metis rev_append rev_rev_ident takeWhile_dropWhile_id)
    then obtain w where "?t = (c # cs) @ w" using Cons by auto
    then have "hd ?t = c" "?t \<noteq> []" by (simp_all only: append_Cons list.sel list.distinct not_False_eq_True)
    then have "\<not> is_whitespace c" by (metis hd_dropWhile)
    with Cons show ?thesis by simp
  qed simp
  have idem: "dropWhile P (dropWhile P xs) = dropWhile P xs" for P and xs :: "'a list"
    by (induction xs) auto
  have "trim_end (trim e) = trim e"
    by (simp add: trim_def trim_end_def idem)
  with start show ?thesis
    by (simp add: trim_def [of "trim e"] trim_start_def)
qed

lemma kept_entry: "\<not> is_env_entry (trim e) \<Longrightarrow> tracestate_entry parse_uuid (trim e) = None"
  by (auto simp: is_env_entry_def tracestate_entry_def split: option.splits)

lemma tracestate_value_split:
  assumes "CHR '','' \<notin> set target"
  shows "\<exists>es. split_on (CHR '','') (tracestate_value existing target) = es @ [target]
    \<and> (\<forall>e \<in> set es. tracestate_entry parse_uuid e = None)"
proof (cases existing)
  case None
  with assms show ?thesis by (simp add: tracestate_value_def split_on_no_sep)
next
  case (Some v)
  let ?es = "filter (\<lambda>e. e \<noteq> [] \<and> \<not> is_env_entry e) (map trim (split_on (CHR '','') (from_utf8_lossy v)))"
  have "split_on (CHR '','') (join '','' (?es @ [target])) = ?es @ [target]"
  proof (rule split_on_join)
    have "CHR '','' \<notin> set (trim x)" if "x \<in> set (split_on (CHR '','') (from_utf8_lossy v))" for x
      using that split_on_parts trim_no_comma by blast
    with assms show "\<forall>p \<in> set (?es @ [target]). CHR '','' \<notin> set p" by auto
  qed simp
  then show ?thesis
    by (intro exI [of _ ?es]) (auto simp: Some tracestate_value_def kept_entry)
qed

text \<open>
  A forwarded HTTP/2 request always names the environment its connection is routed to: whatever
  \<^verbatim>\<open>tracestate\<close> the client sent, the next sidecar extracts from the rewritten headers exactly the
  environment id that was written, and no other header changes.
\<close>

theorem http2_tracestate_names_environment:
  assumes "ensure_environment_tracestate from_str show_uuid hs env = Ok hs'"
    and "parse_uuid (show_uuid env) = Some env"
    and "list_all (\<lambda>c. \<not> is_whitespace c \<and> c \<noteq> CHR '','') (show_uuid env)"
  shows "extract_lapdev_environment_id parse_uuid (map_of hs' TRACESTATE_HEADER) = Some env
    \<and> filter (\<lambda>(n, _). n \<noteq> TRACESTATE_HEADER) hs' = filter (\<lambda>(n, _). n \<noteq> TRACESTATE_HEADER) hs"
proof -
  let ?target = "''lapdev-env-id='' @ show_uuid env"
  let ?v = "tracestate_value (map_of hs TRACESTATE_HEADER) ?target"
  from assms(1) have hs': "hs' = filter (\<lambda>(n, _). n \<noteq> TRACESTATE_HEADER) hs @ [(TRACESTATE_HEADER, ?v)]"
    by (auto simp: ensure_environment_tracestate_def Let_def split: if_splits)
  have "map_of (filter (\<lambda>(n, _). n \<noteq> TRACESTATE_HEADER) hs) TRACESTATE_HEADER = None"
    by (auto simp: map_of_eq_None_iff)
  then have "map_of hs' TRACESTATE_HEADER = Some ?v"
    by (simp add: hs' map_add_def)
  moreover obtain es where "split_on (CHR '','') ?v = es @ [?target]"
    "\<forall>e \<in> set es. tracestate_entry parse_uuid e = None"
    using tracestate_value_split [of ?target "map_of hs TRACESTATE_HEADER" parse_uuid] assms(3)
    by (auto simp: list_all_iff)
  moreover have "find_map (tracestate_entry parse_uuid) es = None"
    using calculation(3) by (simp add: find_map_None)
  moreover have "tracestate_entry parse_uuid ?target = Some env"
    using tracestate_entry_lapdev [of "show_uuid env" parse_uuid] assms(2,3) by (simp add: list_all_iff)
  ultimately show ?thesis
    by (simp add: extract_lapdev_environment_id_def hs' find_map_append case_prod_unfold)
qed

lemma prefaced_read_conserves:
  assumes "prefaced_read inner room (p, r) = (Inl bs, p', r')" and "pf_position p \<le> length (pf_buffer p)"
  shows "r' = r \<and> drop (pf_position p) (pf_buffer p) = bs @ drop (pf_position p') (pf_buffer p')
    \<and> pf_position p' \<le> length (pf_buffer p')"
proof -
  let ?n = "min (length (pf_buffer p) - pf_position p) room"
  have "drop (pf_position p) (pf_buffer p) =
      take ?n (drop (pf_position p) (pf_buffer p)) @ drop (pf_position p + ?n) (pf_buffer p)"
    using append_take_drop_id [of ?n "drop (pf_position p) (pf_buffer p)"] by (simp add: add.commute)
  with assms show ?thesis
    by (auto simp: prefaced_read_def Let_def split: if_splits prod.splits)
qed

section \<open>Witnesses\<close>

definition ex_sidecar :: sidecar where
  "ex_sidecar = \<lparr>sc_workload_id = 12, sc_environment_id = 1, sc_table = ex_table, sc_registry = empty_registry\<rparr>"

definition ex_tcp_session :: session where
  "ex_tcp_session = \<lparr>se_kind = TcpSession, se_upstream = ToLocal 80, se_service_port = 80, se_initial_data = [],
     se_key = None, se_channel = 0\<rparr>"

definition ex_parse_id :: "string \<Rightarrow> uuid option" where
  "ex_parse_id s = (if s = ''2'' then Some 2 else None)"

lemma ex_accept:
  "handle_connection [] parse parse_uuid h2 ex_sidecar 80 \<lparr>pending = [], expired = False\<rparr>
    = (Ok (Some ex_tcp_session), ex_sidecar\<lparr>sc_registry := snd (subscribe empty_registry None)\<rparr>)"
proof -
  have "detect_protocol \<lparr>pending = [], expired = False\<rparr> True
      = (Ok \<lparr>protocol = Tcp, buffer = [], timed_out = False\<rparr>, \<lparr>pending = [], expired = False\<rparr>)"
    by code_simp
  then show ?thesis
    by (simp add: handle_connection_def ex_sidecar_def ex_table_def service_port_for_proxy_def resolve_tcp_def
        target_port_for_service_def tcp_upstream_of_def subscribe_def empty_registry_def ex_tcp_session_def
        map_filter_simps)
qed


theorem http2_session_outlives_branch_updates_witness:
  "\<exists>se reg'. handle_http2_proxy [] ex_parse_id (Ok (Some [(''tracestate'', ''lapdev-env-id=2'')])) 1 ex_table
      empty_registry 80 [] = (Ok (Some se), reg')
    \<and> se_upstream se = ToDevbox ex_connection 3000
    \<and> se_channel se \<notin> closed_channels (shutdown_branches reg' [Some 2])"
proof -
  have "lapdev_environment_id (extract_routing_context ex_parse_id [(''tracestate'', ''lapdev-env-id=2'')]) = Some 2"
    by code_simp
  moreover have "resolve_target_port ex_connection 80 = 3000"
    by (simp add: resolve_target_port_def ex_connection_def)
  ultimately obtain se reg' where run:
    "handle_http2_proxy [] ex_parse_id (Ok (Some [(''tracestate'', ''lapdev-env-id=2'')])) 1 ex_table
      empty_registry 80 [] = (Ok (Some se), reg')" "se_upstream se = ToDevbox ex_connection 3000"
    by (simp add: handle_http2_proxy_def determine_connection_route_def upstream_of_def resolve_http_def
        service_port_for_proxy_def subscribe_def empty_registry_def ex_table_def)
  have "registry_inv empty_registry" by (simp add: registry_inv_def empty_registry_def)
  from http2_session_outlives_branch_updates [OF this run(1), of "[2]"] run show ?thesis by auto
qed

theorem http2_tracestate_names_environment_witness:
  "\<exists>hs'. ensure_environment_tracestate (\<lambda>_. True) (\<lambda>_. ''2'') [(''tracestate'', ''a=1, lapdev-env-id=7'')] 2 = Ok hs'
    \<and> extract_lapdev_environment_id ex_parse_id (map_of hs' TRACESTATE_HEADER) = Some 2"
proof -
  obtain hs' where run: "ensure_environment_tracestate (\<lambda>_. True) (\<lambda>_. ''2'')
      [(''tracestate'', ''a=1, lapdev-env-id=7'')] 2 = Ok hs'"
    by (simp add: ensure_environment_tracestate_def Let_def)
  moreover have "ex_parse_id ''2'' = Some 2" "list_all (\<lambda>c. \<not> is_whitespace c \<and> c \<noteq> CHR '','') ''2''"
    by code_simp+
  ultimately show ?thesis
    using http2_tracestate_names_environment [OF run, of ex_parse_id] by simp
qed

section \<open>Limits\<close>

text \<open>
  The step \<open>accept\<close> decides and subscribes at once. The code reads the table, releases its lock and then
  subscribes: a request of the manager between the two leaves a connection on the route it replaced,
  on a channel that is still open.
\<close>

lemma decision_before_update_stays_open:
  "\<exists>sc r up key. upstream_of 80 (Some 2) (resolve_http [] (sc_table sc) 80 (Some 2)) = Ok (up, key)
    \<and> (let sc' = apply_rpc order sc r; (ch, reg') = subscribe (sc_registry sc') key
       in ch \<notin> closed_channels reg'
          \<and> upstream_of 80 key (resolve_http [] (sc_table sc') 80 key) \<noteq> Ok (up, key))"
  by (rule exI [of _ ex_sidecar], rule exI [of _ "StopDevbox (Some 2)"],
      rule exI [of _ "ToDevbox ex_connection 3000"], rule exI [of _ "Some 2"])
    (simp add: ex_sidecar_def ex_table_def resolve_http_def upstream_of_def stop_devbox_def remove_branch_devbox_def
      resolve_target_port_def ex_connection_def subscribe_def shutdown_branch_def empty_registry_def
      service_name_for_port_def new_service_def)

text \<open>A connection that looks like HTTP and does not parse goes to the workload even while a devbox
  intercepts the default route, which a raw TCP connection would follow.\<close>

lemma unparsed_http_skips_default_devbox:
  assumes "rt_default_route t = RouteDevbox c" and "parse data = Err e"
  shows "\<exists>se reg'. handle_http_proxy ks parse parse_uuid t reg port data = (Ok se, reg')
      \<and> se_upstream se = ToLocal (target_port_for_service ks t (service_port_for_proxy t port))
    \<and> resolve_tcp ks t (service_port_for_proxy t port)
        = DefaultDevbox c (resolve_target_port c (service_port_for_proxy t port))"
  using assms
  by (cases "subscribe reg None")
    (simp add: handle_http_proxy_def parse_http_request_from_buffer_def resolve_tcp_def Let_def)

end
