(* ===== verification/Devbox_Connection.thy ===== *)
theory Devbox_Connection
  imports Tunnel_Message Routing_Table
begin

text \<open>
  The tunnel of a devbox route: \<^verbatim>\<open>DevboxConnection\<close> of \<^verbatim>\<open>crates/kube-sidecar-proxy/src/config.rs\<close> and
  \<^verbatim>\<open>connect_with_direct_or_relay\<close> of \<^verbatim>\<open>crates/tunnel/src/client.rs\<close>. The client is created on first use and
  kept in a cell; a client that turns out to be closed is meant to be replaced once.

  What happens outside (the manager's answer, the attempts to connect, the streams) is a function on a
  world \<open>'w\<close>, threaded through the calls in the order the code makes them.
\<close>

section \<open>Choosing a transport\<close>

datatype tunnel_mode = Direct | Relay

record ('w, 'cfg, 'ws, 'c) tunnel_env =
  request_direct_config :: "'w \<Rightarrow> (string + (string + 'cfg option)) \<times> 'w"
  connect_tunnel :: "'cfg \<Rightarrow> 'w \<Rightarrow> (tunnel_error + 'c) \<times> 'w"
  ws_connector :: "'w \<Rightarrow> (tunnel_error + 'ws) \<times> 'w"
  relay_client_connection :: "'ws \<Rightarrow> 'w \<Rightarrow> (tunnel_error + 'c) \<times> 'w"

definition fetch_direct_config :: "('w, 'cfg, 'ws, 'c) tunnel_env \<Rightarrow> 'w \<Rightarrow> (string + 'cfg option) \<times> 'w" where
  "fetch_direct_config env w =
     (case request_direct_config env w of
        (Inr (Inr config), w') \<Rightarrow> (Ok config, w')
      | (Inr (Inl err), w') \<Rightarrow> (Err err, w')
      | (Inl err, w') \<Rightarrow> (Err (''failed to request direct config from manager RPC: '' @ err), w'))"

definition connect_with_direct_or_relay ::
    "('w, 'cfg, 'ws, 'c) tunnel_env \<Rightarrow> 'cfg option \<Rightarrow> 'w \<Rightarrow> (tunnel_error + 'c \<times> tunnel_mode) \<times> 'w" where
  "connect_with_direct_or_relay env direct w =
     (let relay = (\<lambda>w. case ws_connector env w of
            (Inl e, w') \<Rightarrow> (Err e, w')
          | (Inr ws, w') \<Rightarrow>
              (case relay_client_connection env ws w' of
                 (Inl e, w'') \<Rightarrow> (Err e, w'')
               | (Inr c, w'') \<Rightarrow> (Ok (c, Relay), w'')))
      in case direct of
           Some config \<Rightarrow>
             (case connect_tunnel env config w of
                (Inr c, w') \<Rightarrow> (Ok (c, Direct), w')
              | (Inl _, w') \<Rightarrow> relay w')
         | None \<Rightarrow> relay w)"

definition create_client :: "('w, 'cfg, 'ws, 'c) tunnel_env \<Rightarrow> 'w \<Rightarrow> (tunnel_error + 'c) \<times> 'w" where
  "create_client env w =
     (case fetch_direct_config env w of
        (res, w') \<Rightarrow>
          (let direct_config = (case res of Inr config \<Rightarrow> config | Inl _ \<Rightarrow> None)
           in case connect_with_direct_or_relay env direct_config w' of
                (Inl e, w'') \<Rightarrow> (Err e, w'')
              | (Inr (c, _), w'') \<Rightarrow> (Ok c, w'')))"

section \<open>The cell and the retry\<close>

definition ensure_client ::
    "('w \<Rightarrow> (tunnel_error + 'c) \<times> 'w) \<Rightarrow> 'c option \<Rightarrow> 'w \<Rightarrow> (tunnel_error + 'c) \<times> 'c option \<times> 'w" where
  "ensure_client create cell w =
     (case cell of
        Some client \<Rightarrow> (Ok client, cell, w)
      | None \<Rightarrow>
          (case create w of
             (Inl e, w') \<Rightarrow> (Err e, None, w')
           | (Inr client, w') \<Rightarrow> (Ok client, Some client, w')))"

text \<open>\<open>connect_tcp\<close> opens a stream of the client to the given host and port.\<close>

definition connect_tcp_stream ::
    "('w \<Rightarrow> (tunnel_error + 'c) \<times> 'w) \<Rightarrow> ('c \<Rightarrow> string \<Rightarrow> u16 \<Rightarrow> 'w \<Rightarrow> (tunnel_error + 's) \<times> 'w)
     \<Rightarrow> string \<Rightarrow> u16 \<Rightarrow> 'c option \<Rightarrow> 'w \<Rightarrow> (io_error + 's) \<times> 'c option \<times> 'w" where
  "connect_tcp_stream create connect_tcp host port cell w =
     (case ensure_client create cell w of
        (Inl e, cell, w) \<Rightarrow> (Err (io_error_of_tunnel e), cell, w)
      | (Inr client, cell, w) \<Rightarrow>
          (case connect_tcp client host port w of
             (Inr stream, w) \<Rightarrow> (Ok stream, cell, w)
           | (Inl ConnectionClosed, w) \<Rightarrow>
               (case ensure_client create None w of
                  (Inl e, cell, w) \<Rightarrow> (Err (io_error_of_tunnel e), cell, w)
                | (Inr client, cell, w) \<Rightarrow>
                    (case connect_tcp client host port w of
                       (Inr stream, w) \<Rightarrow> (Ok stream, cell, w)
                     | (Inl e, w) \<Rightarrow> (Err (io_error_of_tunnel e), cell, w)))
           | (Inl e, w) \<Rightarrow> (Err (io_error_of_tunnel e), cell, w)))"

text \<open>\<^verbatim>\<open>TunnelClient::connect_tcp\<close>: \<open>open_bi\<close> is the outcome of opening a QUIC stream, \<open>peer\<close> what comes back.\<close>

definition connect_tcp ::
    "('c \<Rightarrow> 'w \<Rightarrow> io_error + send_stream) \<Rightarrow> ('c \<Rightarrow> 'w \<Rightarrow> string \<Rightarrow> recv_stream)
     \<Rightarrow> 'c \<Rightarrow> string \<Rightarrow> u16 \<Rightarrow> 'w \<Rightarrow> (tunnel_error + recv_stream) \<times> 'w" where
  "connect_tcp open_bi peer c host port w =
     (connect_with_protocol (open_bi c w) (peer c w) ProtoTcp \<lparr>target_host = host, target_port = port\<rparr>, w)"

section \<open>Properties\<close>

lemma relay_total:
  assumes "\<forall>w. \<exists>ws w'. ws_connector env w = (Ok ws, w')"
    and "\<forall>ws w. \<exists>c w'. relay_client_connection env ws w = (Ok c, w')"
  shows "\<exists>r w'. connect_with_direct_or_relay env direct w = (Ok r, w')"
proof -
  have relay: "\<exists>r w'. (case ws_connector env w of
            (Inl e, w') \<Rightarrow> (Err e, w')
          | (Inr ws, w') \<Rightarrow>
              (case relay_client_connection env ws w' of
                 (Inl e, w'') \<Rightarrow> (Err e, w'')
               | (Inr c, w'') \<Rightarrow> (Ok (c, Relay), w''))) = (Ok r, w')" for w
  proof -
    obtain ws w1 where ws: "ws_connector env w = (Ok ws, w1)" using assms(1) by blast
    obtain c w2 where "relay_client_connection env ws w1 = (Ok c, w2)" using assms(2) by blast
    with ws show ?thesis by simp
  qed
  show ?thesis
  proof (cases direct)
    case (Some config)
    then show ?thesis
      using relay
      by (cases "connect_tunnel env config w"; cases "fst (connect_tunnel env config w)")
        (auto simp: connect_with_direct_or_relay_def)
  qed (use relay in \<open>simp add: connect_with_direct_or_relay_def\<close>)
qed

text \<open>
  The relay is enough: if the relay can always be reached, a devbox client is always created,
  whatever the manager answers (an error, no configuration, a configuration) and however the direct
  attempt ends.
\<close>

theorem relay_suffices:
  assumes "\<forall>w. \<exists>ws w'. ws_connector env w = (Ok ws, w')"
    and "\<forall>ws w. \<exists>c w'. relay_client_connection env ws w = (Ok c, w')"
  shows "\<exists>c w'. create_client env w = (Ok c, w')"
proof -
  obtain res w1 where f: "fetch_direct_config env w = (res, w1)" by force
  obtain r w2 where "connect_with_direct_or_relay env (case res of Inr config \<Rightarrow> config | Inl _ \<Rightarrow> None) w1 = (Ok r, w2)"
    using relay_total [OF assms] by blast
  then show ?thesis
    by (cases r) (simp add: create_client_def f)
qed

text \<open>
  A stream opened through the cell: a closed cached client is replaced by exactly one new client,
  whose outcome is final; any other failure is returned and the cached client stays; in every case at
  most one client is created and the cell holds the client that was used last.
\<close>

lemma connect_retries_once:
  assumes "tcp c host port w = (first, w1)"
  shows "connect_tcp_stream create tcp host port (Some c) w =
    (case first of
       Inr stream \<Rightarrow> (Ok stream, Some c, w1)
     | Inl e \<Rightarrow>
         (if e \<noteq> ConnectionClosed then (Err (io_error_of_tunnel e), Some c, w1)
          else (case create w1 of
                  (Inl e', w2) \<Rightarrow> (Err (io_error_of_tunnel e'), None, w2)
                | (Inr c', w2) \<Rightarrow>
                    (case tcp c' host port w2 of (second, w3) \<Rightarrow> (map_err io_error_of_tunnel second, Some c', w3)))))"
  using assms
  by (auto simp: connect_tcp_stream_def ensure_client_def map_err_def
      split: prod.splits sum.splits tunnel_error.splits)

text \<open>Calls one after the other, each on the cell and the world the previous one left.\<close>

fun connect_repeatedly ::
    "('w \<Rightarrow> (tunnel_error + 'c) \<times> 'w) \<Rightarrow> ('c \<Rightarrow> string \<Rightarrow> u16 \<Rightarrow> 'w \<Rightarrow> (tunnel_error + 's) \<times> 'w)
     \<Rightarrow> (string \<times> u16) list \<Rightarrow> 'c option \<Rightarrow> 'w \<Rightarrow> (io_error + 's) list \<times> 'c option \<times> 'w" where
  "connect_repeatedly create tcp [] cell w = ([], cell, w)"
| "connect_repeatedly create tcp ((host, port) # ts) cell w =
     (case connect_tcp_stream create tcp host port cell w of
        (res, cell', w') \<Rightarrow> apfst ((#) res) (connect_repeatedly create tcp ts cell' w'))"

text \<open>
  A cached client whose QUIC connection is gone is never replaced: opening a stream on it fails
  with a transport error, which is not the error the retry looks for, so every later call on the same
  devbox connection fails with that error, although a new client could be created.
\<close>

theorem dead_client_kept:
  assumes "\<forall>w. open_bi c w = Err e"
  shows "connect_repeatedly create (connect_tcp open_bi peer) ts (Some c) w = (map (\<lambda>_. Err e) ts, Some c, w)"
proof (induction ts)
  case (Cons t ts)
  obtain host port where t: "t = (host, port)" by force
  have "connect_tcp_stream create (connect_tcp open_bi peer) host port (Some c) w = (Err e, Some c, w)"
    using assms by (simp add: connect_tcp_stream_def ensure_client_def connect_tcp_def connect_with_protocol_def
        io_error_of_tunnel_def)
  with Cons t show ?case by simp
qed simp

section \<open>Witnesses\<close>

definition ex_tunnel_env :: "(nat, unit, unit, nat) tunnel_env" where
  "ex_tunnel_env =
     \<lparr>request_direct_config = (\<lambda>w. (Ok (Ok (Some ())), Suc w)),
      connect_tunnel = (\<lambda>_ w. (Err (Remote ''no candidate''), Suc w)),
      ws_connector = (\<lambda>w. (Ok (), Suc w)),
      relay_client_connection = (\<lambda>_ w. (Ok w, Suc w))\<rparr>"

theorem relay_suffices_witness: "\<exists>c w'. create_client ex_tunnel_env 0 = (Ok c, w')"
  by (rule relay_suffices) (simp_all add: ex_tunnel_env_def)

theorem dead_client_kept_witness:
  "fst (connect_repeatedly (\<lambda>w. (Ok True, w)) (connect_tcp (\<lambda>alive w. if alive then Ok ex_send else Err EOF_ERROR)
      (\<lambda>_ _ _. \<lparr>rx_bytes = [char_of (1 :: nat)], rx_end = None\<rparr>)) [(''127.0.0.1'', 80), (''127.0.0.1'', 80)]
      (Some False) (0 :: nat))
    = [Err EOF_ERROR, Err EOF_ERROR]"
  using dead_client_kept [of "\<lambda>alive (w :: nat). if alive then Ok ex_send else Err EOF_ERROR" False EOF_ERROR]
  by (simp del: connect_repeatedly.simps)

end
