(* ===== verification/Stun.thy ===== *)
theory Stun
  imports Lapdev_Prelude
begin

text \<open>
  Finding and announcing the public address of a direct endpoint, from \<^verbatim>\<open>crates/tunnel/src/direct\<close>:
  \<^item> \<^verbatim>\<open>stun.rs\<close>: parsing of STUN binding responses, the probes and the observed address;
  \<^item> \<^verbatim>\<open>probe.rs\<close>: the packets an endpoint sends to open a path;
  \<^item> \<^verbatim>\<open>udp.rs\<close>: the socket shared by QUIC and STUN, which takes STUN packets out of what it receives.
  A packet is a list of bytes (8-bit words). Transaction ids, which the code draws at random, and the
  outcome of a request to a server are arguments.
\<close>

section \<open>Bytes\<close>

definition be16 :: "u8 \<Rightarrow> u8 \<Rightarrow> u16" where
  "be16 a b = push_bit 8 (ucast a) OR ucast b"

definition to_be16 :: "u16 \<Rightarrow> bytes" where
  "to_be16 w = [ucast (drop_bit 8 w), ucast w]"

definition slice :: "nat \<Rightarrow> nat \<Rightarrow> 'a list \<Rightarrow> 'a list" where
  "slice i j xs = take (j - i) (drop i xs)"

section \<open>Messages\<close>

definition STUN_MAGIC_COOKIE :: bytes where "STUN_MAGIC_COOKIE = [0x21, 0x12, 0xA4, 0x42]"

text \<open>\<^verbatim>\<open>(STUN_MAGIC_COOKIE >> 16) as u16\<close>\<close>

definition COOKIE_HIGH :: u16 where "COOKIE_HIGH = 0x2112"

definition STUN_HEADER_SIZE :: nat where "STUN_HEADER_SIZE = 20"

definition STUN_BINDING_REQUEST :: u16 where "STUN_BINDING_REQUEST = 0x0001"

definition STUN_BINDING_SUCCESS :: u16 where "STUN_BINDING_SUCCESS = 0x0101"

definition STUN_ATTR_MAPPED_ADDRESS :: u16 where "STUN_ATTR_MAPPED_ADDRESS = 0x0001"

definition STUN_ATTR_XOR_MAPPED_ADDRESS :: u16 where "STUN_ATTR_XOR_MAPPED_ADDRESS = 0x0020"

definition parse_mapped_address :: "bytes \<Rightarrow> socket_addr option" where
  "parse_mapped_address value =
     (if length value < 4 then None
      else
        (let family = value ! 1; port = be16 (value ! 2) (value ! 3) in
         if family = 0x01 then
           (if length value < 8 then None else Some \<lparr>sa_ip = V4 (slice 4 8 value), sa_port = port\<rparr>)
         else if family = 0x02 then
           (if length value < 20 then None else Some \<lparr>sa_ip = V6 (slice 4 20 value), sa_port = port\<rparr>)
         else None))"

definition xor_bytes :: "bytes \<Rightarrow> bytes \<Rightarrow> bytes" where
  "xor_bytes xs ys = map2 (\<lambda>x y. x XOR y) xs ys"

definition parse_xor_mapped_address :: "bytes \<Rightarrow> bytes \<Rightarrow> socket_addr option" where
  "parse_xor_mapped_address value transaction_id =
     (if length value < 4 then None
      else
        (let family = value ! 1; port = be16 (value ! 2) (value ! 3) XOR COOKIE_HIGH in
         if family = 0x01 then
           (if length value < 8 then None
            else Some \<lparr>sa_ip = V4 (xor_bytes (slice 4 8 value) STUN_MAGIC_COOKIE), sa_port = port\<rparr>)
         else if family = 0x02 then
           (if length value < 20 then None
            else Some \<lparr>sa_ip = V6 (xor_bytes (slice 4 20 value) (STUN_MAGIC_COOKIE @ transaction_id)),
                       sa_port = port\<rparr>)
         else None))"

definition invalid :: "string \<Rightarrow> io_error + 'a" where
  "invalid msg = Err (IoError InvalidData msg)"

text \<open>The \<^verbatim>\<open>while\<close> loop over the attributes from \<open>offset\<close>; \<open>fin\<close> is the end of the message.\<close>

function stun_attributes :: "bytes \<Rightarrow> bytes \<Rightarrow> nat \<Rightarrow> nat \<Rightarrow> io_error + socket_addr option" where
  "stun_attributes data transaction_id offset fin =
     (if offset + 4 \<le> fin then
        (let attr_type = be16 (data ! offset) (data ! (offset + 1));
             attr_len = unat (be16 (data ! (offset + 2)) (data ! (offset + 3)));
             value_start = offset + 4;
             value_end = value_start + attr_len
         in if value_end > length data then invalid ''STUN attribute exceeds message length''
            else
              (let value = slice value_start value_end data;
                   found =
                     (if attr_type = STUN_ATTR_XOR_MAPPED_ADDRESS then parse_xor_mapped_address value transaction_id
                      else if attr_type = STUN_ATTR_MAPPED_ADDRESS then parse_mapped_address value
                      else None)
               in case found of
                    Some addr \<Rightarrow> Ok (Some addr)
                  | None \<Rightarrow>
                      (let padding = (4 - attr_len mod 4) mod 4
                       in stun_attributes data transaction_id (value_end + padding) fin)))
      else Ok None)"
  by pat_completeness auto
termination
  by (relation "measure (\<lambda>(data, transaction_id, offset, fin). fin - offset)") auto

declare stun_attributes.simps [simp del]

definition parse_stun_response :: "bytes \<Rightarrow> bytes \<Rightarrow> io_error + socket_addr option" where
  "parse_stun_response data transaction_id =
     (if length data < STUN_HEADER_SIZE then invalid ''STUN response too short''
      else if be16 (data ! 0) (data ! 1) \<noteq> STUN_BINDING_SUCCESS then invalid ''unexpected STUN response type''
      else
        (let message_len = unat (be16 (data ! 2) (data ! 3)) in
         if length data < STUN_HEADER_SIZE + message_len then invalid ''STUN response truncated''
         else if slice 4 8 data \<noteq> STUN_MAGIC_COOKIE then invalid ''invalid STUN magic cookie''
         else if slice 8 20 data \<noteq> transaction_id then invalid ''mismatched STUN transaction id''
         else stun_attributes data transaction_id STUN_HEADER_SIZE (STUN_HEADER_SIZE + message_len)))"

section \<open>Probes\<close>

definition encode_xor_mapped_address :: "socket_addr \<Rightarrow> bytes \<Rightarrow> bytes" where
  "encode_xor_mapped_address addr transaction_id =
     (let port_bytes = to_be16 (sa_port addr XOR COOKIE_HIGH);
          (family, raw_ip_bytes) = (case sa_ip addr of
              V4 octets \<Rightarrow> (0x01 :: u8, xor_bytes octets STUN_MAGIC_COOKIE)
            | V6 octets \<Rightarrow> (0x02, xor_bytes octets (STUN_MAGIC_COOKIE @ transaction_id)));
          value_len = 4 + length raw_ip_bytes
      in to_be16 STUN_ATTR_XOR_MAPPED_ADDRESS @ to_be16 (of_nat value_len)
           @ [0, family] @ port_bytes @ raw_ip_bytes)"

definition build_response_probe_payload :: "bytes \<Rightarrow> socket_addr \<Rightarrow> bytes" where
  "build_response_probe_payload transaction_id target =
     (let attr = encode_xor_mapped_address target transaction_id
      in to_be16 STUN_BINDING_SUCCESS @ to_be16 (of_nat (length attr)) @ STUN_MAGIC_COOKIE @ transaction_id @ attr)"

definition build_request_probe_payload :: "bytes \<Rightarrow> bytes" where
  "build_request_probe_payload transaction_id =
     to_be16 STUN_BINDING_REQUEST @ [0, 0] @ STUN_MAGIC_COOKIE @ transaction_id"

section \<open>Requests and the observed address\<close>

text \<open>What becomes of a request: sending fails, the answer arrives, the waiter is dropped, time is up.\<close>

datatype stun_event = SendFailed io_error | Answer bytes | WaiterDropped | WaitTimeout

definition send_async_stun_binding_request :: "bytes \<Rightarrow> stun_event \<Rightarrow> io_error + socket_addr option" where
  "send_async_stun_binding_request transaction_id ev =
     (case ev of
        SendFailed err \<Rightarrow> Err err
      | Answer datagram \<Rightarrow> parse_stun_response datagram transaction_id
      | WaiterDropped \<Rightarrow> Err (IoError ConnectionAborted ''STUN waiter dropped'')
      | WaitTimeout \<Rightarrow> Err (IoError io_kind.TimedOut ''STUN keepalive timed out''))"

text \<open>\<open>tries\<close> has one transaction id and one event per server.\<close>

fun run_stun_probes :: "(bytes \<times> stun_event) list \<Rightarrow> socket_addr option" where
  "run_stun_probes [] = None"
| "run_stun_probes ((tid, ev) # tries) =
     (case send_async_stun_binding_request tid ev of
        Inr (Some addr) \<Rightarrow> Some addr
      | _ \<Rightarrow> run_stun_probes tries)"

definition update_observed_addr :: "socket_addr option \<Rightarrow> socket_addr \<Rightarrow> bool \<times> socket_addr option" where
  "update_observed_addr guard new_addr =
     (if guard \<noteq> Some new_addr then (True, Some new_addr) else (False, guard))"

definition keepalive_round :: "(bytes \<times> stun_event) list \<Rightarrow> socket_addr option \<Rightarrow> socket_addr option" where
  "keepalive_round tries observed =
     fold (\<lambda>(tid, ev) obs.
       case send_async_stun_binding_request tid ev of
         Inr (Some addr) \<Rightarrow> snd (update_observed_addr obs addr)
       | _ \<Rightarrow> obs) tries observed"

section \<open>The shared socket\<close>

text \<open>
  A waiter is a number; \<open>answers\<close> holds what was sent to a waiter, \<open>dropped\<close> the waiters whose sender is
  gone without an answer.
\<close>

record stun_waiters =
  waiters :: "bytes \<rightharpoonup> nat"
  next_waiter :: nat
  answers :: "nat \<rightharpoonup> bytes"
  dropped :: "nat set"

definition register_stun_waiter :: "stun_waiters \<Rightarrow> bytes \<Rightarrow> nat \<times> stun_waiters" where
  "register_stun_waiter st tid =
     (next_waiter st,
      st\<lparr>waiters := (waiters st)(tid \<mapsto> next_waiter st), next_waiter := next_waiter st + 1,
         dropped := dropped st \<union> set_option (waiters st tid)\<rparr>)"

definition cancel_stun_waiter :: "stun_waiters \<Rightarrow> bytes \<Rightarrow> stun_waiters" where
  "cancel_stun_waiter st tid =
     st\<lparr>waiters := (waiters st)(tid := None), dropped := dropped st \<union> set_option (waiters st tid)\<rparr>"

definition is_stun_packet :: "bytes \<Rightarrow> bool" where
  "is_stun_packet packet =
     (if length packet < STUN_HEADER_SIZE then False
      else if (packet ! 0) AND 0xC0 \<noteq> 0 then False
      else
        (let message_len = unat (be16 (packet ! 2) (packet ! 3)) in
         if STUN_HEADER_SIZE + message_len > length packet then False
         else slice 4 8 packet = STUN_MAGIC_COOKIE))"

definition try_handle_stun :: "stun_waiters \<Rightarrow> bytes \<Rightarrow> bool \<times> stun_waiters" where
  "try_handle_stun st packet =
     (if \<not> is_stun_packet packet then (False, st)
      else if be16 (packet ! 0) (packet ! 1) \<noteq> STUN_BINDING_SUCCESS then (True, st)
      else
        (let transaction_id = slice 8 20 packet in
         case waiters st transaction_id of
           Some w \<Rightarrow> (True, st\<lparr>waiters := (waiters st)(transaction_id := None), answers := (answers st)(w \<mapsto> packet)\<rparr>)
         | None \<Rightarrow> (True, st)))"

text \<open>
  The batch of received datagrams: buffers, and for each its length and sender. Packets that are kept
  are moved to the front in place. \<open>None\<close> is the panic of a slice out of range.
\<close>

record recv_meta =
  rm_len :: nat
  rm_addr :: socket_addr

definition packet_at :: "bytes list \<Rightarrow> recv_meta list \<Rightarrow> nat \<Rightarrow> bytes" where
  "packet_at bufs meta i = take (rm_len (meta ! i)) (bufs ! i)"

function filter_loop ::
    "nat \<Rightarrow> nat \<Rightarrow> nat \<Rightarrow> bytes list \<Rightarrow> recv_meta list \<Rightarrow> stun_waiters
     \<Rightarrow> (nat \<times> bytes list \<times> recv_meta list \<times> stun_waiters) option" where
  "filter_loop idx count kept bufs meta st =
     (if idx < count then
        (if idx \<ge> length meta \<or> idx \<ge> length bufs \<or> rm_len (meta ! idx) > length (bufs ! idx) then None
         else
           (let len = rm_len (meta ! idx); packet = take len (bufs ! idx) in
            case try_handle_stun st packet of
              (True, st') \<Rightarrow> filter_loop (idx + 1) count kept bufs meta st'
            | (False, st') \<Rightarrow>
                (if kept \<noteq> idx then
                   (if len > length (bufs ! kept) then None
                    else filter_loop (idx + 1) count (kept + 1)
                           (bufs[kept := packet @ drop len (bufs ! kept)]) (meta[kept := meta ! idx]) st')
                 else filter_loop (idx + 1) count (kept + 1) bufs meta st')))
      else Some (kept, bufs, meta, st))"
  by pat_completeness auto
termination
  by (relation "measure (\<lambda>(idx, count, _). count - idx)") auto

declare filter_loop.simps [simp del]

definition filter_stun_packets ::
    "stun_waiters \<Rightarrow> bytes list \<Rightarrow> recv_meta list \<Rightarrow> nat
     \<Rightarrow> (nat \<times> bytes list \<times> recv_meta list \<times> stun_waiters) option" where
  "filter_stun_packets st bufs meta count = filter_loop 0 count 0 bufs meta st"

section \<open>Byte order and exclusive or\<close>

lemma be16_to_be16 [be_simps]: "be16 (ucast (drop_bit 8 w)) (ucast w) = w"
  by (intro bit_word_eqI) (auto simp: be16_def bit_simps)

lemma length_to_be16 [simp]: "length (to_be16 w) = 2"
  by (simp add: to_be16_def)

lemma unat_len16: "n < 65536 \<Longrightarrow> unat (of_nat n :: u16) = n"
  by (simp add: unat_of_nat)

lemma length_xor_bytes [simp]: "length (xor_bytes xs ys) = min (length xs) (length ys)"
  by (simp add: xor_bytes_def)

lemma xor_bytes_involution: "length xs \<le> length ys \<Longrightarrow> xor_bytes (xor_bytes xs ys) ys = xs"
proof (induction xs arbitrary: ys)
  case (Cons x xs)
  then obtain y zs where "ys = y # zs" by (cases ys) auto
  with Cons show ?case by (simp add: xor_bytes_def xor.assoc)
qed (simp add: xor_bytes_def)

lemma slice_middle: "length a = i \<Longrightarrow> i + length b = j \<Longrightarrow> slice i j (a @ b @ c) = b"
  by (auto simp: slice_def)

section \<open>Attributes\<close>

text \<open>The wire form of an attribute: type, length, value and the padding to a multiple of four.\<close>

definition render_attr :: "u16 \<times> bytes \<times> bytes \<Rightarrow> bytes" where
  "render_attr = (\<lambda>(ty, value, pad). to_be16 ty @ to_be16 (of_nat (length value)) @ value @ pad)"

definition attr_ok :: "u16 \<times> bytes \<times> bytes \<Rightarrow> bool" where
  "attr_ok = (\<lambda>(ty, value, pad). length value < 65536 \<and> length pad = (4 - length value mod 4) mod 4)"

definition attr_address :: "bytes \<Rightarrow> u16 \<times> bytes \<times> bytes \<Rightarrow> socket_addr option" where
  "attr_address tid = (\<lambda>(ty, value, pad).
     if ty = STUN_ATTR_XOR_MAPPED_ADDRESS then parse_xor_mapped_address value tid
     else if ty = STUN_ATTR_MAPPED_ADDRESS then parse_mapped_address value
     else None)"

definition stun_header :: "u16 \<Rightarrow> nat \<Rightarrow> bytes \<Rightarrow> bytes" where
  "stun_header ty len tid = to_be16 ty @ to_be16 (of_nat len) @ STUN_MAGIC_COOKIE @ tid"

lemma stun_attributes_step:
  assumes "attr_ok a" and "data = pre @ render_attr a @ rest" and "nxt = length pre + length (render_attr a)"
  shows "stun_attributes data tid (length pre) (nxt + n)
    = (case attr_address tid a of
         Some addr \<Rightarrow> Ok (Some addr)
       | None \<Rightarrow> stun_attributes data tid nxt (nxt + n))"
proof -
  obtain ty v pad where a: "a = (ty, v, pad)" by (cases a)
  let ?o = "length pre" and ?l = "unat (of_nat (length v) :: u16)"
  have len: "?l = length v" "length pad = (4 - length v mod 4) mod 4"
    using assms(1) by (simp_all add: a attr_ok_def unat_len16)
  have nxt_eq: "nxt = ?o + 4 + length v + length pad"
    using assms(3) by (simp add: a render_attr_def)
  have le: "?o + 4 \<le> nxt + n" "?o + 4 + length v \<le> length data"
    using nxt_eq assms(2) by (simp_all add: a render_attr_def)
  have nth: "be16 (data ! ?o) (data ! (?o + 1)) = ty"
    "be16 (data ! (?o + 2)) (data ! (?o + 3)) = of_nat (length v)"
    unfolding assms(2) using be16_to_be16 by (simp_all add: a render_attr_def to_be16_def nth_append)
  have val: "slice (?o + 4) (?o + 4 + length v) data = v"
    using slice_middle [of "pre @ to_be16 ty @ to_be16 (of_nat (length v))" "?o + 4" v "?o + 4 + length v" "pad @ rest"]
    unfolding assms(2) by (simp add: a render_attr_def)
  have "stun_attributes data tid ?o (nxt + n)
    = (case attr_address tid a of
         Some addr \<Rightarrow> Ok (Some addr)
       | None \<Rightarrow> stun_attributes data tid (?o + 4 + length v + length pad) (nxt + n))"
    unfolding stun_attributes.simps [of data tid ?o] Let_def nth len val
    using le by (simp add: a attr_address_def)
  then show ?thesis by (simp only: nxt_eq)
qed

lemma stun_attributes_list:
  "list_all attr_ok as \<Longrightarrow>
   stun_attributes (pre @ concat (map render_attr as) @ rest) tid (length pre)
     (length pre + length (concat (map render_attr as)))
   = Ok (find_map (attr_address tid) as)"
proof (induction as arbitrary: pre)
  case Nil
  then show ?case by (subst stun_attributes.simps) simp
next
  case (Cons a as)
  let ?more = "concat (map render_attr as)" and ?pre = "pre @ render_attr a"
  have a: "attr_ok a" "list_all attr_ok as" using Cons.prems by simp_all
  have "stun_attributes (pre @ render_attr a @ ?more @ rest) tid (length pre) (length ?pre + length ?more)
    = (case attr_address tid a of
         Some addr \<Rightarrow> Ok (Some addr)
       | None \<Rightarrow> stun_attributes (pre @ render_attr a @ ?more @ rest) tid (length ?pre) (length ?pre + length ?more))"
    using a(1) by (intro stun_attributes_step [where rest = "?more @ rest"]) simp_all
  moreover have "stun_attributes (pre @ render_attr a @ ?more @ rest) tid (length ?pre) (length ?pre + length ?more)
      = Ok (find_map (attr_address tid) as)"
    using Cons.IH [OF a(2), of ?pre] by simp
  ultimately show ?case
    by (simp add: add.assoc split: option.splits)
qed

lemma header_fields:
  assumes "length tid = 12" and "n < 65536" and "data = stun_header ty n tid @ rest"
  shows "length data = 20 + length rest" "be16 (data ! 0) (data ! 1) = ty"
    "unat (be16 (data ! 2) (data ! 3)) = n" "slice 4 8 data = STUN_MAGIC_COOKIE" "slice 8 20 data = tid"
proof -
  show "length data = 20 + length rest"
    using assms by (simp add: stun_header_def STUN_MAGIC_COOKIE_def)
  show "be16 (data ! 0) (data ! 1) = ty" "unat (be16 (data ! 2) (data ! 3)) = n"
    using assms be16_to_be16 by (simp_all add: stun_header_def to_be16_def unat_len16)
  show "slice 4 8 data = STUN_MAGIC_COOKIE"
    using slice_middle [of "to_be16 ty @ to_be16 (of_nat n)" 4 STUN_MAGIC_COOKIE 8 "tid @ rest"]
    by (simp add: assms(3) stun_header_def STUN_MAGIC_COOKIE_def)
  show "slice 8 20 data = tid"
    using slice_middle [of "to_be16 ty @ to_be16 (of_nat n) @ STUN_MAGIC_COOKIE" 8 tid 20 rest] assms(1)
    by (simp add: assms(3) stun_header_def STUN_MAGIC_COOKIE_def)
qed

lemma parse_attributes:
  assumes "length tid = 12" and "list_all attr_ok as" and "length (concat (map render_attr as)) < 65536"
  shows "parse_stun_response (stun_header STUN_BINDING_SUCCESS (length (concat (map render_attr as))) tid
      @ concat (map render_attr as) @ rest) tid = Ok (find_map (attr_address tid) as)"
proof -
  let ?m = "concat (map render_attr as)" and ?h = "stun_header STUN_BINDING_SUCCESS (length (concat (map render_attr as))) tid"
  have "length ?h = 20" using assms(1) by (simp add: stun_header_def STUN_MAGIC_COOKIE_def)
  with stun_attributes_list [OF assms(2), of ?h rest tid] header_fields [OF assms(1,3) refl, of STUN_BINDING_SUCCESS "?m @ rest"]
  show ?thesis
    by (simp add: parse_stun_response_def STUN_HEADER_SIZE_def)
qed

lemma xor_mapped_roundtrip:
  assumes "ip_wf (sa_ip addr)" and "length tid = 12"
  shows "\<exists>v. attr_ok (STUN_ATTR_XOR_MAPPED_ADDRESS, v, [])
    \<and> encode_xor_mapped_address addr tid = render_attr (STUN_ATTR_XOR_MAPPED_ADDRESS, v, [])
    \<and> parse_xor_mapped_address v tid = Some addr"
proof -
  have port: "be16 (ucast (drop_bit 8 (p XOR COOKIE_HIGH))) (ucast (p XOR COOKIE_HIGH)) XOR COOKIE_HIGH = p" for p
    unfolding be16_to_be16 by (simp add: xor.assoc)
  show ?thesis
  proof (cases "sa_ip addr")
    case (V4 os)
    let ?raw = "xor_bytes os STUN_MAGIC_COOKIE"
    let ?v = "[0, 1] @ to_be16 (sa_port addr XOR COOKIE_HIGH) @ ?raw"
    have "length os = 4" using assms(1) V4 by simp
    then have raw: "length ?raw = 4" "xor_bytes ?raw STUN_MAGIC_COOKIE = os"
      by (simp_all add: xor_bytes_involution STUN_MAGIC_COOKIE_def)
    then have "slice 4 8 ?v = ?raw"
      using slice_middle [of "[0, 1] @ to_be16 (sa_port addr XOR COOKIE_HIGH)" 4 ?raw 8 "[]"] by simp
    with raw port [of "sa_port addr"] V4 have "parse_xor_mapped_address ?v tid = Some addr"
      by (cases addr) (simp add: parse_xor_mapped_address_def to_be16_def)
    then show ?thesis
      using V4 raw(1)
      by (intro exI [of _ ?v]) (simp add: attr_ok_def encode_xor_mapped_address_def render_attr_def Let_def)
  next
    case (V6 os)
    let ?raw = "xor_bytes os (STUN_MAGIC_COOKIE @ tid)"
    let ?v = "[0, 2] @ to_be16 (sa_port addr XOR COOKIE_HIGH) @ ?raw"
    have "length os = 16" using assms(1) V6 by simp
    then have raw: "length ?raw = 16" "xor_bytes ?raw (STUN_MAGIC_COOKIE @ tid) = os"
      using assms(2) by (simp_all add: xor_bytes_involution STUN_MAGIC_COOKIE_def)
    then have "slice 4 20 ?v = ?raw"
      using slice_middle [of "[0, 2] @ to_be16 (sa_port addr XOR COOKIE_HIGH)" 4 ?raw 20 "[]"] by simp
    with raw port [of "sa_port addr"] V6 have "parse_xor_mapped_address ?v tid = Some addr"
      by (cases addr) (simp add: parse_xor_mapped_address_def to_be16_def)
    then show ?thesis
      using V6 raw(1)
      by (intro exI [of _ ?v]) (simp add: attr_ok_def encode_xor_mapped_address_def render_attr_def Let_def)
  qed
qed

section \<open>Properties of the messages\<close>

text \<open>
  The parser of binding responses finds the right address: on every success response for the
  transaction made of well-formed attributes, in any number and order and with anything after the
  message, it returns the address of the first attribute that carries one (a mapped address, plain or
  masked), and nothing if there is none. In particular the loop ends and no attribute is misread for
  its neighbour.
\<close>

theorem stun_first_address:
  assumes "length tid = 12" and "list_all attr_ok as" and "length (concat (map render_attr as)) < 65536"
  shows "parse_stun_response (stun_header STUN_BINDING_SUCCESS (length (concat (map render_attr as))) tid
      @ concat (map render_attr as) @ rest) tid = Ok (find_map (attr_address tid) as)"
  by (rule parse_attributes [OF assms])

lemma build_response_attr:
  assumes "ip_wf (sa_ip addr)" and "length tid = 12"
  obtains v where "attr_ok (STUN_ATTR_XOR_MAPPED_ADDRESS, v, [])" "parse_xor_mapped_address v tid = Some addr"
    "build_response_probe_payload tid addr
       = stun_header STUN_BINDING_SUCCESS (length (render_attr (STUN_ATTR_XOR_MAPPED_ADDRESS, v, []))) tid
         @ render_attr (STUN_ATTR_XOR_MAPPED_ADDRESS, v, [])"
    "length (render_attr (STUN_ATTR_XOR_MAPPED_ADDRESS, v, [])) < 65536"
proof -
  obtain v where v: "attr_ok (STUN_ATTR_XOR_MAPPED_ADDRESS, v, [])"
    "encode_xor_mapped_address addr tid = render_attr (STUN_ATTR_XOR_MAPPED_ADDRESS, v, [])"
    "parse_xor_mapped_address v tid = Some addr"
    using xor_mapped_roundtrip [OF assms] by blast
  have "length (encode_xor_mapped_address addr tid) < 65536"
    using assms by (cases "sa_ip addr")
      (simp_all add: encode_xor_mapped_address_def STUN_MAGIC_COOKIE_def Let_def)
  with v that show ?thesis
    by (simp add: build_response_probe_payload_def stun_header_def Let_def)
qed

lemma is_stun_header:
  assumes "length tid = 12" and "n < 65536" and "n \<le> length rest" and "ucast (drop_bit 8 ty) AND 0xC0 = (0 :: u8)"
  shows "is_stun_packet (stun_header ty n tid @ rest)"
  using header_fields [OF assms(1,2) refl, of ty rest] assms
  by (simp add: is_stun_packet_def STUN_HEADER_SIZE_def Let_def) (simp add: stun_header_def to_be16_def)

lemma request_probe_is_stun: "length tid = 12 \<Longrightarrow> is_stun_packet (build_request_probe_payload tid)"
  using is_stun_header [of tid 0 "[]" STUN_BINDING_REQUEST]
  by (simp add: build_request_probe_payload_def stun_header_def to_be16_def STUN_BINDING_REQUEST_def)

lemma response_probe_is_stun:
  assumes "ip_wf (sa_ip addr)" and "length tid = 12"
  shows "is_stun_packet (build_response_probe_payload tid addr)"
proof -
  obtain v where b: "build_response_probe_payload tid addr
       = stun_header STUN_BINDING_SUCCESS (length (render_attr (STUN_ATTR_XOR_MAPPED_ADDRESS, v, []))) tid
         @ render_attr (STUN_ATTR_XOR_MAPPED_ADDRESS, v, [])"
      "length (render_attr (STUN_ATTR_XOR_MAPPED_ADDRESS, v, [])) < 65536"
    using build_response_attr [OF assms] by blast
  have "ucast (drop_bit 8 STUN_BINDING_SUCCESS) AND 0xC0 = (0 :: u8)"
    by (simp add: STUN_BINDING_SUCCESS_def)
  from is_stun_header [OF assms(2) b(2) order_refl this] show ?thesis
    by (simp only: b(1))
qed

text \<open>
  What an endpoint sends to announce an address is read back as that address, for IPv4 and IPv6,
  and both kinds of probe are recognised as STUN, so that they are never handed to QUIC.
\<close>

theorem probe_roundtrip:
  assumes "ip_wf (sa_ip addr)" and "length tid = 12"
  shows "parse_stun_response (build_response_probe_payload tid addr) tid = Ok (Some addr)
    \<and> is_stun_packet (build_response_probe_payload tid addr)
    \<and> is_stun_packet (build_request_probe_payload tid)"
proof -
  obtain v where v: "attr_ok (STUN_ATTR_XOR_MAPPED_ADDRESS, v, [])" "parse_xor_mapped_address v tid = Some addr"
    and b: "build_response_probe_payload tid addr
       = stun_header STUN_BINDING_SUCCESS (length (render_attr (STUN_ATTR_XOR_MAPPED_ADDRESS, v, []))) tid
         @ render_attr (STUN_ATTR_XOR_MAPPED_ADDRESS, v, [])"
      "length (render_attr (STUN_ATTR_XOR_MAPPED_ADDRESS, v, [])) < 65536"
    using build_response_attr [OF assms] by blast
  have "parse_stun_response (build_response_probe_payload tid addr) tid = Ok (Some addr)"
    using parse_attributes [OF assms(2), of "[(STUN_ATTR_XOR_MAPPED_ADDRESS, v, [])]" "[]"] v b
    by (simp add: attr_address_def)
  with request_probe_is_stun [OF assms(2)] response_probe_is_stun [OF assms] show ?thesis by simp
qed

section \<open>Properties of the socket\<close>

lemma fst_try_handle_stun [simp]: "fst (try_handle_stun st p) = is_stun_packet p"
  by (simp add: try_handle_stun_def Let_def split: option.splits)

definition entry :: "bytes list \<Rightarrow> recv_meta list \<Rightarrow> nat \<Rightarrow> bytes \<times> recv_meta" where
  "entry bufs meta i = (packet_at bufs meta i, meta ! i)"

definition batch_ok :: "nat \<Rightarrow> bytes list \<Rightarrow> recv_meta list \<Rightarrow> nat \<Rightarrow> bool" where
  "batch_ok cap bufs meta count \<longleftrightarrow>
     count \<le> length bufs \<and> count \<le> length meta \<and> (\<forall>b \<in> set bufs. length b = cap)
     \<and> (\<forall>i < count. rm_len (meta ! i) \<le> cap)"

abbreviation handle_all :: "bytes list \<Rightarrow> stun_waiters \<Rightarrow> stun_waiters" where
  "handle_all ps st \<equiv> fold (\<lambda>p st. snd (try_handle_stun st p)) ps st"

lemma filter_loop_move:
  assumes "batch_ok cap bufs meta count" and "kept < idx" and "idx < count"
    and "bufs' = bufs[kept := packet_at bufs meta idx @ drop (rm_len (meta ! idx)) (bufs ! kept)]"
    and "meta' = meta[kept := meta ! idx]"
  shows "batch_ok cap bufs' meta' count" and "entry bufs' meta' kept = entry bufs meta idx"
    and "i \<noteq> kept \<Longrightarrow> entry bufs' meta' i = entry bufs meta i"
proof -
  have l: "kept < length bufs" "kept < length meta" "length (bufs ! kept) = cap" "length (bufs ! idx) = cap"
      "rm_len (meta ! idx) \<le> cap"
    using assms(1-3) by (auto simp: batch_ok_def)
  then have p: "length (packet_at bufs meta idx) = rm_len (meta ! idx)"
    by (simp add: packet_at_def)
  with l show "entry bufs' meta' kept = entry bufs meta idx"
    by (simp add: entry_def assms(4,5) packet_at_def)
  show "i \<noteq> kept \<Longrightarrow> entry bufs' meta' i = entry bufs meta i"
    by (simp add: entry_def assms(4,5) packet_at_def)
  show "batch_ok cap bufs' meta' count"
    using assms(1,3) l p
    by (auto simp: batch_ok_def assms(4,5) nth_list_update dest: set_update_subset_insert [THEN subsetD])
qed

lemma filter_loop_spec:
  assumes "batch_ok cap bufs meta count" and "kept \<le> idx" and "idx \<le> count"
  shows "\<exists>k' bufs' meta'.
    filter_loop idx count kept bufs meta st
      = Some (k', bufs', meta', handle_all (map (packet_at bufs meta) [idx..<count]) st)
    \<and> map (entry bufs' meta') [0..<k'] =
        map (entry bufs meta) [0..<kept]
        @ filter (\<lambda>(p, _). \<not> is_stun_packet p) (map (entry bufs meta) [idx..<count])"
  using assms
proof (induction "count - idx" arbitrary: idx kept bufs meta st)
  case 0
  then show ?case by (subst filter_loop.simps) simp
next
  case (Suc n)
  let ?p = "packet_at bufs meta idx"
  let ?st = "snd (try_handle_stun st ?p)"
  from Suc have idx: "idx < count" "n = count - (idx + 1)" "idx + 1 \<le> count" by simp_all
  then have up: "[idx..<count] = idx # [idx + 1..<count]" by (simp add: upt_conv_Cons)
  have ok: "idx < length meta" "idx < length bufs" "rm_len (meta ! idx) \<le> length (bufs ! idx)"
    using Suc.prems(1) idx(1) by (auto simp: batch_ok_def)
  have run: "filter_loop idx count kept bufs meta st =
      (if is_stun_packet ?p then filter_loop (idx + 1) count kept bufs meta ?st
       else if kept \<noteq> idx then
         (if rm_len (meta ! idx) > length (bufs ! kept) then None
          else filter_loop (idx + 1) count (kept + 1) (bufs[kept := ?p @ drop (rm_len (meta ! idx)) (bufs ! kept)])
                 (meta[kept := meta ! idx]) ?st)
       else filter_loop (idx + 1) count (kept + 1) bufs meta ?st)"
  proof -
    obtain st2 where "try_handle_stun st ?p = (is_stun_packet ?p, st2)"
      using fst_try_handle_stun [of st ?p] by (cases "try_handle_stun st ?p") simp
    then show ?thesis
      unfolding filter_loop.simps [of idx count kept bufs meta st] Let_def packet_at_def [symmetric]
      using ok idx(1) by (cases "is_stun_packet ?p") simp_all
  qed
  show ?case
  proof (cases "is_stun_packet ?p")
    case True
    with Suc.hyps(1) [OF idx(2) Suc.prems(1) _ idx(3), of kept ?st] Suc.prems(2) run up show ?thesis
      by (simp add: entry_def)
  next
    case keep: False
    show ?thesis
    proof (cases "kept = idx")
      case True
      with Suc.hyps(1) [OF idx(2) Suc.prems(1) _ idx(3), of "idx + 1" ?st] run keep up show ?thesis
        by (simp add: entry_def)
    next
      case False
      let ?bufs = "bufs[kept := ?p @ drop (rm_len (meta ! idx)) (bufs ! kept)]" and ?meta = "meta[kept := meta ! idx]"
      from False Suc.prems(2) have lt: "kept < idx" by simp
      note move = filter_loop_move [OF Suc.prems(1) lt idx(1) refl refl]
      have "rm_len (meta ! idx) \<le> length (bufs ! kept)"
        using Suc.prems(1) lt idx(1) by (auto simp: batch_ok_def)
      then have go: "filter_loop idx count kept bufs meta st = filter_loop (idx + 1) count (kept + 1) ?bufs ?meta ?st"
        using run keep False by simp
      have "entry ?bufs ?meta i = entry bufs meta i" if "i \<in> set [0..<kept] \<union> set [idx + 1..<count]" for i
        using that lt by (intro move(3)) auto
      then have same: "map (entry ?bufs ?meta) [0..<kept] = map (entry bufs meta) [0..<kept]"
          "map (entry ?bufs ?meta) [idx + 1..<count] = map (entry bufs meta) [idx + 1..<count]"
        by (simp_all add: map_eq_conv)
      have "map (packet_at b m) is = map fst (map (entry b m) is)" for b m "is"
        by (simp add: entry_def)
      with same(2) have pk: "map (packet_at ?bufs ?meta) [idx + 1..<count] = map (packet_at bufs meta) [idx + 1..<count]"
        by (simp only:)
      obtain k' b' m' where ih: "filter_loop (idx + 1) count (kept + 1) ?bufs ?meta ?st
          = Some (k', b', m', handle_all (map (packet_at ?bufs ?meta) [idx + 1..<count]) ?st)"
        "map (entry b' m') [0..<k'] = map (entry ?bufs ?meta) [0..<kept + 1]
          @ filter (\<lambda>(p, _). \<not> is_stun_packet p) (map (entry ?bufs ?meta) [idx + 1..<count])"
        using Suc.hyps(1) [OF idx(2) move(1) _ idx(3), of "kept + 1" ?st] lt by auto
      have "map (entry ?bufs ?meta) [0..<kept + 1] = map (entry bufs meta) [0..<kept] @ [entry bufs meta idx]"
        using same(1) move(2) by simp
      then have "map (entry b' m') [0..<k'] = map (entry bufs meta) [0..<kept]
          @ filter (\<lambda>(p, _). \<not> is_stun_packet p) (map (entry bufs meta) [idx..<count])"
        unfolding ih(2) same(2) up using keep by (simp add: entry_def)
      moreover have "filter_loop idx count kept bufs meta st
          = Some (k', b', m', handle_all (map (packet_at bufs meta) [idx..<count]) st)"
        unfolding go ih(1) pk up by simp
      ultimately show ?thesis by blast
    qed
  qed
qed

text \<open>
  The socket takes STUN packets out and nothing else: moving packets to the front in place yields
  exactly the received packets that are not STUN, in order, each with its sender, without a slice out
  of range, and every STUN packet was offered to the waiters, in order.
\<close>

theorem filter_stun_packets_spec:
  assumes "batch_ok cap bufs meta count"
  shows "\<exists>k' bufs' meta'.
    filter_stun_packets st bufs meta count
      = Some (k', bufs', meta', handle_all (map (packet_at bufs meta) [0..<count]) st)
    \<and> map (entry bufs' meta') [0..<k']
        = filter (\<lambda>(p, _). \<not> is_stun_packet p) (map (entry bufs meta) [0..<count])"
  using filter_loop_spec [OF assms, of 0 0 st] by (simp add: filter_stun_packets_def)

section \<open>Waiting for an answer\<close>

definition answers_to :: "bytes \<Rightarrow> bytes \<Rightarrow> bool" where
  "answers_to tid p \<longleftrightarrow>
     is_stun_packet p \<and> be16 (p ! 0) (p ! 1) = STUN_BINDING_SUCCESS \<and> slice 8 20 p = tid"

definition waiters_inv :: "stun_waiters \<Rightarrow> bool" where
  "waiters_inv st \<longleftrightarrow>
     (\<forall>t w. waiters st t = Some w \<longrightarrow> w < next_waiter st \<and> answers st w = None \<and> w \<notin> dropped st)
     \<and> (\<forall>t t' w. waiters st t = Some w \<longrightarrow> waiters st t' = Some w \<longrightarrow> t = t')
     \<and> (\<forall>w. answers st w \<noteq> None \<longrightarrow> w < next_waiter st \<and> w \<notin> dropped st)
     \<and> (\<forall>w \<in> dropped st. w < next_waiter st)"

lemma try_handle_stun_answer:
  assumes "answers_to tid p" and "waiters st tid = Some w"
  shows "snd (try_handle_stun st p) = st\<lparr>waiters := (waiters st)(tid := None), answers := (answers st)(w \<mapsto> p)\<rparr>"
  using assms by (auto simp: answers_to_def try_handle_stun_def Let_def)

lemma try_handle_stun_cases:
  obtains (unchanged) "snd (try_handle_stun st p) = st"
  | (answered) tid w where "answers_to tid p" "waiters st tid = Some w"
      "snd (try_handle_stun st p) = st\<lparr>waiters := (waiters st)(tid := None), answers := (answers st)(w \<mapsto> p)\<rparr>"
  by (cases "is_stun_packet p \<and> be16 (p ! 0) (p ! 1) = STUN_BINDING_SUCCESS"; cases "waiters st (slice 8 20 p)")
    (auto simp: answers_to_def try_handle_stun_def Let_def)

lemma waiters_inv_try: "waiters_inv st \<Longrightarrow> waiters_inv (snd (try_handle_stun st p))"
  by (cases rule: try_handle_stun_cases [of st p]) (auto simp: waiters_inv_def split: if_splits)

lemma waiters_inv_register: "waiters_inv st \<Longrightarrow> waiters_inv (snd (register_stun_waiter st tid))"
  unfolding waiters_inv_def register_stun_waiter_def
  by (auto split: if_splits) (metis less_SucI less_irrefl option.distinct(1))+

lemma waiters_inv_cancel: "waiters_inv st \<Longrightarrow> waiters_inv (cancel_stun_waiter st tid)"
  unfolding waiters_inv_def cancel_stun_waiter_def
  by (auto split: if_splits)

lemma answered_stays:
  "\<forall>t. waiters st t \<noteq> Some w \<Longrightarrow> answers (handle_all ps st) w = answers st w"
proof (induction ps arbitrary: st)
  case (Cons p ps)
  show ?case
  proof (cases rule: try_handle_stun_cases [of st p])
    case (answered tid v)
    have "answers (handle_all ps (snd (try_handle_stun st p))) w = answers (snd (try_handle_stun st p)) w"
      using Cons.prems answered by (intro Cons.IH) auto
    with answered Cons.prems show ?thesis by auto
  qed (use Cons in simp)
qed simp

text \<open>
  A request gets its own answer: among the packets that arrive after a request registered, its
  waiter receives exactly the first STUN success response with its transaction id, whatever other
  packets and other requests are in between, and nothing if there is none.
\<close>

theorem waiter_gets_first_answer:
  assumes "waiters_inv st" and "register_stun_waiter st tid = (w, st')"
  shows "answers (handle_all ps st') w = find (answers_to tid) ps"
proof -
  have "waiters_inv st'" "waiters st' tid = Some w"
    using waiters_inv_register [OF assms(1), of tid] assms(2) by (auto simp: register_stun_waiter_def)
  then show ?thesis
  proof (induction ps arbitrary: st')
    case Nil
    then show ?case by (simp add: waiters_inv_def)
  next
    case (Cons p ps)
    show ?case
    proof (cases "answers_to tid p")
      case True
      note step = try_handle_stun_answer [OF True Cons.prems(2)]
      have "answers (handle_all ps (snd (try_handle_stun st' p))) w = answers (snd (try_handle_stun st' p)) w"
        unfolding step using Cons.prems by (intro answered_stays) (auto simp: waiters_inv_def)
      with True step show ?thesis by simp
    next
      case False
      have "waiters (snd (try_handle_stun st' p)) tid = Some w"
        using False Cons.prems(2) by (cases rule: try_handle_stun_cases [of st' p]) auto
      with Cons.IH waiters_inv_try [OF Cons.prems(1)] False show ?thesis by simp
    qed
  qed
qed

section \<open>Witnesses\<close>

definition ex_tid :: bytes where "ex_tid = replicate 12 7"

definition ex_addr :: socket_addr where
  "ex_addr = \<lparr>sa_ip = V4 [203, 0, 113, 9], sa_port = 40000\<rparr>"

definition ex_waiters :: stun_waiters where
  "ex_waiters = \<lparr>waiters = Map.empty, next_waiter = 0, answers = Map.empty, dropped = {}\<rparr>"

lemma ex_wf: "ip_wf (sa_ip ex_addr)" "length ex_tid = 12"
  by (simp_all add: ex_addr_def ex_tid_def)

theorem stun_first_address_witness:
  "parse_stun_response (stun_header STUN_BINDING_SUCCESS 20 ex_tid
      @ render_attr (0x8022, [1, 2, 3], [0]) @ render_attr (STUN_ATTR_MAPPED_ADDRESS, [0, 1, 0, 80, 10, 0, 0, 1], [])) ex_tid
    = Ok (Some \<lparr>sa_ip = V4 [10, 0, 0, 1], sa_port = 80\<rparr>)"
proof -
  let ?as = "[(0x8022, [1, 2, 3], [0]), (STUN_ATTR_MAPPED_ADDRESS, [0, 1, 0, 80, 10, 0, 0, 1], [])]"
  have "list_all attr_ok ?as" "length (concat (map render_attr ?as)) = 20"
    by (simp_all add: attr_ok_def render_attr_def)
  moreover have "find_map (attr_address ex_tid) ?as = Some \<lparr>sa_ip = V4 [10, 0, 0, 1], sa_port = 80\<rparr>"
    by (simp add: attr_address_def STUN_ATTR_MAPPED_ADDRESS_def STUN_ATTR_XOR_MAPPED_ADDRESS_def
        parse_mapped_address_def slice_def be16_def)
  ultimately show ?thesis
    using stun_first_address [OF ex_wf(2), of ?as "[]"] by simp
qed

theorem probe_roundtrip_witness:
  "parse_stun_response (build_response_probe_payload ex_tid ex_addr) ex_tid = Ok (Some ex_addr)"
  using probe_roundtrip [OF ex_wf] by simp

theorem filter_stun_packets_spec_witness:
  "\<exists>k' bufs' meta' st'. filter_stun_packets ex_waiters
      [build_request_probe_payload ex_tid, replicate 20 0xFF]
      [\<lparr>rm_len = 20, rm_addr = ex_addr\<rparr>, \<lparr>rm_len = 20, rm_addr = ex_addr\<rparr>] 2 = Some (k', bufs', meta', st')
    \<and> map (entry bufs' meta') [0..<k'] = [(replicate 20 0xFF, \<lparr>rm_len = 20, rm_addr = ex_addr\<rparr>)]"
proof -
  let ?req = "build_request_probe_payload ex_tid" and ?m = "\<lparr>rm_len = 20, rm_addr = ex_addr\<rparr>"
  have len: "length ?req = 20"
    by (simp add: build_request_probe_payload_def STUN_MAGIC_COOKIE_def ex_tid_def)
  then have "batch_ok 20 [?req, replicate 20 0xFF] [?m, ?m] 2"
    by (auto simp: batch_ok_def less_Suc_eq nth_Cons')
  from filter_stun_packets_spec [OF this, of ex_waiters]
  have "\<exists>k' bufs' meta' st'. filter_stun_packets ex_waiters [?req, replicate 20 0xFF] [?m, ?m] 2
        = Some (k', bufs', meta', st')
      \<and> map (entry bufs' meta') [0..<k']
          = filter (\<lambda>(p, _). \<not> is_stun_packet p) (map (entry [?req, replicate 20 0xFF] [?m, ?m]) [0..<2])"
    by blast
  moreover have "is_stun_packet ?req" "\<not> is_stun_packet (replicate 20 0xFF)"
    by (code_simp, simp add: is_stun_packet_def)
  then have "filter (\<lambda>(p, _). \<not> is_stun_packet p) (map (entry [?req, replicate 20 0xFF] [?m, ?m]) [0..<2])
      = [(replicate 20 0xFF, ?m)]"
    using len by (simp add: upt_rec entry_def packet_at_def)
  ultimately show ?thesis by simp
qed

theorem waiter_gets_first_answer_witness:
  "answers (handle_all [[1, 2, 3], build_response_probe_payload ex_tid ex_addr]
      (snd (register_stun_waiter ex_waiters ex_tid))) 0
    = Some (build_response_probe_payload ex_tid ex_addr)"
proof -
  have "waiters_inv ex_waiters" by (simp add: waiters_inv_def ex_waiters_def)
  moreover have "register_stun_waiter ex_waiters ex_tid = (0, snd (register_stun_waiter ex_waiters ex_tid))"
    by (simp add: register_stun_waiter_def ex_waiters_def)
  moreover have "\<not> answers_to ex_tid [1, 2, 3]" "answers_to ex_tid (build_response_probe_payload ex_tid ex_addr)"
    by (simp add: answers_to_def is_stun_packet_def STUN_HEADER_SIZE_def, code_simp)
  ultimately show ?thesis
    using waiter_gets_first_answer [of ex_waiters ex_tid 0 _ "[[1, 2, 3], build_response_probe_payload ex_tid ex_addr]"]
    by simp
qed

end
