(* ===== verification/Relay_Buffer.thy ===== *)
theory Relay_Buffer
  imports Lapdev_Prelude
begin

text \<open>
  \<^verbatim>\<open>crates/tunnel/src/relay.rs\<close>: a WebSocket presented to QUIC as a UDP socket. Datagrams wait in two bounded
  queues: one that QUIC fills and a sender task empties into the WebSocket, one that a receiver task
  fills and QUIC empties.

  The queues and the tasks are modelled as functions on the buffers, one per critical section of the
  code. Wakers (\<^verbatim>\<open>AtomicWaker\<close>) are modelled where it matters, in the two step relations at the end, which
  interleave a polling task with the tasks that change the buffer, instruction by instruction.
\<close>

section \<open>Buffers\<close>

type_synonym datagram = "u8 list"

record datagram_buffer =
  queue :: "datagram list"
  capacity :: nat
  closed :: bool

definition DEFAULT_BUFFER_CAPACITY :: nat where "DEFAULT_BUFFER_CAPACITY = 256"

definition new_buffer :: "nat \<Rightarrow> datagram_buffer" where
  "new_buffer cap = \<lparr>queue = [], capacity = cap, closed = False\<rparr>"

definition enqueue :: "datagram_buffer \<Rightarrow> datagram \<Rightarrow> (io_error + unit) \<times> datagram_buffer" where
  "enqueue b d =
     (if closed b then (Err (IoError ConnectionReset ''send buffer closed''), b)
      else if length (queue b) \<ge> capacity b then (Err (IoError WouldBlock ''send buffer full''), b)
      else (Ok (), b\<lparr>queue := queue b @ [d]\<rparr>))"

definition dequeue :: "datagram_buffer \<Rightarrow> datagram option \<times> datagram_buffer" where
  "dequeue b =
     (case queue b of
        [] \<Rightarrow> (None, b)
      | d # ds \<Rightarrow> (Some d, b\<lparr>queue := ds\<rparr>))"

definition has_capacity :: "datagram_buffer \<Rightarrow> bool" where
  "has_capacity b = (length (queue b) < capacity b)"

definition close_buffer :: "datagram_buffer \<Rightarrow> datagram_buffer" where
  "close_buffer b = b\<lparr>closed := True\<rparr>"

text \<open>One turn of the loops of \<^verbatim>\<open>next_datagram\<close> and \<^verbatim>\<open>push\<close>: a result, or wait to be notified.\<close>

datatype 'a turn = Done 'a | Wait

definition next_datagram :: "datagram_buffer \<Rightarrow> datagram option turn \<times> datagram_buffer" where
  "next_datagram b =
     (case dequeue b of
        (Some d, b') \<Rightarrow> (Done (Some d), b')
      | (None, b') \<Rightarrow> (if closed b then Done None else Wait, b'))"

definition push :: "datagram_buffer \<Rightarrow> datagram \<Rightarrow> (io_error + unit) turn \<times> datagram_buffer" where
  "push b d =
     (if closed b then (Done (Err (IoError ConnectionReset ''receive buffer closed'')), b)
      else if length (queue b) < capacity b then (Done (Ok ()), b\<lparr>queue := queue b @ [d]\<rparr>)
      else (Wait, b))"

text \<open>\<open>room\<close> is the length of the first receive buffer, \<open>None\<close> if there is none. A datagram that does not fit is
  taken from the queue and lost.\<close>

datatype poll_result = Ready "io_error + datagram" | Pending

definition poll_recv :: "datagram_buffer \<Rightarrow> nat option \<Rightarrow> poll_result \<times> datagram_buffer" where
  "poll_recv b room =
     (case room of
        None \<Rightarrow> (Ready (Err (IoError InvalidInput ''no receive buffers provided'')), b)
      | Some n \<Rightarrow>
          (case dequeue b of
             (Some d, b') \<Rightarrow>
               (if n < length d then (Ready (Err (IoError InvalidData ''buffer too small for datagram'')), b')
                else (Ready (Ok d), b'))
           | (None, b') \<Rightarrow>
               (if closed b then Ready (Err (IoError BrokenPipe ''websocket closed'')) else Pending, b')))"

text \<open>\<open>segmented\<close>: whether the transmit asks for segmentation.\<close>

definition try_send :: "datagram_buffer \<Rightarrow> bool \<Rightarrow> datagram \<Rightarrow> (io_error + unit) \<times> datagram_buffer" where
  "try_send b segmented d =
     (if segmented then (Err (IoError InvalidInput ''segmented transmits are not supported''), b)
      else enqueue b d)"

section \<open>The tasks\<close>

datatype ws_message = Binary datagram | Ping datagram | Pong datagram | CloseFrame | Text string

text \<open>
  The sender task: each turn it gets the next datagram, times out, or finds the buffer closed and
  empty; \<open>sends\<close> says for each send whether the sink accepts it. The result is the messages
  sent; the buffer is closed when the task ends.
\<close>

datatype sender_event = Next datagram | KeepaliveDue | BufferClosed

fun run_sender :: "sender_event list \<Rightarrow> bool list \<Rightarrow> ws_message list" where
  "run_sender [] sends = []"
| "run_sender (BufferClosed # evs) sends = []"
| "run_sender (KeepaliveDue # evs) sends =
     (case sends of True # rest \<Rightarrow> Ping [] # run_sender evs rest | _ \<Rightarrow> [])"
| "run_sender (Next d # evs) sends =
     (case sends of True # rest \<Rightarrow> Binary d # run_sender evs rest | _ \<Rightarrow> [])"

text \<open>The messages the receiving end turns into datagrams.\<close>

fun ws_datagram :: "io_error + ws_message \<Rightarrow> (io_error + datagram) option" where
  "ws_datagram (Inr (Binary data)) = Some (Ok data)"
| "ws_datagram (Inr CloseFrame) = None"
| "ws_datagram (Inr _) = None"
| "ws_datagram (Inl err) = Some (Err err)"

definition split_stream :: "(io_error + ws_message) list \<Rightarrow> (io_error + datagram) list" where
  "split_stream msgs = List.map_filter ws_datagram msgs"

text \<open>The receiver task; \<open>pushes\<close> says for each push whether it ends with success (it waits while the buffer is
  full and fails once it is closed). The result is the datagrams that reached the buffer, which is closed
  when the task ends.\<close>

fun run_receiver :: "(io_error + datagram) list \<Rightarrow> bool list \<Rightarrow> datagram list" where
  "run_receiver [] pushes = []"
| "run_receiver (Inl err # rest) pushes = []"
| "run_receiver (Inr d # rest) pushes =
     (case pushes of True # ps \<Rightarrow> d # run_receiver rest ps | _ \<Rightarrow> [])"

section \<open>The interface of a bounded queue\<close>

text \<open>What goes in comes out in order, and never more than the capacity is held.\<close>

locale bounded_fifo =
  fixes contents :: "'b \<Rightarrow> 'x list"
    and cap :: "'b \<Rightarrow> nat"
    and put :: "'b \<Rightarrow> 'x \<Rightarrow> bool \<times> 'b"
    and get :: "'b \<Rightarrow> 'x option \<times> 'b"
  assumes put_contents: "put b x = (accepted, b') \<Longrightarrow> contents b' = (if accepted then contents b @ [x] else contents b)"
    and put_room: "put b x = (True, b') \<Longrightarrow> length (contents b) < cap b"
    and put_cap: "put b x = (accepted, b') \<Longrightarrow> cap b' = cap b"
    and get_contents: "get b = (res, b') \<Longrightarrow> contents b = (case res of Some x \<Rightarrow> x # contents b' | None \<Rightarrow> contents b')"
    and get_cap: "get b = (res, b') \<Longrightarrow> cap b' = cap b"
begin

text \<open>A schedule of attempts to put (\<open>Some x\<close>) and to get (\<open>None\<close>): what was accepted, what came out, and the end.\<close>

fun schedule :: "'x option list \<Rightarrow> 'b \<Rightarrow> 'x list \<times> 'x list \<times> 'b" where
  "schedule [] b = ([], [], b)"
| "schedule (Some x # ops) b =
     (case put b x of (accepted, b') \<Rightarrow>
        (case schedule ops b' of (ins, outs, b'') \<Rightarrow> (if accepted then x # ins else ins, outs, b'')))"
| "schedule (None # ops) b =
     (case get b of (res, b') \<Rightarrow>
        (case schedule ops b' of (ins, outs, b'') \<Rightarrow>
           (ins, case res of Some x \<Rightarrow> x # outs | None \<Rightarrow> outs, b'')))"

lemma schedule_fifo:
  "schedule ops b = (ins, outs, b') \<Longrightarrow> contents b @ ins = outs @ contents b' \<and> cap b' = cap b"
proof (induction ops arbitrary: b ins outs b')
  case (Cons op ops)
  show ?case
  proof (cases op)
    case None
    obtain res b1 where g: "get b = (res, b1)" by force
    obtain ins1 outs1 b2 where s: "schedule ops b1 = (ins1, outs1, b2)" by (metis prod_cases3)
    from Cons.IH [OF s] get_contents [OF g] get_cap [OF g] Cons.prems g s None show ?thesis
      by (auto split: option.splits)
  next
    case (Some x)
    obtain acc b1 where p: "put b x = (acc, b1)" by force
    obtain ins1 outs1 b2 where s: "schedule ops b1 = (ins1, outs1, b2)" by (metis prod_cases3)
    from Cons.IH [OF s] put_contents [OF p] put_cap [OF p] Cons.prems p s Some show ?thesis
      by (auto split: if_splits)
  qed
qed simp

lemma schedule_bounded:
  "schedule ops b = (ins, outs, b') \<Longrightarrow> length (contents b) \<le> cap b \<Longrightarrow> length (contents b') \<le> cap b"
proof (induction ops arbitrary: b ins outs b')
  case (Cons op ops)
  show ?case
  proof (cases op)
    case None
    obtain res b1 where g: "get b = (res, b1)" by force
    obtain ins1 outs1 b2 where s: "schedule ops b1 = (ins1, outs1, b2)" by (metis prod_cases3)
    have "length (contents b1) \<le> cap b1"
      using get_contents [OF g] get_cap [OF g] Cons.prems(2) by (cases res) simp_all
    with Cons.IH [OF s] get_cap [OF g] Cons.prems(1) g s None show ?thesis by simp
  next
    case (Some x)
    obtain acc b1 where p: "put b x = (acc, b1)" by force
    obtain ins1 outs1 b2 where s: "schedule ops b1 = (ins1, outs1, b2)" by (metis prod_cases3)
    have "length (contents b1) \<le> cap b1"
      using put_contents [OF p] put_cap [OF p] put_room [of b x b1] p Cons.prems(2) by (cases acc) auto
    with Cons.IH [OF s] put_cap [OF p] Cons.prems(1) p s Some show ?thesis by simp
  qed
qed simp

end

definition send_put :: "datagram_buffer \<Rightarrow> datagram \<Rightarrow> bool \<times> datagram_buffer" where
  "send_put b d = (case try_send b False d of (res, b') \<Rightarrow> (res = Ok (), b'))"

definition recv_put :: "datagram_buffer \<Rightarrow> datagram \<Rightarrow> bool \<times> datagram_buffer" where
  "recv_put b d = (case push b d of (t, b') \<Rightarrow> (t = Done (Ok ()), b'))"

definition sender_get :: "datagram_buffer \<Rightarrow> datagram option \<times> datagram_buffer" where
  "sender_get b = (case next_datagram b of (Done res, b') \<Rightarrow> (res, b') | (Wait, b') \<Rightarrow> (None, b'))"

lemmas buffer_ops = send_put_def recv_put_def sender_get_def try_send_def enqueue_def push_def
  next_datagram_def dequeue_def

interpretation send_queue: bounded_fifo queue capacity send_put sender_get
  by unfold_locales (auto simp: buffer_ops split: if_splits list.splits)

interpretation recv_queue: bounded_fifo queue capacity recv_put dequeue
  by unfold_locales (auto simp: buffer_ops split: if_splits list.splits)

section \<open>Properties of the queues\<close>

text \<open>
  Neither queue of the relay loses, repeats or reorders a datagram it accepted: under every schedule
  of sends and receives on a new buffer, closed or not in between, what was accepted is what came out
  followed by what still waits, and at most the capacity waits.
\<close>

theorem relay_queues_fifo:
  assumes "send_queue.schedule ops (new_buffer n) = (ins, outs, b)"
    and "recv_queue.schedule ops' (new_buffer n) = (ins', outs', b')"
  shows "ins = outs @ queue b \<and> length (queue b) \<le> n \<and> ins' = outs' @ queue b' \<and> length (queue b') \<le> n"
  using send_queue.schedule_fifo [OF assms(1)] send_queue.schedule_bounded [OF assms(1)]
    recv_queue.schedule_fifo [OF assms(2)] recv_queue.schedule_bounded [OF assms(2)]
  by (simp add: new_buffer_def)

text \<open>The datagrams a run of the sender had to send.\<close>

definition offered :: "sender_event list \<Rightarrow> datagram list" where
  "offered evs = List.map_filter (\<lambda>ev. case ev of Next d \<Rightarrow> Some d | _ \<Rightarrow> None) evs"

lemma run_sender_prefix:
  "\<exists>n. run_receiver (split_stream (map Ok (run_sender evs sends))) pushes = take n (offered evs)"
proof (induction evs sends arbitrary: pushes rule: run_sender.induct)
  case (3 evs sends)
  show ?case
  proof (cases sends)
    case (Cons a rest)
    with 3 [OF Cons, of pushes] show ?thesis
      by (cases a) (auto simp: split_stream_def offered_def map_filter_simps intro: exI [of _ 0])
  qed (auto simp: split_stream_def map_filter_simps intro: exI [of _ 0])
next
  case (4 d evs sends)
  show ?case
  proof (cases "\<exists>rest ps. sends = True # rest \<and> pushes = True # ps")
    case True
    then obtain rest ps where sp: "sends = True # rest" "pushes = True # ps" by blast
    from 4 [OF sp(1) refl, of ps] obtain n where
      "run_receiver (split_stream (map Ok (run_sender evs rest))) ps = take n (offered evs)" by blast
    with sp show ?thesis
      by (intro exI [of _ "Suc n"]) (simp add: split_stream_def offered_def map_filter_simps)
  next
    case False
    then have "run_receiver (split_stream (map Ok (run_sender (Next d # evs) sends))) pushes = []"
      by (auto simp: split_stream_def map_filter_simps split: list.splits bool.splits)
    then show ?thesis by (auto intro: exI [of _ 0])
  qed
qed (auto simp: split_stream_def map_filter_simps intro: exI [of _ 0])

text \<open>
  C26: The relay delivers datagrams in order and unchanged: whatever the sender task does (keepalive
  pings in between, a sink that fails at some point, a buffer that is closed) and whenever the
  receiver task stops, the datagrams that reach the peer's buffer are an initial part of those taken
  from the sender's buffer; and if nothing fails they are all of them.
\<close>

theorem relay_end_to_end:
  "(\<exists>n. run_receiver (split_stream (map Ok (run_sender evs sends))) pushes = take n (offered evs))
   \<and> (BufferClosed \<notin> set evs \<and> length evs \<le> length sends \<and> length evs \<le> length pushes
        \<and> set sends \<subseteq> {True} \<and> set pushes \<subseteq> {True}
      \<longrightarrow> run_receiver (split_stream (map Ok (run_sender evs sends))) pushes = offered evs)"
proof -
  have "run_receiver (split_stream (map Ok (run_sender evs sends))) pushes = offered evs"
    if "BufferClosed \<notin> set evs" "length evs \<le> length sends" "length evs \<le> length pushes"
      "set sends \<subseteq> {True}" "set pushes \<subseteq> {True}"
    using that
  proof (induction evs sends arbitrary: pushes rule: run_sender.induct)
    case (3 evs sends)
    then obtain rest where "sends = True # rest" by (cases sends) auto
    with 3 show ?case by (auto simp: split_stream_def offered_def map_filter_simps)
  next
    case (4 d evs sends)
    then obtain rest ps where "sends = True # rest" "pushes = True # ps" by (cases sends; cases pushes) auto
    with 4 show ?case by (auto simp: split_stream_def offered_def map_filter_simps)
  qed (auto simp: split_stream_def offered_def map_filter_simps)
  with run_sender_prefix show ?thesis by blast
qed

text \<open>
  Receiving answers every case: without a receive buffer the call is refused and nothing is taken;
  a waiting datagram is delivered whole if it fits and otherwise reported and lost; only an empty open
  buffer makes the caller wait, and only an empty closed one reports the end.
\<close>

lemma poll_recv_cases:
  "poll_recv b room =
     (if room = None then (Ready (Err (IoError InvalidInput ''no receive buffers provided'')), b)
      else if queue b \<noteq> [] then
        (Ready (if length (hd (queue b)) \<le> the room then Ok (hd (queue b))
                else Err (IoError InvalidData ''buffer too small for datagram'')),
         b\<lparr>queue := tl (queue b)\<rparr>)
      else (if closed b then Ready (Err (IoError BrokenPipe ''websocket closed'')) else Pending, b))"
  by (cases room; cases "queue b") (auto simp: poll_recv_def dequeue_def)

section \<open>Waking up\<close>

text \<open>
  A polling task against the tasks that change the buffer. \<open>registered\<close>: the waker is in the
  \<^verbatim>\<open>AtomicWaker\<close>; \<open>woken\<close>: the task will be polled again; \<open>change_wakes\<close>, \<open>close_wakes\<close>: the other task has
  changed (closed) the buffer and is about to wake.
\<close>

datatype poll_pc = PStart | PRegister | PRecheck | PCheckClosed | PParked | PReady

record poll_system =
  ps_buffer :: datagram_buffer
  ps_pc :: poll_pc
  registered :: bool
  woken :: bool
  change_wakes :: bool
  close_wakes :: bool

definition wake :: "poll_system \<Rightarrow> poll_system" where
  "wake s = (if registered s then s\<lparr>registered := False, woken := True\<rparr> else s)"

text \<open>\<^verbatim>\<open>poll_writable\<close> of the poller, one check or registration at a time.\<close>

definition writable_turn :: "poll_system \<Rightarrow> poll_system" where
  "writable_turn s =
     (case ps_pc s of
        PStart \<Rightarrow> s\<lparr>ps_pc := if has_capacity (ps_buffer s) then PReady else PRegister\<rparr>
      | PRegister \<Rightarrow> s\<lparr>registered := True, ps_pc := PRecheck\<rparr>
      | PRecheck \<Rightarrow> s\<lparr>ps_pc := if has_capacity (ps_buffer s) then PReady else PCheckClosed\<rparr>
      | PCheckClosed \<Rightarrow> s\<lparr>ps_pc := if closed (ps_buffer s) then PReady else PParked\<rparr>
      | PParked \<Rightarrow> if woken s then s\<lparr>woken := False, ps_pc := PStart\<rparr> else s
      | PReady \<Rightarrow> s\<lparr>ps_pc := PStart\<rparr>)"

inductive writable_step :: "poll_system \<Rightarrow> poll_system \<Rightarrow> bool" where
  poll: "writable_step s (writable_turn s)"
| enqueued: "writable_step s (s\<lparr>ps_buffer := snd (enqueue (ps_buffer s) d)\<rparr>)"
| dequeued: "\<not> change_wakes s \<Longrightarrow> dequeue (ps_buffer s) = (Some d, b') \<Longrightarrow>
     writable_step s (s\<lparr>ps_buffer := b', change_wakes := True\<rparr>)"
| dequeue_wake: "change_wakes s \<Longrightarrow> writable_step s ((wake s)\<lparr>change_wakes := False\<rparr>)"
| closing: "writable_step s (s\<lparr>ps_buffer := close_buffer (ps_buffer s), close_wakes := True\<rparr>)"
| close_wake: "close_wakes s \<Longrightarrow> writable_step s ((wake s)\<lparr>close_wakes := False\<rparr>)"

text \<open>\<^verbatim>\<open>poll_recv\<close> of the receive buffer: nothing is checked after the registration.\<close>

definition recv_turn :: "poll_system \<Rightarrow> poll_system" where
  "recv_turn s =
     (case ps_pc s of
        PStart \<Rightarrow>
          (case dequeue (ps_buffer s) of
             (Some d, b') \<Rightarrow> s\<lparr>ps_buffer := b', ps_pc := PReady\<rparr>
           | (None, _) \<Rightarrow> s\<lparr>ps_pc := PCheckClosed\<rparr>)
      | PCheckClosed \<Rightarrow> s\<lparr>ps_pc := if closed (ps_buffer s) then PReady else PRegister\<rparr>
      | PRegister \<Rightarrow> s\<lparr>registered := True, ps_pc := PParked\<rparr>
      | PParked \<Rightarrow> if woken s then s\<lparr>woken := False, ps_pc := PStart\<rparr> else s
      | _ \<Rightarrow> s\<lparr>ps_pc := PStart\<rparr>)"

inductive recv_step :: "poll_system \<Rightarrow> poll_system \<Rightarrow> bool" where
  recv_poll: "recv_step s (recv_turn s)"
| pushed: "\<not> change_wakes s \<Longrightarrow> push (ps_buffer s) d = (Done (Ok ()), b') \<Longrightarrow>
     recv_step s (s\<lparr>ps_buffer := b', change_wakes := True\<rparr>)"
| push_wake: "change_wakes s \<Longrightarrow> recv_step s ((wake s)\<lparr>change_wakes := False\<rparr>)"
| recv_closing: "recv_step s (s\<lparr>ps_buffer := close_buffer (ps_buffer s), close_wakes := True\<rparr>)"
| recv_close_wake: "close_wakes s \<Longrightarrow> recv_step s ((wake s)\<lparr>close_wakes := False\<rparr>)"

inductive_cases writable_stepE: "writable_step s s'"

definition poll_init :: "nat \<Rightarrow> poll_system" where
  "poll_init n = \<lparr>ps_buffer = new_buffer n, ps_pc = PStart, registered = False, woken = False,
     change_wakes = False, close_wakes = False\<rparr>"

definition writable_inv :: "poll_system \<Rightarrow> bool" where
  "writable_inv s \<longleftrightarrow>
     (ps_pc s \<in> {PRecheck, PCheckClosed, PParked} \<longrightarrow> registered s \<or> woken s)
     \<and> (ps_pc s \<in> {PCheckClosed, PParked} \<longrightarrow> woken s \<or> change_wakes s \<or> \<not> has_capacity (ps_buffer s))
     \<and> (ps_pc s = PParked \<longrightarrow> woken s \<or> close_wakes s \<or> \<not> closed (ps_buffer s))"

lemma has_capacity_enqueue: "has_capacity (snd (enqueue b d)) \<Longrightarrow> has_capacity b"
  by (auto simp: enqueue_def has_capacity_def split: if_splits)

lemma closed_ops [simp]:
  "closed (snd (enqueue b d)) = closed b" "has_capacity (close_buffer b) = has_capacity b"
  "closed (close_buffer b)" "dequeue b = (res, b') \<Longrightarrow> closed b' = closed b"
  by (auto simp: enqueue_def close_buffer_def has_capacity_def dequeue_def split: list.splits)

lemma writable_inv_step: "writable_step s s' \<Longrightarrow> writable_inv s \<Longrightarrow> writable_inv s'"
proof (induction rule: writable_step.induct)
  case (poll s)
  then show ?case
    by (cases "ps_pc s") (auto simp: writable_inv_def writable_turn_def)
next
  case (enqueued s d)
  then show ?case
    by (auto simp: writable_inv_def dest: has_capacity_enqueue)
qed (auto simp: writable_inv_def wake_def)

text \<open>
  C27: A task that waits for room in the send buffer never misses it: in every reachable state of the
  poller and the tasks that fill, empty and close the buffer, if the poller sleeps and no wake-up is on
  its way then there is no room and the buffer is open.
\<close>

theorem poll_writable_no_lost_wakeup:
  assumes "rtranclp writable_step (poll_init n) s" and "ps_pc s = PParked" and "\<not> woken s"
    and "\<not> change_wakes s" and "\<not> close_wakes s"
  shows "\<not> has_capacity (ps_buffer s) \<and> \<not> closed (ps_buffer s) \<and> registered s"
proof -
  have "writable_inv (poll_init n)" by (simp add: writable_inv_def poll_init_def)
  with assms(1) have "writable_inv s"
    by (induction rule: rtranclp_induct) (auto intro: writable_inv_step)
  with assms(2-5) show ?thesis by (auto simp: writable_inv_def)
qed

text \<open>
  C28: A task that waits for a datagram can miss one: there is a reachable state in which the receiver
  sleeps with its waker registered, no wake-up is on its way, and a datagram waits in the buffer. The
  datagram was pushed, and the wake-up sent, between the check of the queue and the registration.
\<close>

theorem poll_recv_lost_wakeup:
  "\<exists>s. rtranclp recv_step (poll_init DEFAULT_BUFFER_CAPACITY) s
     \<and> ps_pc s = PParked \<and> registered s \<and> \<not> woken s \<and> \<not> change_wakes s \<and> \<not> close_wakes s
     \<and> queue (ps_buffer s) \<noteq> []"
proof -
  let ?n = DEFAULT_BUFFER_CAPACITY
  let ?b = "(new_buffer ?n)\<lparr>queue := [[1]]\<rparr>"
  let ?s0 = "poll_init ?n"
  let ?s1 = "?s0\<lparr>ps_pc := PCheckClosed\<rparr>" and ?s2 = "?s0\<lparr>ps_pc := PRegister\<rparr>"
  let ?s3 = "?s2\<lparr>ps_buffer := ?b, change_wakes := True\<rparr>" and ?s4 = "?s2\<lparr>ps_buffer := ?b, change_wakes := False\<rparr>"
  let ?s5 = "?s4\<lparr>registered := True, ps_pc := PParked\<rparr>"
  have "recv_turn ?s0 = ?s1" "recv_turn ?s1 = ?s2" "recv_turn ?s4 = ?s5"
    by (simp_all add: recv_turn_def poll_init_def new_buffer_def dequeue_def)
  then have turns: "recv_step ?s0 ?s1" "recv_step ?s1 ?s2" "recv_step ?s4 ?s5"
    by (metis recv_step.recv_poll)+
  have push: "recv_step ?s2 ?s3"
    by (rule recv_step.pushed [where d = "[1]"])
      (simp_all add: poll_init_def push_def new_buffer_def DEFAULT_BUFFER_CAPACITY_def)
  have "recv_step ?s3 ((wake ?s3)\<lparr>change_wakes := False\<rparr>)"
    by (rule recv_step.push_wake) simp
  moreover have "(wake ?s3)\<lparr>change_wakes := False\<rparr> = ?s4"
    by (simp add: wake_def poll_init_def)
  ultimately have "recv_step ?s3 ?s4" by simp
  with turns push have "rtranclp recv_step ?s0 ?s5"
    by (meson rtranclp.rtrancl_into_rtrancl rtranclp.rtrancl_refl)
  then show ?thesis
    by (intro exI [of _ ?s5]) (simp add: poll_init_def)
qed

section \<open>Witnesses\<close>

theorem relay_queues_fifo_witness:
  "send_queue.schedule [Some [1], Some [2], None] (new_buffer 1) = ([[1]], [[1]], new_buffer 1)
    \<and> [[1]] = [[1]] @ queue (new_buffer 1)"
proof -
  have run: "send_queue.schedule [Some [1], Some [2], None] (new_buffer 1) = ([[1]], [[1]], new_buffer 1)"
    by (simp add: buffer_ops new_buffer_def)
  have "recv_queue.schedule [] (new_buffer 1) = ([], [], new_buffer 1)" by simp
  from relay_queues_fifo [OF run this] run show ?thesis by simp
qed

theorem relay_end_to_end_witness:
  "run_receiver (split_stream (map Ok (run_sender [Next [1], KeepaliveDue, Next [2]] [True, True, True])))
     [True, True, True] = [[1], [2]]"
  using relay_end_to_end [of "[Next [1], KeepaliveDue, Next [2]]" "[True, True, True]" "[True, True, True]"]
  by (simp add: offered_def map_filter_simps)

theorem poll_writable_no_lost_wakeup_witness:
  "\<exists>s. rtranclp writable_step (poll_init 0) s \<and> ps_pc s = PParked \<and> \<not> has_capacity (ps_buffer s)"
proof -
  let ?s0 = "poll_init 0"
  let ?s1 = "?s0\<lparr>ps_pc := PRegister\<rparr>" and ?s2 = "?s0\<lparr>registered := True, ps_pc := PRecheck\<rparr>"
  let ?s3 = "?s2\<lparr>ps_pc := PCheckClosed\<rparr>" and ?s4 = "?s2\<lparr>ps_pc := PParked\<rparr>"
  have "writable_turn ?s0 = ?s1" "writable_turn ?s1 = ?s2" "writable_turn ?s2 = ?s3" "writable_turn ?s3 = ?s4"
    by (simp_all add: writable_turn_def poll_init_def new_buffer_def has_capacity_def)
  then have "writable_step ?s0 ?s1" "writable_step ?s1 ?s2" "writable_step ?s2 ?s3" "writable_step ?s3 ?s4"
    by (metis writable_step.poll)+
  then have run: "rtranclp writable_step ?s0 ?s4"
    by (meson rtranclp.rtrancl_into_rtrancl rtranclp.rtrancl_refl)
  from poll_writable_no_lost_wakeup [OF this] have "\<not> has_capacity (ps_buffer ?s4)"
    by (simp add: poll_init_def)
  with run show ?thesis by (intro exI [of _ ?s4]) simp
qed

end
