(* ===== verification/Direct_Endpoint.thy ===== *)
theory Direct_Endpoint
  imports Tunnel_Message Stun
begin

text \<open>
  Direct connections between a sidecar and a devbox, from \<^verbatim>\<open>crates/tunnel/src/direct\<close>:
  \<^item> \<^verbatim>\<open>credential.rs\<close>: one-time credentials with an expiry;
  \<^item> \<^verbatim>\<open>endpoint.rs\<close>: the client's and the server's side of the handshake, and the probes.
  Time is a number and every reading of the clock is an argument, in the order of the calls. The QUIC
  library is present through the outcomes of its calls.
\<close>

section \<open>Credentials\<close>

type_synonym credentials = "string \<rightharpoonup> nat"

definition cleanup_expired :: "credentials \<Rightarrow> nat \<Rightarrow> credentials" where
  "cleanup_expired tokens now = (\<lambda>t. case tokens t of
     Some expires_at \<Rightarrow> if expires_at \<ge> now then Some expires_at else None
   | None \<Rightarrow> None)"

definition cred_replace :: "credentials \<Rightarrow> string \<Rightarrow> nat \<Rightarrow> nat \<Rightarrow> credentials" where
  "cred_replace tokens token expires_at now = cleanup_expired [token \<mapsto> expires_at] now"

definition cred_insert :: "credentials \<Rightarrow> string \<Rightarrow> nat \<Rightarrow> nat \<Rightarrow> credentials" where
  "cred_insert tokens token expires_at now = cleanup_expired (tokens(token \<mapsto> expires_at)) now"

definition cred_remove :: "credentials \<Rightarrow> string \<Rightarrow> nat \<Rightarrow> nat \<Rightarrow> bool \<times> credentials" where
  "cred_remove tokens token now now' =
     (let guard = cleanup_expired tokens now
      in ((case guard token of Some expiry \<Rightarrow> expiry \<ge> now' | None \<Rightarrow> False), guard(token := None)))"

definition cred_contains :: "credentials \<Rightarrow> string \<Rightarrow> nat \<Rightarrow> bool" where
  "cred_contains tokens token now = (case tokens token of Some expiry \<Rightarrow> expiry \<ge> now | None \<Rightarrow> False)"

section \<open>Probes\<close>

definition MAX_PROBES :: nat where "MAX_PROBES = 6"

text \<open>\<open>tids\<close> are the transaction ids drawn, \<open>sends\<close> the outcomes of the sends; the result is the packets sent.\<close>

function send_probe_loop ::
    "socket_addr \<Rightarrow> bool \<Rightarrow> nat \<Rightarrow> (nat \<Rightarrow> bytes) \<Rightarrow> (nat \<Rightarrow> io_error option) \<Rightarrow> (tunnel_error + unit) \<times> bytes list" where
  "send_probe_loop addr client probes_sent tids sends =
     (let payload = (if client then build_request_probe_payload (tids probes_sent)
                     else build_response_probe_payload (tids probes_sent) addr)
      in case sends probes_sent of
           Some e \<Rightarrow> (Err (Transport (IoError Other (io_message e))), [])
         | None \<Rightarrow>
             (if probes_sent + 1 \<ge> MAX_PROBES then (Ok (), [payload])
              else apsnd ((#) payload) (send_probe_loop addr client (probes_sent + 1) tids sends)))"
  by pat_completeness auto
termination
  by (relation "measure (\<lambda>(_, _, n, _). MAX_PROBES - n)") auto

declare send_probe_loop.simps [simp del]

definition send_probe ::
    "socket_addr \<Rightarrow> bool \<Rightarrow> (nat \<Rightarrow> bytes) \<Rightarrow> (nat \<Rightarrow> io_error option) \<Rightarrow> (tunnel_error + unit) \<times> bytes list" where
  "send_probe addr client tids sends = send_probe_loop addr client 0 tids sends"

section \<open>The handshake\<close>

record direct_tunnel_config =
  cfg_token :: string
  cfg_server_certificate :: "bytes option"
  cfg_stun_observed_addr :: "socket_addr option"

text \<open>\<open>bi\<close> is the outcome of opening the stream, \<open>peer\<close> what comes back for the bytes sent, \<open>fin\<close> the outcome of
  finishing the stream.\<close>

definition establish_client_connection ::
    "(io_error + send_stream) \<Rightarrow> (string \<Rightarrow> recv_stream) \<Rightarrow> (io_error + unit) \<Rightarrow> string \<Rightarrow> tunnel_error + unit" where
  "establish_client_connection bi peer fin token =
     (case bi of
        Inl e \<Rightarrow> Err (Transport (IoError Other (io_message e)))
      | Inr send \<Rightarrow>
          (case write_token send token of
             (Inl e, _) \<Rightarrow> Err e
           | (Inr _, send') \<Rightarrow>
               (case read_server_ack (peer (tx_sent send')) of
                  (Inl e, _) \<Rightarrow> Err e
                | (Inr _, _) \<Rightarrow>
                    (case fin of
                       Inl e \<Rightarrow> Err (Transport (IoError Other (io_message e)))
                     | Inr _ \<Rightarrow> Ok ()))))"

datatype incoming_outcome = Serving | Refused tunnel_error

text \<open>The server's side. \<open>accepted\<close> is the outcome of accepting the connection and its first stream;
  \<open>Serving\<close> means that the tunnel server runs on the connection from here on.\<close>

definition handle_incoming ::
    "credentials \<Rightarrow> nat \<Rightarrow> nat \<Rightarrow> (io_error + send_stream \<times> recv_stream) \<Rightarrow> (io_error + unit)
     \<Rightarrow> incoming_outcome \<times> send_stream option \<times> credentials" where
  "handle_incoming tokens now now' accepted fin =
     (case accepted of
        Inl e \<Rightarrow> (Refused (Transport (IoError Other (io_message e))), None, tokens)
      | Inr (send, recv) \<Rightarrow>
          (case read_token recv of
             (Inl e, _) \<Rightarrow> (Refused e, Some send, tokens)
           | (Inr presented, _) \<Rightarrow>
               (case cred_remove tokens presented now now' of
                  (False, tokens') \<Rightarrow> (Refused (Remote ''invalid direct credential''), Some send, tokens')
                | (True, tokens') \<Rightarrow>
                    (case write_server_ack send of
                       (Inl e, send') \<Rightarrow> (Refused e, Some send', tokens')
                     | (Inr _, send') \<Rightarrow>
                         (case fin of
                            Inl e \<Rightarrow> (Refused (Transport (IoError Other (io_message e))), Some send', tokens')
                          | Inr _ \<Rightarrow> (Serving, Some send', tokens'))))))"

text \<open>
  Connecting: \<open>pin\<close> is the outcome of building a client configuration from the certificate, \<open>quic\<close> of
  connecting to the address with it, \<open>handshake\<close> of presenting the credential on the connection.
\<close>

definition connect_tunnel_inner ::
    "(bytes \<Rightarrow> tunnel_error + 'cc) \<Rightarrow> ('cc \<Rightarrow> socket_addr \<Rightarrow> io_error + 'conn)
     \<Rightarrow> ('conn \<Rightarrow> string \<Rightarrow> tunnel_error + unit) \<Rightarrow> direct_tunnel_config \<Rightarrow> tunnel_error + 'conn" where
  "connect_tunnel_inner pin quic handshake config =
     and_then (ok_or (Remote ''direct server certificate missing'') (cfg_server_certificate config)) (\<lambda>cert.
     and_then (pin cert) (\<lambda>client_config.
     and_then (ok_or (Remote ''direct server STUN address unavailable'') (cfg_stun_observed_addr config)) (\<lambda>addr.
     case quic client_config addr of
       Inl e \<Rightarrow> Err (Transport (IoError Other (io_message e)))
     | Inr connection \<Rightarrow> and_then (handshake connection (cfg_token config)) (\<lambda>_. Ok connection))))"

definition connect_tunnel_timed :: "bool \<Rightarrow> (tunnel_error + 'conn) \<Rightarrow> tunnel_error + 'conn" where
  "connect_tunnel_timed in_time result =
     (if in_time then result
      else Err (Transport (IoError io_kind.TimedOut ''direct tunnel attempt exceeded 3s'')))"

section \<open>Credentials are used once\<close>

lemma cleanup_expired_le: "cleanup_expired tokens now t = Some e \<Longrightarrow> tokens t = Some e \<and> now \<le> e"
  by (auto simp: cleanup_expired_def split: option.splits if_splits)

lemma contains_cleanup: "now \<le> k \<Longrightarrow> cred_contains (cleanup_expired tokens now) t k = cred_contains tokens t k"
  by (auto simp: cred_contains_def cleanup_expired_def split: option.splits)

lemma cred_remove_iff: "now \<le> now' \<Longrightarrow> fst (cred_remove tokens t now now') = cred_contains tokens t now'"
  using contains_cleanup [of now now' tokens t] by (simp add: cred_remove_def cred_contains_def Let_def)

datatype cred_op = Issue string nat | Reissue string nat | Present string | Expire

text \<open>The operations on a store, each with its two readings of the clock, and which presentations succeed.\<close>

fun cred_step :: "cred_op \<times> nat \<times> nat \<Rightarrow> credentials \<Rightarrow> bool \<times> credentials" where
  "cred_step (Issue t e, now, now') tokens = (False, cred_insert tokens t e now)"
| "cred_step (Reissue t e, now, now') tokens = (False, cred_replace tokens t e now)"
| "cred_step (Present t, now, now') tokens = cred_remove tokens t now now'"
| "cred_step (Expire, now, now') tokens = (False, cleanup_expired tokens now)"

fun presented :: "cred_op \<times> nat \<times> nat \<Rightarrow> string \<Rightarrow> bool" where
  "presented (Present t', _, _) t = (t' = t)"
| "presented _ t = False"

fun issued :: "cred_op \<times> nat \<times> nat \<Rightarrow> string \<Rightarrow> bool" where
  "issued (Issue t' e, _, _) t = (t' = t)"
| "issued (Reissue t' e, _, _) t = (t' = t)"
| "issued _ t = False"

fun accepted_count :: "string \<Rightarrow> (cred_op \<times> nat \<times> nat) list \<Rightarrow> credentials \<Rightarrow> nat" where
  "accepted_count t [] tokens = 0"
| "accepted_count t (op # ops) tokens =
     (case cred_step op tokens of
        (ok, tokens') \<Rightarrow> (if ok \<and> presented op t then 1 else 0) + accepted_count t ops tokens')"

definition issued_count :: "string \<Rightarrow> (cred_op \<times> nat \<times> nat) list \<Rightarrow> nat" where
  "issued_count t ops = length (filter (\<lambda>op. issued op t) ops)"

lemma cred_step_budget:
  assumes "cred_step op tokens = (ok, tokens')"
  shows "(if ok \<and> presented op t then 1 else 0) + (if tokens' t \<noteq> None then 1 else 0)
    \<le> (if issued op t then 1 else 0) + (if tokens t \<noteq> None then 1 else (0 :: nat))"
proof -
  obtain c now now' where op: "op = (c, now, now')" by (cases op)
  from assms show ?thesis
    unfolding op
    by (cases c) (auto simp: cred_insert_def cred_replace_def cred_remove_def Let_def cleanup_expired_def
      split: option.splits if_splits)
qed

text \<open>
  C15: A credential opens at most one connection: in every sequence of issuing, presenting and expiring,
  at any times, on a store that did not hold it, a credential is accepted at most as often as it was
  issued, however often it is presented.
\<close>

theorem credential_single_use:
  assumes "tokens t = None"
  shows "accepted_count t ops tokens \<le> issued_count t ops"
proof -
  have "accepted_count t ops tokens \<le> issued_count t ops + (if tokens t \<noteq> None then 1 else 0)" for tokens
  proof (induction ops arbitrary: tokens)
    case (Cons op ops)
    obtain ok tokens' where s: "cred_step op tokens = (ok, tokens')" by force
    from Cons.IH [of tokens'] cred_step_budget [OF s, of t] s show ?case
      by (auto simp: issued_count_def split: if_splits)
  qed (simp add: issued_count_def)
  from this [of tokens] assms show ?thesis by simp
qed

text \<open>
  C14: Client and server agree on the handshake: the client is told it may use the connection, and the
  server starts to serve it, if and only if the credential the client presents is in the server's
  store and has not expired; afterwards that credential is no longer valid and every other one is as
  valid as before.
\<close>

theorem direct_handshake_agrees:
  assumes "tx_sent s = []" and "tx_limit s = None" and "tx_sent s0 = []" and "tx_limit s0 = None"
    and "length t \<le> HANDSHAKE_MAX_TOKEN_LEN" and "utf8_valid t" and "now \<le> now'"
    and "server = (\<lambda>w. handle_incoming tokens now now' (Ok (s0, \<lparr>rx_bytes = w, rx_end = None\<rparr>)) (Ok ()))"
    and "peer = (\<lambda>w. \<lparr>rx_bytes = tx_sent (the (fst (snd (server w)))), rx_end = None\<rparr>)"
    and "sent = tx_sent (snd (write_token s t))"
  shows "(establish_client_connection (Ok s) peer (Ok ()) t = Ok () \<longleftrightarrow> cred_contains tokens t now')
    \<and> (fst (server sent) = Serving \<longleftrightarrow> cred_contains tokens t now')
    \<and> \<not> cred_contains (snd (snd (server sent))) t k
    \<and> (t' \<noteq> t \<longrightarrow> now \<le> k \<longrightarrow> cred_contains (snd (snd (server sent))) t' k = cred_contains tokens t' k)"
proof -
  have "token_ok t" using assms(5,6) by (simp add: token_ok_def)
  from token.get_put [OF this, of "\<lparr>rx_bytes = token_bytes t, rx_end = None\<rparr>" "[]"]
  have read: "read_token \<lparr>rx_bytes = token_bytes t, rx_end = None\<rparr> = (Ok t, \<lparr>rx_bytes = [], rx_end = None\<rparr>)"
    by simp
  have wr: "write_token s t = (Ok (), s\<lparr>tx_sent := token_bytes t\<rparr>)"
    using assms(1,2,5) by (simp add: write_token_def write_all_unlimited token_bytes_def map_err_def)
  then have sent: "sent = token_bytes t" by (simp add: assms(10))
  obtain tokens' where rem: "cred_remove tokens t now now' = (cred_contains tokens t now', tokens')"
    using cred_remove_iff [OF assms(7), of tokens t] by (cases "cred_remove tokens t now now'") simp
  have srv: "server sent = (if cred_contains tokens t now'
      then (Serving, Some (s0\<lparr>tx_sent := [char_of (1 :: nat)]\<rparr>), tokens')
      else (Refused (Remote ''invalid direct credential''), Some s0, tokens'))"
    unfolding assms(8) sent
    using assms(3,4)
    by (simp add: handle_incoming_def read rem write_server_ack_def write_all_unlimited map_err_def)
  have "establish_client_connection (Ok s) peer (Ok ()) t = Ok () \<longleftrightarrow> cred_contains tokens t now'"
    using srv assms(3) unfolding sent
    by (auto simp: establish_client_connection_def wr assms(9) read_server_ack_def read_u8_def)
  moreover have "tokens' = (cleanup_expired tokens now)(t := None)"
    using rem by (simp add: cred_remove_def Let_def)
  then have "\<not> cred_contains tokens' t k" "t' \<noteq> t \<Longrightarrow> now \<le> k \<Longrightarrow> cred_contains tokens' t' k = cred_contains tokens t' k"
    using contains_cleanup [of now k tokens t'] by (simp_all add: cred_contains_def)
  ultimately show ?thesis
    using srv by simp
qed

section \<open>Probes are few and recognisable\<close>

lemma send_probe_loop_spec:
  assumes "\<forall>i. length (tids i) = 12" and "ip_wf (sa_ip addr)" and "n < MAX_PROBES"
    and "send_probe_loop addr client n tids sends = (res, ps)"
  shows "list_all is_stun_packet ps \<and> n + length ps \<le> MAX_PROBES \<and> (res = Ok () \<longleftrightarrow> n + length ps = MAX_PROBES)
    \<and> ((\<forall>i < MAX_PROBES. sends i = None) \<longrightarrow> res = Ok ())"
  using assms(3,4)
proof (induction "MAX_PROBES - n" arbitrary: n res ps)
  case (Suc m)
  let ?p = "if client then build_request_probe_payload (tids n) else build_response_probe_payload (tids n) addr"
  have p: "is_stun_packet ?p"
    using assms(1,2) by (simp add: request_probe_is_stun response_probe_is_stun)
  note eq = send_probe_loop.simps [of addr client n tids sends, unfolded Let_def]
  show ?case
  proof (cases "sends n")
    case (Some e)
    with Suc.prems eq show ?thesis by auto
  next
    case None
    show ?thesis
    proof (cases "n + 1 \<ge> MAX_PROBES")
      case True
      with Suc.prems None p eq show ?thesis by auto
    next
      case False
      obtain res' ps' where rest: "send_probe_loop addr client (n + 1) tids sends = (res', ps')" by force
      from False Suc.hyps(2) have m: "m = MAX_PROBES - (n + 1)" "n + 1 < MAX_PROBES" by simp_all
      have "res = res'" "ps = ?p # ps'"
        using Suc.prems(2) None False rest eq by simp_all
      with Suc.hyps(1) [OF m(1) m(2) rest] p show ?thesis by simp
    qed
  qed
qed simp

text \<open>
  Opening a path is bounded: at most six probes are sent, exactly six if no send fails, and
  each of them is recognised by the other side as STUN.
\<close>

theorem send_probe_bounded:
  assumes "\<forall>i. length (tids i) = 12" and "ip_wf (sa_ip addr)" and "send_probe addr client tids sends = (res, ps)"
  shows "length ps \<le> 6 \<and> (res = Ok () \<longleftrightarrow> length ps = 6) \<and> list_all is_stun_packet ps
    \<and> ((\<forall>i < 6. sends i = None) \<longrightarrow> length ps = 6)"
proof -
  have max: "MAX_PROBES = 6" by (simp add: MAX_PROBES_def)
  show ?thesis
    using send_probe_loop_spec [OF assms(1,2), of 0 client sends res ps] assms(3)
    by (auto simp: send_probe_def max)
qed

section \<open>Witnesses\<close>

theorem credential_single_use_witness:
  "accepted_count ''t'' [(Issue ''t'' 10, 1, 1), (Present ''t'', 2, 3), (Present ''t'', 4, 4)] Map.empty = 1"
proof -
  let ?ops = "[(Issue ''t'' 10, 1, 1), (Present ''t'', 2, 3), (Present ''t'', 4, 4)]"
  have "issued_count ''t'' ?ops = 1" by (simp add: issued_count_def)
  moreover have "1 \<le> accepted_count ''t'' ?ops Map.empty"
    by (simp add: cred_insert_def cred_remove_def cleanup_expired_def Let_def)
  ultimately show ?thesis
    using credential_single_use [of Map.empty "''t''" ?ops] by simp
qed

theorem direct_handshake_agrees_witness:
  "establish_client_connection (Ok ex_send)
     (\<lambda>w. \<lparr>rx_bytes = tx_sent (the (fst (snd (handle_incoming [''secret'' \<mapsto> 10] 1 2
        (Ok (ex_send, \<lparr>rx_bytes = w, rx_end = None\<rparr>)) (Ok ()))))), rx_end = None\<rparr>) (Ok ()) ''secret'' = Ok ()"
proof -
  have s: "tx_sent ex_send = []" "tx_limit ex_send = None" by (simp_all add: ex_send_def)
  have "is_ascii ''secret''" by code_simp
  then have t: "length ''secret'' \<le> HANDSHAKE_MAX_TOKEN_LEN" "utf8_valid ''secret''"
    by (simp_all add: HANDSHAKE_MAX_TOKEN_LEN_def is_ascii_utf8_valid)
  have le: "1 \<le> (2 :: nat)" by simp
  show ?thesis
    using direct_handshake_agrees [OF s s t le refl refl refl, of "[''secret'' \<mapsto> 10]"]
    by (simp add: cred_contains_def)
qed

theorem send_probe_bounded_witness:
  "length (snd (send_probe ex_addr True (\<lambda>_. ex_tid) (\<lambda>_. None))) = 6"
proof -
  obtain res ps where run: "send_probe ex_addr True (\<lambda>_. ex_tid) (\<lambda>_. None) = (res, ps)" by force
  have "\<forall>i :: nat. length ex_tid = 12" using ex_wf(2) by simp
  from send_probe_bounded [OF this ex_wf(1) run] run show ?thesis by simp
qed

end
