(* ===== verification/Ip_Allocator.thy ===== *)
theory Ip_Allocator
  imports Lapdev_Prelude
begin

text \<open>
  The synthetic addresses a devbox gives to the services of its active environment,
  \<^verbatim>\<open>crates/cli/src/devbox/dns/ip_allocator.rs\<close>: one loopback address of 127.77.0.0/16 per service, found
  again for the same service, returned to a pool when the service goes.

  The pool of freed offsets is a hash set; which of its elements \<^verbatim>\<open>iter().next()\<close> yields is unspecified and
  may differ from call to call, so every allocation takes the choice as an argument, with the law
  \<open>picks\<close>: a non-empty set yields one of its elements.
\<close>

section \<open>The allocator\<close>

record allocator =
  alloc_base :: bytes
  next_offset :: u16
  allocated :: "string \<rightharpoonup> ip_addr"
  reverse_ips :: "ip_addr \<rightharpoonup> string"
  free_pool :: "u16 set"

definition new_allocator :: allocator where
  "new_allocator =
     \<lparr>alloc_base = [127, 77, 0, 0], next_offset = 1, allocated = Map.empty, reverse_ips = Map.empty, free_pool = {}\<rparr>"

definition service_key :: "string \<Rightarrow> string \<Rightarrow> string" where
  "service_key name namespace = name @ ''.'' @ namespace"

definition picks :: "(u16 set \<Rightarrow> u16) \<Rightarrow> bool" where
  "picks pick \<longleftrightarrow> (\<forall>S. S \<noteq> {} \<longrightarrow> pick S \<in> S)"

text \<open>The address of an offset and, when it is freed, the offset of an address.\<close>

definition offset_ip :: "bytes \<Rightarrow> u16 \<Rightarrow> ip_addr" where
  "offset_ip base offset =
     (let high = ucast (drop_bit 8 offset) :: u8; low = ucast (offset AND 0xFF) :: u8
      in V4 [base ! 0, base ! 1, base ! 2 + high, low])"

definition ip_offset :: "bytes \<Rightarrow> bytes \<Rightarrow> u16" where
  "ip_offset base octets =
     (let a = ucast (octets ! 2) :: u16; b = ucast (base ! 2) :: u16;
          high = (if a < b then 0 else a - b); low = ucast (octets ! 3) :: u16
      in push_bit 8 high OR low)"

definition allocate :: "(u16 set \<Rightarrow> u16) \<Rightarrow> allocator \<Rightarrow> string \<Rightarrow> string \<Rightarrow> ip_addr option \<times> allocator" where
  "allocate pick a service_name namespace =
     (let key = service_key service_name namespace
      in case allocated a key of
           Some ip \<Rightarrow> (Some ip, a)
         | None \<Rightarrow>
             (if free_pool a = {} \<and> next_offset a = 0 then (None, a)
              else
                let (offset, a') =
                      (if free_pool a \<noteq> {}
                       then let offset = pick (free_pool a) in (offset, a\<lparr>free_pool := free_pool a - {offset}\<rparr>)
                       else (next_offset a, a\<lparr>next_offset := next_offset a + 1\<rparr>));
                    ip = offset_ip (alloc_base a') offset
                in (Some ip, a'\<lparr>allocated := (allocated a')(key \<mapsto> ip), reverse_ips := (reverse_ips a')(ip \<mapsto> key)\<rparr>)))"

definition deallocate :: "allocator \<Rightarrow> string \<Rightarrow> string \<Rightarrow> allocator" where
  "deallocate a service_name namespace =
     (let key = service_key service_name namespace
      in case allocated a key of
           None \<Rightarrow> a
         | Some ip \<Rightarrow>
             let a' = a\<lparr>allocated := (allocated a)(key := None), reverse_ips := (reverse_ips a)(ip := None)\<rparr>
             in case ip of
                  V4 octets \<Rightarrow>
                    (let offset = ip_offset (alloc_base a) octets
                     in if offset \<noteq> 0 then a'\<lparr>free_pool := insert offset (free_pool a')\<rparr> else a')
                | V6 _ \<Rightarrow> a')"

definition clear_allocator :: "allocator \<Rightarrow> allocator" where
  "clear_allocator a =
     a\<lparr>allocated := Map.empty, reverse_ips := Map.empty, free_pool := {}, next_offset := 1\<rparr>"

definition lookup_ip :: "allocator \<Rightarrow> ip_addr \<Rightarrow> string option" where
  "lookup_ip a ip = reverse_ips a ip"

definition allocated_ips :: "allocator \<Rightarrow> ip_addr set" where
  "allocated_ips a = ran (allocated a)"

section \<open>Offsets and addresses\<close>

abbreviation POOL_BASE :: bytes where
  "POOL_BASE \<equiv> [127, 77, 0, 0]"

lemma split_u16: "push_bit 8 (ucast (ucast (drop_bit 8 w) :: u8)) OR ucast (ucast (w AND 0xFF) :: u8) = (w :: u16)"
proof -
  have m: "(0xFF :: u16) = mask 8" by (simp add: mask_eq_exp_minus_1)
  show ?thesis unfolding m by (rule bit_word_eqI) (auto simp: bit_simps)
qed

lemma ip_offset_offset_ip: "offset_ip POOL_BASE w = V4 octets \<Longrightarrow> ip_offset POOL_BASE octets = w"
  by (auto simp: offset_ip_def ip_offset_def Let_def split_u16)

lemma offset_ip_V4: "\<exists>octets. offset_ip base w = V4 octets"
  by (simp add: offset_ip_def Let_def)

lemma offset_ip_inj: "inj (offset_ip POOL_BASE)"
proof (rule injI)
  fix v w assume eq: "offset_ip POOL_BASE v = offset_ip POOL_BASE w"
  obtain octets where v: "offset_ip POOL_BASE v = V4 octets" using offset_ip_V4 by blast
  then have "offset_ip POOL_BASE w = V4 octets" using eq by (rule trans [OF sym, rotated])
  from ip_offset_offset_ip [OF this] ip_offset_offset_ip [OF v] show "v = w" by (rule trans [OF sym, rotated])
qed

section \<open>The invariant\<close>

text \<open>
  The offsets handed out so far. The two maps are inverse to each other, and the addresses in use are
  exactly those of the offsets handed out and not freed: no address is lost and none is used twice.
\<close>

definition issued :: "allocator \<Rightarrow> u16 set" where
  "issued a = {w. w \<noteq> 0 \<and> (next_offset a = 0 \<or> w < next_offset a)}"

definition alloc_inv :: "allocator \<Rightarrow> bool" where
  "alloc_inv a \<longleftrightarrow>
     alloc_base a = POOL_BASE
   \<and> (\<forall>k ip. allocated a k = Some ip \<longleftrightarrow> reverse_ips a ip = Some k)
   \<and> free_pool a \<subseteq> issued a
   \<and> ran (allocated a) = offset_ip POOL_BASE ` (issued a - free_pool a)"

lemma new_allocator_inv: "alloc_inv new_allocator"
  by (auto simp: alloc_inv_def new_allocator_def issued_def)

lemma clear_allocator_inv: "alloc_inv a \<Longrightarrow> alloc_inv (clear_allocator a)"
  by (auto simp: alloc_inv_def clear_allocator_def issued_def)

lemma word_less_Suc: "(w :: u16) + 1 \<noteq> 0 \<Longrightarrow> v < w + 1 \<longleftrightarrow> v < w \<or> v = w"
  by (simp add: word_less_nat_alt unatSuc [of w, unfolded add.commute [of 1 w]] less_Suc_eq word_unat_eq_iff)

lemma word_le_max: "(w :: u16) + 1 = 0 \<Longrightarrow> v < w \<or> v = w"
  by (metis eq_neg_iff_add_eq_0 order_le_less word_order.extremum)

lemma issued_step:
  assumes "next_offset a \<noteq> 0"
  shows "issued (a\<lparr>next_offset := next_offset a + 1\<rparr>) = insert (next_offset a) (issued a)" "next_offset a \<notin> issued a"
proof -
  show "next_offset a \<notin> issued a" using assms by (simp add: issued_def)
  show "issued (a\<lparr>next_offset := next_offset a + 1\<rparr>) = insert (next_offset a) (issued a)"
  proof (cases "next_offset a + 1 = 0")
    case True
    with assms word_le_max [OF True] show ?thesis by (auto simp: issued_def)
  next
    case False
    with assms show ?thesis by (auto simp: issued_def word_less_Suc)
  qed
qed

text \<open>One more address under a new key, one address less.\<close>

lemma inverse_maps_insert:
  assumes "\<forall>k ip. f k = Some ip \<longleftrightarrow> g ip = Some k" and "f key = None" and "v \<notin> ran f"
  shows "\<forall>k ip. (f(key \<mapsto> v)) k = Some ip \<longleftrightarrow> (g(v \<mapsto> key)) ip = Some k"
  using assms by (auto simp: ran_def) (metis option.distinct(1))

lemma inverse_maps_delete:
  assumes "\<forall>k ip. f k = Some ip \<longleftrightarrow> g ip = Some k" and "f key = Some v"
  shows "\<forall>k ip. (f(key := None)) k = Some ip \<longleftrightarrow> (g(v := None)) ip = Some k"
  using assms by auto (metis option.inject)+

lemma take_offset_inv:
  assumes "alloc_inv a" and "allocated a key = None" and "w \<notin> issued a - free_pool a"
    and "alloc_base b = alloc_base a" "allocated b = allocated a" "reverse_ips b = reverse_ips a"
    and "free_pool b \<subseteq> issued b" "issued b - free_pool b = insert w (issued a - free_pool a)"
  shows "alloc_inv (b\<lparr>allocated := (allocated b)(key \<mapsto> offset_ip POOL_BASE w),
                      reverse_ips := (reverse_ips b)(offset_ip POOL_BASE w \<mapsto> key)\<rparr>)"
proof -
  have inv: "\<forall>k ip. allocated a k = Some ip \<longleftrightarrow> reverse_ips a ip = Some k"
    and ran: "ran (allocated a) = offset_ip POOL_BASE ` (issued a - free_pool a)"
    using assms(1) by (simp_all add: alloc_inv_def)
  have fresh: "offset_ip POOL_BASE w \<notin> ran (allocated a)"
    unfolding ran inj_image_mem_iff [OF offset_ip_inj] by (rule assms(3))
  have "ran ((allocated a)(key \<mapsto> offset_ip POOL_BASE w)) = offset_ip POOL_BASE ` (issued b - free_pool b)"
    unfolding assms(8) image_insert ran [symmetric] by (rule ran_map_upd) (rule assms(2))
  moreover have "issued (b\<lparr>allocated := f, reverse_ips := g\<rparr>) = issued b" for f g
    by (simp add: issued_def)
  ultimately show ?thesis
    using inverse_maps_insert [OF inv assms(2) fresh] assms(1,4-7) by (simp add: alloc_inv_def)
qed

lemma allocate_fresh:
  assumes "alloc_inv a" and "picks pick" and "allocated a (service_key n ns) = None"
    and "allocate pick a n ns = (Some ip, a')"
  shows "alloc_inv a' \<and> allocated a' = (allocated a)(service_key n ns \<mapsto> ip)"
proof (cases "free_pool a = {}")
  case False
  define w where "w = pick (free_pool a)"
  let ?b = "a\<lparr>free_pool := free_pool a - {w}\<rparr>"
  have w: "w \<in> free_pool a" using assms(2) False by (simp add: picks_def w_def)
  have base: "alloc_base a = POOL_BASE" and free: "free_pool a \<subseteq> issued a"
    using assms(1) by (simp_all add: alloc_inv_def)
  have same: "issued ?b = issued a" by (simp add: issued_def)
  have "alloc_inv (?b\<lparr>allocated := (allocated ?b)(service_key n ns \<mapsto> offset_ip POOL_BASE w),
                      reverse_ips := (reverse_ips ?b)(offset_ip POOL_BASE w \<mapsto> service_key n ns)\<rparr>)"
    using w free by (intro take_offset_inv [OF assms(1,3)]) (auto simp: same)
  with assms(3,4) False base show ?thesis
    by (auto simp: allocate_def Let_def w_def [symmetric] simp del: fun_upd_apply)
next
  case True
  let ?b = "a\<lparr>next_offset := next_offset a + 1\<rparr>"
  have nz: "next_offset a \<noteq> 0" using assms(3,4) True by (auto simp: allocate_def Let_def split: if_splits)
  have base: "alloc_base a = POOL_BASE" using assms(1) by (simp add: alloc_inv_def)
  have "alloc_inv (?b\<lparr>allocated := (allocated ?b)(service_key n ns \<mapsto> offset_ip POOL_BASE (next_offset a)),
                      reverse_ips := (reverse_ips ?b)(offset_ip POOL_BASE (next_offset a) \<mapsto> service_key n ns)\<rparr>)"
    using issued_step [OF nz] True by (intro take_offset_inv [OF assms(1,3)]) auto
  with assms(3,4) True nz base show ?thesis
    by (auto simp: allocate_def Let_def simp del: fun_upd_apply)
qed

lemma allocate_known: "allocated a (service_key n ns) = Some ip \<Longrightarrow> allocate pick a n ns = (Some ip, a)"
  by (simp add: allocate_def Let_def)

lemma allocate_None_iff:
  "fst (allocate pick a n ns) = None \<longleftrightarrow> allocated a (service_key n ns) = None \<and> free_pool a = {} \<and> next_offset a = 0"
  by (auto simp: allocate_def Let_def split: option.splits)

lemma allocate_None_same: "allocate pick a n ns = (None, a') \<Longrightarrow> a' = a"
  by (auto simp: allocate_def Let_def split: option.splits if_splits)

lemma deallocate_inv:
  assumes "alloc_inv a"
  shows "alloc_inv (deallocate a n ns) \<and> allocated (deallocate a n ns) = (allocated a)(service_key n ns := None)"
proof (cases "allocated a (service_key n ns)")
  case None
  with assms show ?thesis by (simp add: deallocate_def Let_def fun_upd_idem)
next
  case (Some ip)
  let ?k = "service_key n ns"
  have maps: "\<forall>k ip. allocated a k = Some ip \<longleftrightarrow> reverse_ips a ip = Some k" and base: "alloc_base a = POOL_BASE"
    and free: "free_pool a \<subseteq> issued a" and ran: "ran (allocated a) = offset_ip POOL_BASE ` (issued a - free_pool a)"
    using assms by (simp_all add: alloc_inv_def)
  from Some ran obtain w where w: "ip = offset_ip POOL_BASE w" "w \<in> issued a - free_pool a"
    by (metis (no_types, lifting) imageE ranI)
  obtain octets where v4: "ip = V4 octets" using w(1) offset_ip_V4 by metis
  then have off: "ip_offset POOL_BASE octets = w" using w(1) ip_offset_offset_ip by metis
  have nz: "w \<noteq> 0" using w(2) by (simp add: issued_def)
  let ?b = "a\<lparr>allocated := (allocated a)(?k := None), reverse_ips := (reverse_ips a)(ip := None),
              free_pool := insert w (free_pool a)\<rparr>"
  have "deallocate a n ns = ?b"
    using Some v4 off nz base by (simp add: deallocate_def Let_def)
  moreover have "ran ((allocated a)(?k := None)) = ran (allocated a) - {ip}"
    using Some maps by (auto simp: ran_def split: if_splits) (metis option.inject)+
  then have "ran ((allocated a)(?k := None)) = offset_ip POOL_BASE ` (issued a - insert w (free_pool a))"
    unfolding ran w(1) Diff_insert [of "issued a"] image_set_diff [OF offset_ip_inj, of "issued a - free_pool a"]
    by (simp only: image_insert image_empty)
  then have "ran (allocated ?b) = offset_ip POOL_BASE ` (issued ?b - free_pool ?b)"
    by (simp add: issued_def)
  moreover have "free_pool ?b \<subseteq> issued ?b" using free w(2) by (auto simp: issued_def)
  ultimately show ?thesis
    using inverse_maps_delete [OF maps Some] base by (simp add: alloc_inv_def)
qed

section \<open>The contract\<close>

text \<open>
  What a client of an allocator relies on, for any state with an invariant and a view as a map: known keys
  keep their value, new keys get a value no other key has, a full allocator is left alone. \<open>legal\<close> are the
  choices the allocator is free to make.
\<close>

locale key_allocator =
  fixes inv :: "'s \<Rightarrow> bool" and view :: "'s \<Rightarrow> 'k \<Rightarrow> 'v option" and key :: "'x \<Rightarrow> 'k"
    and legal :: "'c \<Rightarrow> bool" and alloc :: "'c \<Rightarrow> 's \<Rightarrow> 'x \<Rightarrow> 'v option \<times> 's"
  assumes view_inj: "inv s \<Longrightarrow> view s k = Some v \<Longrightarrow> view s k' = Some v \<Longrightarrow> k = k'"
    and alloc_known: "inv s \<Longrightarrow> view s (key x) = Some v \<Longrightarrow> alloc c s x = (Some v, s)"
    and alloc_fresh: "inv s \<Longrightarrow> legal c \<Longrightarrow> view s (key x) = None \<Longrightarrow> alloc c s x = (Some v, s') \<Longrightarrow>
                      inv s' \<and> view s' = (view s)(key x \<mapsto> v)"
    and alloc_full: "inv s \<Longrightarrow> alloc c s x = (None, s') \<Longrightarrow> s' = s"
begin

lemma alloc_step:
  assumes "inv s" "legal c" "alloc c s x = (r, s')"
  shows "inv s'" "view s' (key x) = r" "view s \<subseteq>\<^sub>m view s'" "k \<noteq> key x \<Longrightarrow> view s' k = view s k"
proof -
  have "inv s' \<and> view s' (key x) = r \<and> view s \<subseteq>\<^sub>m view s' \<and> (k \<noteq> key x \<longrightarrow> view s' k = view s k)"
  proof (cases "view s (key x)")
    case (Some v)
    with assms alloc_known show ?thesis by auto
  next
    case None
    show ?thesis
    proof (cases r)
      case None
      then have "s' = s" using assms alloc_full by blast
      with assms None \<open>view s (key x) = None\<close> show ?thesis by simp
    next
      case (Some v)
      with assms alloc_fresh [OF assms(1,2) None] None show ?thesis by (auto simp: map_le_def dom_def)
    qed
  qed
  then show "inv s'" "view s' (key x) = r" "view s \<subseteq>\<^sub>m view s'" "k \<noteq> key x \<Longrightarrow> view s' k = view s k" by auto
qed

lemma alloc_distinct:
  assumes "inv s" "legal c" "alloc c s x = (Some v, s')" "view s' k = Some v"
  shows "k = key x"
  using alloc_step(1,2) [OF assms(1-3)] assms(4) view_inj by blast

end

interpretation synthetic: key_allocator alloc_inv allocated "\<lambda>(n, ns). service_key n ns" picks
  "\<lambda>pick a (n, ns). allocate pick a n ns"
proof unfold_locales
  fix a k v k' assume "alloc_inv a" "allocated a k = Some v" "allocated a k' = Some v"
  then show "k = k'" by (metis alloc_inv_def option.inject)
next
  fix a :: allocator and v pick and x :: "string \<times> string"
  assume "allocated a (case x of (n, ns) \<Rightarrow> service_key n ns) = Some v"
  then show "(case x of (n, ns) \<Rightarrow> allocate pick a n ns) = (Some v, a)" by (cases x) (simp add: allocate_known)
next
  fix a pick v a' and x :: "string \<times> string"
  assume "alloc_inv a" "picks pick" "allocated a (case x of (n, ns) \<Rightarrow> service_key n ns) = None"
    "(case x of (n, ns) \<Rightarrow> allocate pick a n ns) = (Some v, a')"
  then show "alloc_inv a' \<and> allocated a' = (allocated a)(case x of (n, ns) \<Rightarrow> service_key n ns \<mapsto> v)"
    by (cases x) (simp only: prod.case, rule allocate_fresh)
next
  fix a pick a' and x :: "string \<times> string"
  assume "(case x of (n, ns) \<Rightarrow> allocate pick a n ns) = (None, a')"
  then show "a' = a" by (cases x) (simp only: prod.case, erule allocate_None_same)
qed

section \<open>Every state of the allocator\<close>

text \<open>Any sequence of calls, each allocation with a choice of its own.\<close>

inductive allocator_reachable :: "allocator \<Rightarrow> bool" where
  start: "allocator_reachable new_allocator"
| allocate: "allocator_reachable a \<Longrightarrow> picks pick \<Longrightarrow> allocator_reachable (snd (allocate pick a n ns))"
| deallocate: "allocator_reachable a \<Longrightarrow> allocator_reachable (deallocate a n ns)"
| clear: "allocator_reachable a \<Longrightarrow> allocator_reachable (clear_allocator a)"

lemma reachable_inv: "allocator_reachable a \<Longrightarrow> alloc_inv a"
proof (induction rule: allocator_reachable.induct)
  case (allocate a pick n ns)
  with synthetic.alloc_step(1) [where x = "(n, ns)"] show ?case by (metis prod.case surjective_pairing)
qed (simp_all add: new_allocator_inv deallocate_inv clear_allocator_inv)

lemma issued_full: "next_offset a = 0 \<Longrightarrow> card (issued a) = 65535"
proof -
  assume "next_offset a = 0"
  then have "issued a = UNIV - {0}" by (auto simp: issued_def)
  then have "card (issued a) = card (UNIV :: u16 set) - 1" by simp
  then show ?thesis by (simp add: card_word)
qed

lemma issued_small: "next_offset a \<noteq> 0 \<Longrightarrow> card (issued a) < 65535"
proof -
  assume nz: "next_offset a \<noteq> 0"
  then have "issued a \<subseteq> UNIV - {0, next_offset a}" by (auto simp: issued_def)
  then have "card (issued a) \<le> card (UNIV - {0, next_offset a})" by (simp add: card_mono)
  also have "\<dots> = 65534" using nz by (simp add: card_Diff_subset card_word)
  finally show ?thesis by simp
qed

lemma card_allocated:
  assumes "alloc_inv a"
  shows "card (dom (allocated a)) = card (issued a) - card (free_pool a)"
proof -
  have "inj_on (the \<circ> allocated a) (dom (allocated a))"
    by (rule inj_onI) (metis assms comp_apply domD option.sel synthetic.view_inj)
  moreover have "(the \<circ> allocated a) ` dom (allocated a) = ran (allocated a)"
    by (force simp: ran_def)
  ultimately have "card (dom (allocated a)) = card (ran (allocated a))"
    by (metis card_image)
  also have "\<dots> = card (issued a - free_pool a)"
    using assms by (simp add: alloc_inv_def card_image [OF inj_on_subset [OF offset_ip_inj]])
  finally show ?thesis
    using assms by (simp add: alloc_inv_def card_Diff_subset)
qed

text \<open>
  In every state the allocator can reach, an allocation fails only for a service that has no address
  while 65535 services have one: no address of the pool is ever lost, in particular not by the wrap-around
  of the 16-bit offset or by freeing and allocating again.
\<close>

theorem allocate_fails_iff_full:
  assumes "allocator_reachable a"
  shows "fst (allocate pick a n ns) = None \<longleftrightarrow>
    allocated a (service_key n ns) = None \<and> card (dom (allocated a)) = 65535"
proof -
  have inv: "alloc_inv a" using reachable_inv [OF assms] .
  have "free_pool a = {} \<and> next_offset a = 0 \<longleftrightarrow> card (dom (allocated a)) = 65535"
  proof
    assume "card (dom (allocated a)) = 65535"
    then have c: "card (issued a) - card (free_pool a) = 65535" using card_allocated [OF inv] by simp
    then have "next_offset a = 0" using issued_small [of a] by (cases "next_offset a = 0") auto
    moreover have "card (free_pool a) = 0"
      using c issued_full [OF \<open>next_offset a = 0\<close>] by linarith
    ultimately show "free_pool a = {} \<and> next_offset a = 0" by simp
  qed (simp add: card_allocated [OF inv] issued_full)
  then show ?thesis by (simp add: allocate_None_iff)
qed

text \<open>
  C25: In every state the allocator can reach, two services never share an address, an address leads back to
  its service, and an allocation returns the address recorded for its service, keeps the addresses of all
  others and hands out only addresses of 127.77.0.0/16 other than 127.77.0.0.
\<close>

theorem allocate_keeps_addresses:
  assumes "allocator_reachable a" and "picks pick" and "allocate pick a n ns = (r, a')"
  shows "allocated a' (service_key n ns) = r
    \<and> (\<forall>k. k \<noteq> service_key n ns \<longrightarrow> allocated a' k = allocated a k)
    \<and> (\<forall>k ip. allocated a' k = Some ip \<longleftrightarrow> lookup_ip a' ip = Some k)
    \<and> (\<forall>ip. r = Some ip \<longrightarrow> (\<exists>h l. ip = V4 [127, 77, h, l] \<and> (h, l) \<noteq> (0, 0)))"
proof -
  have inv: "alloc_inv a" using reachable_inv [OF assms(1)] .
  have call: "(case (n, ns) of (n, ns) \<Rightarrow> allocate pick a n ns) = (r, a')" using assms(3) by simp
  note step = synthetic.alloc_step [OF inv assms(2) call, unfolded prod.case]
  have "\<exists>h l. ip = V4 [127, 77, h, l] \<and> (h, l) \<noteq> (0, 0)" if "allocated a' k = Some ip" for k ip
  proof -
    have "ip \<in> offset_ip POOL_BASE ` (issued a' - free_pool a')"
      using ranI [of "allocated a'", OF that] step(1) unfolding alloc_inv_def by (simp only:)
    then obtain w where w: "ip = offset_ip POOL_BASE w" "w \<noteq> 0" by (auto simp: issued_def)
    obtain octets where v4: "ip = V4 octets" using w(1) offset_ip_V4 by metis
    then have "ip_offset POOL_BASE octets = w" using w(1) ip_offset_offset_ip by metis
    then have "(octets ! 2, octets ! 3) \<noteq> (0, 0)" using w(2) by (auto simp: ip_offset_def Let_def)
    moreover have "octets = [127, 77, octets ! 2, octets ! 3]" using w(1) v4 by (simp add: offset_ip_def Let_def)
    ultimately show ?thesis using v4 by blast
  qed
  moreover have "\<forall>k ip. allocated a' k = Some ip \<longleftrightarrow> lookup_ip a' ip = Some k"
    using step(1) by (simp add: alloc_inv_def lookup_ip_def)
  ultimately show ?thesis using step(2,4) by blast
qed

section \<open>Witnesses\<close>

lemma picks_Min: "picks Min"
  by (simp add: picks_def)

lemma first_address: "allocate pick new_allocator n ns = (Some (V4 [127, 77, 0, 1]),
    new_allocator\<lparr>next_offset := 2, allocated := [service_key n ns \<mapsto> V4 [127, 77, 0, 1]],
                  reverse_ips := [V4 [127, 77, 0, 1] \<mapsto> service_key n ns]\<rparr>)"
  by (simp add: allocate_def new_allocator_def Let_def offset_ip_def)

theorem allocate_fails_iff_full_witness:
  "fst (allocate Min new_allocator ''web'' ''default'') \<noteq> None"
  using allocate_fails_iff_full [OF start, of Min "''web''" "''default''"]
  by (simp add: new_allocator_def del: card_0_eq)

theorem allocate_keeps_addresses_witness:
  "lookup_ip (snd (allocate Min new_allocator ''web'' ''default'')) (V4 [127, 77, 0, 1]) = Some ''web.default''"
  using allocate_keeps_addresses [OF start picks_Min first_address, of "''web''" "''default''"]
  by (simp add: first_address service_key_def lookup_ip_def)

end
