(* ===== verification/Devbox_Dns.thy ===== *)
theory Devbox_Dns
  imports Ip_Allocator Tunnel_Message
begin

text \<open>
  How a connected devbox makes the services of its active environment reachable under their names,
  \<^verbatim>\<open>crates/cli/src/devbox\<close>:
  \<^item> \<^verbatim>\<open>dns/mod.rs\<close>: service endpoints and their aliases;
  \<^item> \<^verbatim>\<open>dns/hosts.rs\<close>: the tagged lines in the hosts file;
  \<^item> \<^verbatim>\<open>dns/service_bridge.rs\<close>: the listeners on the synthetic addresses and what they connect to;
  \<^item> \<^verbatim>\<open>commands/connect.rs\<close>, \<^verbatim>\<open>setup_dns_for_environment\<close> and \<^verbatim>\<open>cleanup_dns\<close>, which put them together.

  The operating system is an argument: whether an address can be bound, and what happens when the hosts
  file is read and replaced (the Unix path of the code). Listener tasks are the addresses they listen on.
  Messages to the terminal are not modelled; the counts they report are.
\<close>

section \<open>Endpoints\<close>

record service_port =
  sp_name :: "string option"
  sp_port :: u16
  sp_protocol :: string

record service_info =
  si_name :: string
  si_namespace :: string
  si_ports :: "service_port list"

record service_endpoint =
  se_service_name :: string
  se_namespace :: string
  se_port :: u16
  se_protocol :: string
  se_synthetic_ip :: ip_addr
  se_fqdn :: string

definition is_tcp_protocol :: "string \<Rightarrow> bool" where
  "is_tcp_protocol protocol = (let trimmed = trim protocol in trimmed = [] \<or> eq_ignore_ascii_case trimmed ''tcp'')"

definition new_endpoint :: "service_info \<Rightarrow> u16 \<Rightarrow> string \<Rightarrow> ip_addr \<Rightarrow> service_endpoint" where
  "new_endpoint info port protocol synthetic_ip =
     \<lparr>se_service_name = si_name info, se_namespace = si_namespace info, se_port = port,
      se_protocol = (if is_tcp_protocol protocol then ''TCP'' else protocol),
      se_synthetic_ip = synthetic_ip, se_fqdn = si_name info @ ''.'' @ si_namespace info @ ''.svc''\<rparr>"

definition aliases :: "service_endpoint \<Rightarrow> string list" where
  "aliases e =
     [se_service_name e,
      se_service_name e @ ''.'' @ se_namespace e,
      se_service_name e @ ''.'' @ se_namespace e @ ''.svc'',
      se_fqdn e]"

abbreviation endpoint_key :: "service_endpoint \<Rightarrow> string" where
  "endpoint_key e \<equiv> service_key (se_service_name e) (se_namespace e)"

section \<open>The hosts file\<close>

definition LINE_MARKER :: string where "LINE_MARKER = ''# lapdev-devbox''"

text \<open>\<^verbatim>\<open>Display\<close> of an address; the notation of IPv6, which the allocator never yields, is an argument.\<close>

definition show_ip :: "(bytes \<Rightarrow> string) \<Rightarrow> ip_addr \<Rightarrow> string" where
  "show_ip v6 ip = (case ip of V4 bs \<Rightarrow> join ''.'' (map (\<lambda>b. show_nat (unat b)) bs) | V6 bs \<Rightarrow> v6 bs)"

definition is_tagged :: "string \<Rightarrow> bool" where
  "is_tagged line = ends_with (trim_end line) LINE_MARKER"

definition remove_existing_entries :: "string \<Rightarrow> string" where
  "remove_existing_entries content =
     foldl (\<lambda>result line. if is_tagged line then result else result @ line @ [LF]) [] (lines content)"

definition entry_line :: "(bytes \<Rightarrow> string) \<Rightarrow> service_endpoint \<Rightarrow> string" where
  "entry_line v6 e = show_ip v6 (se_synthetic_ip e) @ '' '' @ join '' '' (aliases e) @ '' '' @ LINE_MARKER"

definition render_entries :: "(bytes \<Rightarrow> string) \<Rightarrow> service_endpoint list \<Rightarrow> string \<Rightarrow> string" where
  "render_entries v6 endpoints content =
     (let cleaned = remove_existing_entries content;
          cleaned = (if \<not> ends_with cleaned [LF] \<and> cleaned \<noteq> [] then cleaned @ [LF] else cleaned)
      in foldl (\<lambda>cleaned e. cleaned @ entry_line v6 e @ [LF]) cleaned endpoints)"

text \<open>
  Replacing the file: everything up to the rename works on a temporary file; a busy target is truncated and
  written in place instead, where a failing write leaves what it had written.
\<close>

datatype persist_result = Persisted | PersistBusy | PersistFailed string

record hosts_io =
  read_error :: "string option"
  prepare_error :: "string option"
  persist_result :: persist_result
  fallback_open_error :: "string option"
  fallback_write_error :: "(nat \<times> string) option"
  fallback_sync_error :: "string option"

definition write_hosts_file :: "hosts_io \<Rightarrow> string \<Rightarrow> string \<Rightarrow> (string + unit) \<times> string" where
  "write_hosts_file io content file =
     (case prepare_error io of
        Some e \<Rightarrow> (Err e, file)
      | None \<Rightarrow>
          (case persist_result io of
             Persisted \<Rightarrow> (Ok (), content)
           | PersistFailed e \<Rightarrow> (Err e, file)
           | PersistBusy \<Rightarrow>
               (case fallback_open_error io of
                  Some e \<Rightarrow> (Err e, file)
                | None \<Rightarrow>
                    (case fallback_write_error io of
                       Some (n, e) \<Rightarrow> (Err e, take n content)
                     | None \<Rightarrow>
                         (case fallback_sync_error io of
                            Some e \<Rightarrow> (Err e, content)
                          | None \<Rightarrow> (Ok (), content))))))"

definition write_entries ::
    "(bytes \<Rightarrow> string) \<Rightarrow> hosts_io \<Rightarrow> service_endpoint list \<Rightarrow> string \<Rightarrow> (string + unit) \<times> string" where
  "write_entries v6 io endpoints file =
     (case read_error io of
        Some e \<Rightarrow> (Err e, file)
      | None \<Rightarrow> write_hosts_file io (render_entries v6 endpoints file) file)"

definition remove_entries :: "hosts_io \<Rightarrow> string \<Rightarrow> (string + unit) \<times> string" where
  "remove_entries io file =
     (case read_error io of
        Some e \<Rightarrow> (Err e, file)
      | None \<Rightarrow> write_hosts_file io (remove_existing_entries file) file)"

section \<open>The service bridge\<close>

record bridge =
  bridge_endpoints :: "socket_addr \<rightharpoonup> service_endpoint"
  bridge_listeners :: "socket_addr list"

record start_report =
  started :: "service_endpoint list"
  failed :: "(service_endpoint \<times> string) list"

definition new_bridge :: bridge where
  "new_bridge = \<lparr>bridge_endpoints = Map.empty, bridge_listeners = []\<rparr>"

definition stop_bridge :: "bridge \<Rightarrow> bridge" where
  "stop_bridge b = b\<lparr>bridge_listeners := []\<rparr>"

definition endpoint_addr :: "service_endpoint \<Rightarrow> socket_addr" where
  "endpoint_addr e = \<lparr>sa_ip = se_synthetic_ip e, sa_port = se_port e\<rparr>"

text \<open>The loop over the TCP endpoints; \<open>bind\<close> may answer differently at every call.\<close>

fun start_listeners ::
    "(socket_addr \<Rightarrow> 'w \<Rightarrow> (string + unit) \<times> 'w) \<Rightarrow> service_endpoint list
     \<Rightarrow> bridge \<times> start_report \<times> 'w \<Rightarrow> bridge \<times> start_report \<times> 'w" where
  "start_listeners bind [] st = st"
| "start_listeners bind (e # es) (b, r, w) =
     (case bind (endpoint_addr e) w of
        (Inr _, w') \<Rightarrow>
          start_listeners bind es
            (b\<lparr>bridge_endpoints := (bridge_endpoints b)(endpoint_addr e \<mapsto> e),
               bridge_listeners := bridge_listeners b @ [endpoint_addr e]\<rparr>,
             r\<lparr>started := started r @ [e]\<rparr>, w')
      | (Inl err, w') \<Rightarrow> start_listeners bind es (b, r\<lparr>failed := failed r @ [(e, err)]\<rparr>, w'))"

definition start_bridge ::
    "(socket_addr \<Rightarrow> 'w \<Rightarrow> (string + unit) \<times> 'w) \<Rightarrow> service_endpoint list \<Rightarrow> bridge \<Rightarrow> 'w
     \<Rightarrow> bridge \<times> start_report \<times> 'w" where
  "start_bridge bind endpoints b w =
     (let tcp_endpoints = filter (\<lambda>e. is_tcp_protocol (se_protocol e)) endpoints;
          b' = (stop_bridge b)\<lparr>bridge_endpoints := Map.empty\<rparr>
      in start_listeners bind tcp_endpoints (b', \<lparr>started = [], failed = []\<rparr>, w))"

text \<open>One accepted connection: the endpoint of the listening address, through the tunnel client.\<close>

datatype bridge_error = NoEndpoint socket_addr | NoTunnelClient | TunnelFailed tunnel_error

definition handle_connection ::
    "('c \<Rightarrow> string \<Rightarrow> u16 \<Rightarrow> tunnel_error + 's) \<Rightarrow> bridge \<Rightarrow> 'c option \<Rightarrow> socket_addr \<Rightarrow> bridge_error + 's" where
  "handle_connection connect_tcp b tunnel_client local_addr =
     (case bridge_endpoints b local_addr of
        None \<Rightarrow> Err (NoEndpoint local_addr)
      | Some e \<Rightarrow>
          (case tunnel_client of
             None \<Rightarrow> Err NoTunnelClient
           | Some c \<Rightarrow>
               (case connect_tcp c (se_fqdn e) (se_port e) of
                  Inl err \<Rightarrow> Err (TunnelFailed err)
                | Inr stream \<Rightarrow> Ok stream)))"

section \<open>Setting up an environment\<close>

record dns_plan =
  plan_allocator :: allocator
  plan_bridge :: "service_endpoint list"
  plan_hosts :: "service_endpoint list"
  seen_services :: "string set"
  skipped_services :: "string set"
  skipped_endpoints :: nat
  skipped_non_tcp :: "string \<rightharpoonup> (u16 \<times> string) list"

definition plan_port :: "(u16 set \<Rightarrow> u16) \<Rightarrow> service_info \<Rightarrow> service_port \<Rightarrow> dns_plan \<Rightarrow> dns_plan" where
  "plan_port pick service port p =
     (let key = service_key (si_name service) (si_namespace service)
      in if \<not> is_tcp_protocol (sp_protocol port) then
           p\<lparr>skipped_non_tcp := (skipped_non_tcp p)(key \<mapsto>
               (case skipped_non_tcp p key of None \<Rightarrow> [] | Some ps \<Rightarrow> ps) @ [(sp_port port, sp_protocol port)])\<rparr>
         else
           (case allocate pick (plan_allocator p) (si_name service) (si_namespace service) of
              (Some ip, a) \<Rightarrow>
                (let e = new_endpoint service (sp_port port) (sp_protocol port) ip;
                     p' = p\<lparr>plan_allocator := a, seen_services := insert key (seen_services p)\<rparr>;
                     p' = (if key \<in> seen_services p then p' else p'\<lparr>plan_hosts := plan_hosts p @ [e]\<rparr>)
                 in p'\<lparr>plan_bridge := plan_bridge p @ [e]\<rparr>)
            | (None, a) \<Rightarrow>
                p\<lparr>plan_allocator := a, skipped_endpoints := skipped_endpoints p + 1,
                  skipped_services := insert key (skipped_services p)\<rparr>))"

definition plan_services :: "(u16 set \<Rightarrow> u16) \<Rightarrow> service_info list \<Rightarrow> allocator \<Rightarrow> dns_plan" where
  "plan_services pick services a =
     fold (\<lambda>service. fold (plan_port pick service) (si_ports service)) services
       \<lparr>plan_allocator = clear_allocator a, plan_bridge = [], plan_hosts = [], seen_services = {},
        skipped_services = {}, skipped_endpoints = 0, skipped_non_tcp = Map.empty\<rparr>"

record dns_manager =
  dm_allocator :: allocator
  dm_bridge :: bridge
  dm_hosts :: string

text \<open>The answer of \<^verbatim>\<open>list_services\<close>: the call itself may fail, and so may the server.\<close>

definition setup_dns_for_environment ::
    "(u16 set \<Rightarrow> u16) \<Rightarrow> (socket_addr \<Rightarrow> 'w \<Rightarrow> (string + unit) \<times> 'w) \<Rightarrow> (bytes \<Rightarrow> string) \<Rightarrow> hosts_io
     \<Rightarrow> string + (string + service_info list) \<Rightarrow> dns_manager \<Rightarrow> 'w \<Rightarrow> (string + unit) \<times> dns_manager \<times> 'w" where
  "setup_dns_for_environment pick bind v6 io answer m w =
     (case answer of
        Inl rpc_error \<Rightarrow> (Err rpc_error, m, w)
      | Inr (Inl _) \<Rightarrow> (Ok (), m, w)
      | Inr (Inr services) \<Rightarrow>
          (if services = [] then (Ok (), m, w)
           else
             (let p = plan_services pick services (dm_allocator m);
                  (b, report, w') = start_bridge bind (plan_bridge p) (dm_bridge m) w;
                  active_service_keys = set (map endpoint_key (started report));
                  effective_hosts = filter (\<lambda>e. endpoint_key e \<in> active_service_keys) (plan_hosts p);
                  file = snd (write_entries v6 io effective_hosts (dm_hosts m))
              in (Ok (), \<lparr>dm_allocator = plan_allocator p, dm_bridge = b, dm_hosts = file\<rparr>, w'))))"

definition cleanup_dns :: "hosts_io \<Rightarrow> dns_manager \<Rightarrow> dns_manager" where
  "cleanup_dns io m =
     \<lparr>dm_allocator = clear_allocator (dm_allocator m), dm_bridge = stop_bridge (dm_bridge m),
      dm_hosts = snd (remove_entries io (dm_hosts m))\<rparr>"

section \<open>Lines of the hosts file\<close>

definition unlines :: "string list \<Rightarrow> string" where
  "unlines ls = concat (map (\<lambda>l. l @ [LF]) ls)"

lemma unlines_simps [simp]:
  "unlines [] = []" "unlines (l # ls) = l @ LF # unlines ls" "unlines (ls @ ms) = unlines ls @ unlines ms"
  by (simp_all add: unlines_def)

text \<open>Lines that the writer and the reader agree on: without a terminator inside or at the end.\<close>

abbreviation plain_line :: "string \<Rightarrow> bool" where
  "plain_line l \<equiv> LF \<notin> set l \<and> (l = [] \<or> last l \<noteq> CR)"

lemma split_on_unlines: "\<forall>l \<in> set ls. LF \<notin> set l \<Longrightarrow> split_on LF (unlines ls) = ls @ [[]]"
  by (induction ls) (auto simp: split_on_append_sep)

lemma lines_unlines: "\<forall>l \<in> set ls. plain_line l \<Longrightarrow> lines (unlines ls) = ls"
  by (simp add: lines_def split_on_unlines Let_def) (rule map_idI, auto simp: strip_cr_def)

lemma lines_no_LF: "l \<in> set (lines s) \<Longrightarrow> LF \<notin> set l"
proof -
  have parts: "LF \<notin> set p" if "p \<in> set (split_on LF s)" for p using split_on_parts that by fastforce
  assume "l \<in> set (lines s)"
  then consider p where "p \<in> set (split_on LF s)" "l = strip_cr p" | "l \<in> set (split_on LF s)"
    by (auto simp: lines_def Let_def split: if_splits dest: in_set_butlastD)
  then show "LF \<notin> set l"
    using parts by cases (auto simp: strip_cr_def split: if_splits dest: in_set_butlastD)
qed

lemma remove_existing_entries_unlines:
  "remove_existing_entries content = unlines (filter (Not \<circ> is_tagged) (lines content))"
proof -
  have "foldl (\<lambda>result line. if is_tagged line then result else result @ line @ [LF]) r ls
      = r @ unlines (filter (Not \<circ> is_tagged) ls)" for r ls
    by (induction ls arbitrary: r) auto
  then show ?thesis by (simp add: remove_existing_entries_def)
qed

lemma unlines_ends: "unlines ls = [] \<or> ends_with (unlines ls) [LF]"
  by (cases ls rule: rev_cases) (simp_all add: ends_with_iff)

lemma render_entries_unlines:
  "render_entries v6 es content = unlines (filter (Not \<circ> is_tagged) (lines content) @ map (entry_line v6) es)"
proof -
  have "foldl (\<lambda>cleaned e. cleaned @ entry_line v6 e @ [LF]) r es = r @ unlines (map (entry_line v6) es)" for r
    by (induction es arbitrary: r) auto
  then show ?thesis
    using unlines_ends [of "filter (Not \<circ> is_tagged) (lines content)"]
    by (auto simp: render_entries_def Let_def remove_existing_entries_unlines)
qed

lemma entry_line_tagged: "is_tagged (entry_line v6 e)" "last (entry_line v6 e) \<noteq> CR"
proof -
  have "dropWhile is_whitespace (rev LINE_MARKER @ xs) = rev LINE_MARKER @ xs" for xs
    by (simp add: LINE_MARKER_def is_whitespace_def)
  then have "trim_end (xs @ LINE_MARKER) = xs @ LINE_MARKER" for xs by (simp add: trim_end_def)
  from this [of "show_ip v6 (se_synthetic_ip e) @ '' '' @ join '' '' (aliases e) @ '' ''"]
  show "is_tagged (entry_line v6 e)" by (simp only: is_tagged_def entry_line_def append_assoc ends_with_iff) (metis append_assoc)
  show "last (entry_line v6 e) \<noteq> CR" by (simp add: entry_line_def LINE_MARKER_def CR_def)
qed


text \<open>
  Replacing the hosts file is atomic unless the rename is refused as busy: a failure then leaves the file as
  it was.
\<close>

lemma write_hosts_file_atomic:
  "persist_result io \<noteq> PersistBusy \<Longrightarrow>
   write_hosts_file io content file = (Ok (), content) \<or> (\<exists>e. write_hosts_file io content file = (Err e, file))"
  by (auto simp: write_hosts_file_def split: option.splits persist_result.splits)

section \<open>The bridge\<close>

text \<open>A started bridge: its map and its listeners are those of the started endpoints.\<close>

definition bridge_of :: "bridge \<Rightarrow> service_endpoint list \<Rightarrow> bool" where
  "bridge_of b es \<longleftrightarrow>
     bridge_listeners b = map endpoint_addr es
   \<and> bridge_endpoints b = map_of (rev (map (\<lambda>e. (endpoint_addr e, e)) es))"

lemma start_listeners_bridge_of:
  assumes "start_listeners bind es (b, r, w) = (b', r', w')" and "bridge_of b (started r)"
  shows "bridge_of b' (started r') \<and> set (started r') \<subseteq> set (started r) \<union> set es"
  using assms
proof (induction es arbitrary: b r w)
  case (Cons e es)
  obtain res w1 where bind: "bind (endpoint_addr e) w = (res, w1)" by force
  show ?case
  proof (cases res)
    case (Inl err)
    with Cons.IH [of b "r\<lparr>failed := failed r @ [(e, err)]\<rparr>" w1] Cons.prems bind show ?thesis by auto
  next
    case (Inr u)
    let ?b = "b\<lparr>bridge_endpoints := (bridge_endpoints b)(endpoint_addr e \<mapsto> e),
                bridge_listeners := bridge_listeners b @ [endpoint_addr e]\<rparr>"
    have "bridge_of ?b (started (r\<lparr>started := started r @ [e]\<rparr>))"
      using Cons.prems(2) by (simp add: bridge_of_def)
    with Cons.IH [of ?b "r\<lparr>started := started r @ [e]\<rparr>" w1] Cons.prems(1) bind Inr show ?thesis by auto
  qed
qed auto

lemma bridge_of_lookup: "bridge_of b es \<Longrightarrow> bridge_endpoints b a = Some e \<Longrightarrow> e \<in> set es \<and> endpoint_addr e = a"
  by (auto simp: bridge_of_def dest!: map_of_SomeD)

lemma bridge_of_dom: "bridge_of b es \<Longrightarrow> bridge_endpoints b a = None \<longleftrightarrow> a \<notin> set (bridge_listeners b)"
  by (simp add: bridge_of_def map_of_eq_None_iff image_comp comp_def)

lemma start_bridge_bridge_of:
  assumes "start_bridge bind es b w = (b', r, w')"
  shows "bridge_of b' (started r)" "set (started r) \<subseteq> set es"
proof -
  have "bridge_of ((stop_bridge b)\<lparr>bridge_endpoints := Map.empty\<rparr>) (started \<lparr>started = [], failed = []\<rparr>)"
    by (simp add: bridge_of_def stop_bridge_def)
  from start_listeners_bridge_of [OF _ this] assms
  show "bridge_of b' (started r)" "set (started r) \<subseteq> set es"
    by (fastforce simp: start_bridge_def Let_def)+
qed

section \<open>The plan\<close>

text \<open>
  Every planned endpoint carries the address recorded for its service; the hosts entries are endpoints of
  the bridge, one for each service that has any.
\<close>

definition endpoint_ok :: "allocator \<Rightarrow> service_endpoint \<Rightarrow> bool" where
  "endpoint_ok a e \<longleftrightarrow>
     allocated a (endpoint_key e) = Some (se_synthetic_ip e) \<and> se_fqdn e = endpoint_key e @ ''.svc''
   \<and> se_protocol e = ''TCP''"

definition plan_inv :: "dns_plan \<Rightarrow> bool" where
  "plan_inv p \<longleftrightarrow>
     allocator_reachable (plan_allocator p)
   \<and> list_all (endpoint_ok (plan_allocator p)) (plan_bridge p)
   \<and> set (plan_hosts p) \<subseteq> set (plan_bridge p)
   \<and> distinct (map endpoint_key (plan_hosts p))
   \<and> seen_services p = endpoint_key ` set (plan_hosts p)
   \<and> endpoint_key ` set (plan_hosts p) = endpoint_key ` set (plan_bridge p)"

lemma endpoint_ok_le: "allocated a \<subseteq>\<^sub>m allocated b \<Longrightarrow> endpoint_ok a e \<Longrightarrow> endpoint_ok b e"
  by (auto simp: endpoint_ok_def map_le_def dom_def)

lemma new_endpoint_key [simp]:
  "se_service_name (new_endpoint s port proto ip) = si_name s" "se_namespace (new_endpoint s port proto ip) = si_namespace s"
  "se_synthetic_ip (new_endpoint s port proto ip) = ip" "se_port (new_endpoint s port proto ip) = port"
  by (simp_all add: new_endpoint_def)

lemma plan_port_inv:
  assumes "picks pick" and "plan_inv p"
  shows "plan_inv (plan_port pick s port p)"
proof (cases "is_tcp_protocol (sp_protocol port)")
  case False
  with assms(2) show ?thesis by (simp add: plan_port_def plan_inv_def Let_def)
next
  case True
  let ?n = "si_name s" and ?ns = "si_namespace s"
  obtain r a where call: "allocate pick (plan_allocator p) ?n ?ns = (r, a)" by force
  have reach: "allocator_reachable (plan_allocator p)" using assms(2) by (simp add: plan_inv_def)
  have reach': "allocator_reachable a" using allocate [OF reach assms(1), of ?n ?ns] call by simp
  have call': "(case (?n, ?ns) of (n, ns) \<Rightarrow> allocate pick (plan_allocator p) n ns) = (r, a)" using call by simp
  note step = synthetic.alloc_step [OF reachable_inv [OF reach] assms(1) call', unfolded prod.case]
  have old: "list_all (endpoint_ok a) (plan_bridge p)"
    using assms(2) endpoint_ok_le [OF step(3)] by (auto simp: plan_inv_def list_all_iff)
  show ?thesis
  proof (cases r)
    case None
    with assms(2) True call old reach' show ?thesis by (simp add: plan_port_def plan_inv_def Let_def)
  next
    case (Some ip)
    have "endpoint_ok a (new_endpoint s (sp_port port) (sp_protocol port) ip)"
      using step(2) Some True by (simp add: endpoint_ok_def) (simp add: new_endpoint_def service_key_def)
    with assms(2) True call old reach' Some show ?thesis by (auto simp: plan_port_def plan_inv_def Let_def)
  qed
qed

lemma plan_services_inv:
  assumes "picks pick" and "allocator_reachable a"
  shows "plan_inv (plan_services pick services a)"
proof -
  have ports: "plan_inv (fold (plan_port pick s) ports p)" if "plan_inv p" for s ports p
    using that by (induction ports arbitrary: p) (simp_all add: plan_port_inv [OF assms(1)])
  have "plan_inv (fold (\<lambda>s. fold (plan_port pick s) (si_ports s)) services p)" if "plan_inv p" for p
    using that by (induction services arbitrary: p) (simp_all add: ports)
  then show ?thesis
    unfolding plan_services_def using assms(2)
    by (simp add: plan_inv_def allocator_reachable.clear)
qed

section \<open>Names lead to services\<close>

text \<open>Connections to a hosts entry's address, given a started bridge of planned endpoints.\<close>

lemma handle_connection_planned:
  assumes "bridge_of b es" and "\<forall>e \<in> set es. endpoint_ok a e" and "alloc_inv a" and "endpoint_ok a h"
  shows "handle_connection connect b (Some c) \<lparr>sa_ip = se_synthetic_ip h, sa_port = port\<rparr> =
    (if \<lparr>sa_ip = se_synthetic_ip h, sa_port = port\<rparr> \<in> set (bridge_listeners b)
     then (case connect c (endpoint_key h @ ''.svc'') port of
             Inl err \<Rightarrow> Err (TunnelFailed err) | Inr stream \<Rightarrow> Ok stream)
     else Err (NoEndpoint \<lparr>sa_ip = se_synthetic_ip h, sa_port = port\<rparr>))"
proof (cases "bridge_endpoints b \<lparr>sa_ip = se_synthetic_ip h, sa_port = port\<rparr>")
  case None
  then have "\<lparr>sa_ip = se_synthetic_ip h, sa_port = port\<rparr> \<notin> set (bridge_listeners b)"
    using bridge_of_dom [OF assms(1)] by blast
  with None show ?thesis by (simp add: handle_connection_def)
next
  case (Some e)
  have e: "e \<in> set es" "se_synthetic_ip e = se_synthetic_ip h" "se_port e = port"
    using bridge_of_lookup [OF assms(1) Some] by (auto simp: endpoint_addr_def)
  with assms(2) have "endpoint_ok a e" by blast
  with e assms(3,4) have "endpoint_key e = endpoint_key h"
    by (metis endpoint_ok_def synthetic.view_inj)
  with \<open>endpoint_ok a e\<close> e Some bridge_of_dom [OF assms(1), of "\<lparr>sa_ip = se_synthetic_ip h, sa_port = port\<rparr>"]
  show ?thesis by (simp add: handle_connection_def endpoint_ok_def)
qed

text \<open>
  What a successful answer of the server sets up: the hosts entries written are endpoints of the plan whose
  service has a listener.
\<close>

lemma setup_dns_result:
  assumes "allocator_reachable (dm_allocator m)" and "picks pick" and "services \<noteq> []"
    and "setup_dns_for_environment pick bind v6 io (Ok (Ok services)) m w = (res, m', w')"
  obtains p es hosts where "plan_inv p" "plan_allocator p = dm_allocator m'" "bridge_of (dm_bridge m') es"
    "set es \<subseteq> set (plan_bridge p)"
    "hosts = filter (\<lambda>e. endpoint_key e \<in> endpoint_key ` set es) (plan_hosts p)"
    "dm_hosts m' = snd (write_entries v6 io hosts (dm_hosts m))" "res = Ok ()"
proof -
  let ?p = "plan_services pick services (dm_allocator m)"
  obtain b r w1 where start: "start_bridge bind (plan_bridge ?p) (dm_bridge m) w = (b, r, w1)"
    by (metis prod_cases3)
  show ?thesis
  proof (rule that)
    show "plan_inv ?p" by (rule plan_services_inv [OF assms(2,1)])
    show "bridge_of (dm_bridge m') (started r)" "set (started r) \<subseteq> set (plan_bridge ?p)"
      using start_bridge_bridge_of [OF start] assms(3,4) start
      by (auto simp: setup_dns_for_environment_def Let_def)
  qed (use assms(3,4) start in \<open>auto simp: setup_dns_for_environment_def Let_def\<close>)
qed


text \<open>
  The number of hosts entries is the number of services with a listener, so the warning of
  \<^verbatim>\<open>setup_dns_for_environment\<close> about filtered entries is never given.
\<close>

lemma effective_hosts_complete:
  assumes "plan_inv p" and "set es \<subseteq> set (plan_bridge p)"
  shows "length (filter (\<lambda>e. endpoint_key e \<in> endpoint_key ` set es) (plan_hosts p)) = card (endpoint_key ` set es)"
proof -
  let ?hosts = "filter (\<lambda>e. endpoint_key e \<in> endpoint_key ` set es) (plan_hosts p)"
  have "distinct (map endpoint_key ?hosts)" using assms(1) by (simp add: plan_inv_def distinct_map inj_on_def)
  then have "length ?hosts = card (endpoint_key ` set ?hosts)" using distinct_card [of "map endpoint_key ?hosts"] by (simp only: length_map set_map)
  also have "endpoint_key ` set ?hosts = endpoint_key ` set es"
  proof -
    have "endpoint_key ` set ?hosts = endpoint_key ` set (plan_hosts p) \<inter> endpoint_key ` set es" by auto
    also have "\<dots> = endpoint_key ` set (plan_bridge p) \<inter> endpoint_key ` set es"
      using assms(1) by (simp add: plan_inv_def)
    finally show ?thesis using assms(2) by (simp add: Int_absorb1 image_mono)
  qed
  finally show ?thesis .
qed

section \<open>Every service is reachable\<close>

lemma start_listeners_total:
  assumes "\<forall>a w. \<exists>w'. bind a w = (Ok (), w')"
  shows "\<exists>b' w'. start_listeners bind es (b, r, w) = (b', r\<lparr>started := started r @ es\<rparr>, w')"
proof (induction es arbitrary: b r w)
  case (Cons e es)
  obtain w1 where "bind (endpoint_addr e) w = (Ok (), w1)" using assms by blast
  then show ?case
    using Cons.IH [of _ "r\<lparr>started := started r @ [e]\<rparr>"] by simp
qed simp

lemma is_tcp_TCP: "is_tcp_protocol ''TCP''"
  by code_simp

lemma start_bridge_total:
  assumes "\<forall>a w. \<exists>w'. bind a w = (Ok (), w')" and "\<forall>e \<in> set es. se_protocol e = ''TCP''"
    and "start_bridge bind es b w = (b', r, w')"
  shows "started r = es"
proof -
  have "filter (\<lambda>e. is_tcp_protocol (se_protocol e)) es = es" using assms(2) by (simp add: is_tcp_TCP filter_id_conv)
  with assms(3) start_listeners_total [OF assms(1), of es "(stop_bridge b)\<lparr>bridge_endpoints := Map.empty\<rparr>" "\<lparr>started = [], failed = []\<rparr>" w]
  show ?thesis by (auto simp: start_bridge_def Let_def)
qed

text \<open>While the services fit into the pool, every TCP port of every service gets an endpoint.\<close>

abbreviation info_key :: "service_info \<Rightarrow> string" where
  "info_key s \<equiv> service_key (si_name s) (si_namespace s)"

definition plan_bounded :: "string set \<Rightarrow> dns_plan \<Rightarrow> bool" where
  "plan_bounded K p \<longleftrightarrow> allocator_reachable (plan_allocator p) \<and> dom (allocated (plan_allocator p)) \<subseteq> K"

definition planned :: "service_info \<Rightarrow> service_port \<Rightarrow> dns_plan \<Rightarrow> bool" where
  "planned s port p \<longleftrightarrow> (\<exists>e \<in> set (plan_bridge p). endpoint_key e = info_key s \<and> se_port e = sp_port port)"

lemma plan_port_complete:
  assumes "picks pick" and "finite K" and "card K \<le> 65535" and "info_key s \<in> K" and "plan_bounded K p"
  shows "plan_bounded K (plan_port pick s port p)" "is_tcp_protocol (sp_protocol port) \<Longrightarrow> planned s port (plan_port pick s port p)"
proof -
  let ?n = "si_name s" and ?ns = "si_namespace s"
  obtain r a where call: "allocate pick (plan_allocator p) ?n ?ns = (r, a)" by force
  have reach: "allocator_reachable (plan_allocator p)" and dom: "dom (allocated (plan_allocator p)) \<subseteq> K"
    using assms(5) by (simp_all add: plan_bounded_def)
  have reach': "allocator_reachable a" using allocate [OF reach assms(1), of ?n ?ns] call by simp
  have call': "(case (?n, ?ns) of (n, ns) \<Rightarrow> allocate pick (plan_allocator p) n ns) = (r, a)" using call by simp
  note step = synthetic.alloc_step [OF reachable_inv [OF reach] assms(1) call', unfolded prod.case]
  have "r \<noteq> None"
  proof
    assume "r = None"
    then have fresh: "allocated (plan_allocator p) (info_key s) = None" and inv: "free_pool (plan_allocator p) = {}" "next_offset (plan_allocator p) = 0"
      using call allocate_None_iff [of pick "plan_allocator p" ?n ?ns] by auto
    then have "card (dom (allocated (plan_allocator p))) = 65535"
      using card_allocated [OF reachable_inv [OF reach]] issued_full by simp
    moreover have "card (insert (info_key s) (dom (allocated (plan_allocator p)))) \<le> card K"
      using dom assms(2,4) by (intro card_mono) auto
    ultimately show False
      using fresh assms(3) finite_subset [OF dom assms(2)] by (simp add: domIff)
  qed
  then obtain ip where ip: "r = Some ip" by blast
  have "dom (allocated a) \<subseteq> K" using step(4) dom assms(4) by (metis domIff subsetI subset_iff)
  then show "plan_bounded K (plan_port pick s port p)"
    using assms(5) call ip reach' by (simp add: plan_port_def plan_bounded_def Let_def)
  show "planned s port (plan_port pick s port p)" if "is_tcp_protocol (sp_protocol port)"
    using that call ip by (simp add: plan_port_def planned_def Let_def)
qed

lemma plan_port_keeps: "planned s port p \<Longrightarrow> planned s port (plan_port pick s' port' p)"
  by (auto simp: planned_def plan_port_def Let_def split: prod.splits option.splits)

lemma plan_ports_complete:
  assumes "picks pick" and "finite K" and "card K \<le> 65535" and "info_key s \<in> K" and "plan_bounded K p"
  shows "plan_bounded K (fold (plan_port pick s) ports p)"
    "planned s' port' p \<Longrightarrow> planned s' port' (fold (plan_port pick s) ports p)"
    "port \<in> set ports \<Longrightarrow> is_tcp_protocol (sp_protocol port) \<Longrightarrow> planned s port (fold (plan_port pick s) ports p)"
proof -
  have keeps: "planned s' port' q \<Longrightarrow> planned s' port' (fold (plan_port pick s) ports q)" for s' port' ports q
    by (induction ports arbitrary: q) (simp_all add: plan_port_keeps)
  then show "planned s' port' p \<Longrightarrow> planned s' port' (fold (plan_port pick s) ports p)" .
  show "plan_bounded K (fold (plan_port pick s) ports p)"
    using assms(5) by (induction ports arbitrary: p) (simp_all add: plan_port_complete(1) [OF assms(1-4)])
  show "port \<in> set ports \<Longrightarrow> is_tcp_protocol (sp_protocol port) \<Longrightarrow> planned s port (fold (plan_port pick s) ports p)"
    using assms(5) by (induction ports arbitrary: p) (auto simp: keeps plan_port_complete [OF assms(1-4)])
qed

lemma plan_services_complete:
  assumes "picks pick" and "allocator_reachable a" and "card (set (map info_key services)) \<le> 65535"
    and "s \<in> set services" and "port \<in> set (si_ports s)" and "is_tcp_protocol (sp_protocol port)"
  shows "planned s port (plan_services pick services a)"
proof -
  define K where "K = set (map info_key services)"
  have K: "finite K" "card K \<le> 65535" and mem: "t \<in> set services \<Longrightarrow> info_key t \<in> K" for t
    using assms(3) by (auto simp: K_def)
  let ?f = "\<lambda>s. fold (plan_port pick s) (si_ports s)"
  note ports = plan_ports_complete [OF assms(1) K mem]
  have keeps: "plan_bounded K (fold ?f ss p) \<and> (planned s port p \<longrightarrow> planned s port (fold ?f ss p))"
    if "plan_bounded K p" "set ss \<subseteq> set services" for p ss
    using that by (induction ss arbitrary: p) (simp_all add: ports)
  have main: "planned s port (fold ?f ss p)" if "plan_bounded K p" "set ss \<subseteq> set services" "s \<in> set ss" for p ss
    using that
  proof (induction ss arbitrary: p)
    case (Cons t ss)
    have bounded: "plan_bounded K (?f t p)" using Cons.prems by (simp add: ports(1))
    show ?case
    proof (cases "t = s")
      case True
      then have "planned s port (?f t p)" using Cons.prems assms(5,6) by (simp add: ports(3))
      with keeps [OF bounded, of ss] Cons.prems show ?thesis by simp
    next
      case False
      with Cons.IH [OF bounded] Cons.prems show ?thesis by simp
    qed
  qed simp
  show ?thesis
    unfolding plan_services_def using assms(2,4)
    by (intro main) (simp_all add: plan_bounded_def allocator_reachable.clear, simp add: clear_allocator_def)
qed

text \<open>
  If every address can be bound and at most 65535 services are listed, every TCP port of every listed
  service is reachable by name: the service has a hosts entry, and a listener waits at that address and port.
\<close>

theorem every_service_reachable:
  assumes "allocator_reachable (dm_allocator m)" and "picks pick" and "card (set (map info_key services)) \<le> 65535"
    and "\<forall>a w. \<exists>w'. bind a w = (Ok (), w')"
    and "s \<in> set services" and "port \<in> set (si_ports s)" and "is_tcp_protocol (sp_protocol port)"
    and "setup_dns_for_environment pick bind v6 io (Ok (Ok services)) m w = (res, m', w')"
  shows "\<exists>hosts h. dm_hosts m' = snd (write_entries v6 io hosts (dm_hosts m)) \<and> h \<in> set hosts
    \<and> endpoint_key h = info_key s
    \<and> \<lparr>sa_ip = se_synthetic_ip h, sa_port = sp_port port\<rparr> \<in> set (bridge_listeners (dm_bridge m'))"
proof -
  define p where "p = plan_services pick services (dm_allocator m)"
  obtain b r w1 where start: "start_bridge bind (plan_bridge p) (dm_bridge m) w = (b, r, w1)" by (metis prod_cases3)
  have inv: "plan_inv p" unfolding p_def by (rule plan_services_inv [OF assms(2,1)])
  then have ok: "\<forall>e \<in> set (plan_bridge p). endpoint_ok (plan_allocator p) e" by (simp add: plan_inv_def list_all_iff)
  have all: "started r = plan_bridge p"
    by (rule start_bridge_total [OF assms(4) _ start]) (use ok in \<open>simp add: endpoint_ok_def\<close>)
  let ?hosts = "filter (\<lambda>e. endpoint_key e \<in> endpoint_key ` set (plan_bridge p)) (plan_hosts p)"
  have m': "dm_hosts m' = snd (write_entries v6 io ?hosts (dm_hosts m))" "dm_bridge m' = b"
    using assms(5,8) start all unfolding p_def by (cases services; auto simp: setup_dns_for_environment_def Let_def)+
  obtain e where e: "e \<in> set (plan_bridge p)" "endpoint_key e = info_key s" "se_port e = sp_port port"
    using plan_services_complete [OF assms(2,1,3,5-7)] by (auto simp: p_def planned_def)
  from e(1) inv obtain h where h: "h \<in> set (plan_hosts p)" "endpoint_key h = endpoint_key e"
    by (metis (mono_tags, lifting) image_iff plan_inv_def)
  then have "h \<in> set (plan_bridge p)" using inv by (auto simp: plan_inv_def)
  with ok e(1) have "endpoint_ok (plan_allocator p) h" "endpoint_ok (plan_allocator p) e" by blast+
  with h(2) have "endpoint_addr e = \<lparr>sa_ip = se_synthetic_ip h, sa_port = sp_port port\<rparr>"
    by (simp add: endpoint_ok_def endpoint_addr_def e(3))
  moreover have "endpoint_addr e \<in> set (bridge_listeners b)"
    using start_bridge_bridge_of(1) [OF start] e(1) all by (simp add: bridge_of_def)
  moreover have "h \<in> set ?hosts" using h e(1) by simp
  ultimately show ?thesis using m' h(2) e(2) by metis
qed

text \<open>
  An environment without services, or a failed answer of the server, leaves the hosts entries, the
  listeners and the map of the previous environment as they are: its names still lead to its services.
\<close>

lemma empty_environment_keeps_previous:
  assumes "answer = Err e \<or> answer = Ok (Err e) \<or> answer = Ok (Ok [])"
    and "setup_dns_for_environment pick bind v6 io answer m w = (res, m', w')"
  shows "dm_hosts m' = dm_hosts m
    \<and> handle_connection connect (dm_bridge m') client addr = handle_connection connect (dm_bridge m) client addr"
  using assms by (auto simp: setup_dns_for_environment_def)

section \<open>Witnesses\<close>

definition ex_io :: hosts_io where
  "ex_io = \<lparr>read_error = None, prepare_error = None, persist_result = Persisted, fallback_open_error = None,
            fallback_write_error = None, fallback_sync_error = None\<rparr>"

definition ex_service :: service_info where
  "ex_service = \<lparr>si_name = ''web'', si_namespace = ''dev'',
     si_ports = [\<lparr>sp_name = None, sp_port = 80, sp_protocol = ''TCP''\<rparr>]\<rparr>"

definition ex_manager :: dns_manager where
  "ex_manager = \<lparr>dm_allocator = new_allocator, dm_bridge = new_bridge, dm_hosts = ''127.0.0.1 localhost'' @ [LF]\<rparr>"

abbreviation ex_bind :: "socket_addr \<Rightarrow> nat \<Rightarrow> (string + unit) \<times> nat" where
  "ex_bind \<equiv> \<lambda>_ w. (Ok (), w)"

lemma ex_setup:
  "\<exists>m'. setup_dns_for_environment Min ex_bind (\<lambda>_. []) ex_io (Ok (Ok [ex_service])) ex_manager 0 = (Ok (), m', 0)"
proof -
  have "clear_allocator new_allocator = new_allocator" by (simp add: clear_allocator_def new_allocator_def)
  then show ?thesis
    by (simp add: setup_dns_for_environment_def plan_services_def ex_service_def ex_manager_def plan_port_def
        is_tcp_TCP first_address start_bridge_def new_endpoint_def Let_def)
qed


theorem every_service_reachable_witness:
  "\<exists>m' hosts h. setup_dns_for_environment Min ex_bind (\<lambda>_. []) ex_io (Ok (Ok [ex_service])) ex_manager 0 = (Ok (), m', 0)
    \<and> dm_hosts m' = snd (write_entries (\<lambda>_. []) ex_io hosts (dm_hosts ex_manager)) \<and> h \<in> set hosts
    \<and> endpoint_key h = ''web.dev'' \<and> \<lparr>sa_ip = se_synthetic_ip h, sa_port = 80\<rparr> \<in> set (bridge_listeners (dm_bridge m'))"
proof -
  have reach: "allocator_reachable (dm_allocator ex_manager)" by (simp add: ex_manager_def start)
  obtain m' where m': "setup_dns_for_environment Min ex_bind (\<lambda>_. []) ex_io (Ok (Ok [ex_service])) ex_manager 0 = (Ok (), m', 0)"
    using ex_setup by blast
  from every_service_reachable [OF reach picks_Min _ _ _ _ _ m', of ex_service "hd (si_ports ex_service)"] m'
  show ?thesis by (simp add: ex_service_def is_tcp_TCP service_key_def)
qed


end
