(* ===== verification/Conductor_Db.thy ===== *)
theory Conductor_Db
  imports Lapdev_Prelude
begin

text \<open>
  The tables of the conductor (\<^verbatim>\<open>crates/db/entities/src\<close>) with the columns that scheduling, billing,
  quotas and the life of a workspace read or write, and the lookups of \<^verbatim>\<open>crates/db/src/api.rs\<close> they use.

  A table is the list of its rows in the order in which an unordered query returns them. A time is a
  number of nanoseconds. A column of type \<^verbatim>\<open>i32\<close> is a 32-bit word read as signed. Failures of the database
  itself are not modelled.
\<close>

type_synonym usize = "64 word"
type_synonym time = int

datatype workspace_status =
    New | PrebuildBuilding | PrebuildCopying | Building | Running | Starting | Stopping | Stopped
  | StopFailed | Failed | DeleteFailed | Deleting | Deleted

datatype prebuild_status = BuildingPrebuild | ReadyPrebuild | FailedPrebuild

datatype host_status = NewHost | Active | Inactive | VersionMismatch

datatype cpu_core = Shared nat | Dedicated "nat list"

record machine_type =
  mt_id :: uuid
  mt_shared :: bool
  mt_cpu :: i32
  mt_memory :: i32
  mt_disk :: i32
  mt_cost_per_second :: i32

record workspace_host =
  wh_id :: uuid
  wh_deleted :: bool
  wh_status :: host_status
  wh_cpu :: i32
  wh_memory :: i32
  wh_disk :: i32
  wh_available_dedicated_cpu :: i32
  wh_available_shared_cpu :: i32
  wh_available_memory :: i32
  wh_available_disk :: i32
  wh_region :: string

record workspace =
  ws_id :: uuid
  ws_deleted :: bool
  ws_organization :: uuid
  ws_user :: uuid
  ws_prebuild :: "uuid option"
  ws_status :: workspace_status
  ws_host :: uuid
  ws_cores :: string
  ws_usage :: "nat option"
  ws_machine_type :: uuid
  ws_last_inactivity :: "time option"
  ws_auto_start :: bool
  ws_auto_stop :: "i32 option"
  ws_is_compose :: bool
  ws_compose_parent :: "uuid option"
  ws_updated :: "time option"
  ws_pinned :: bool

record prebuild =
  pb_id :: uuid
  pb_deleted :: bool
  pb_created :: time
  pb_project :: uuid
  pb_branch :: string
  pb_commit :: string
  pb_host :: uuid
  pb_cores :: string
  pb_status :: prebuild_status
  pb_by_workspace :: bool

record prebuild_replica =
  pr_id :: uuid
  pr_deleted :: bool
  pr_prebuild :: uuid
  pr_host :: uuid

record usage =
  us_id :: nat
  us_start :: time
  us_end :: "time option"
  us_resource :: uuid
  us_organization :: uuid
  us_user :: "uuid option"
  us_machine_type :: uuid
  us_duration :: "i32 option"
  us_cost_per_second :: i32
  us_total_cost :: i32

datatype quota_kind = WorkspaceQuota | RunningWorkspaceQuota | ProjectQuota | DailyCostQuota | MonthlyCostQuota

record quota =
  qt_deleted :: bool
  qt_kind :: quota_kind
  qt_value :: i32
  qt_organization :: uuid
  qt_user :: "uuid option"

record project =
  pj_id :: uuid
  pj_deleted :: bool
  pj_organization :: uuid
  pj_machine_type :: uuid

record organization =
  org_id :: uuid
  org_deleted :: bool
  org_name :: string
  org_auto_start :: bool
  org_allow_workspace_change_auto_start :: bool
  org_auto_stop :: "i32 option"
  org_allow_workspace_change_auto_stop :: bool
  org_last_auto_stop_check :: "time option"
  org_usage_limit :: int
  org_running_workspace_limit :: i32
  org_max_cpu :: i32
  org_has_running_workspace :: bool

datatype user_role = Owner | Admin | Member

record member =
  mb_id :: nat
  mb_created_at :: time
  mb_user :: uuid
  mb_organization :: uuid
  mb_role :: user_role
  mb_deleted :: bool

record conductor_db =
  machine_types :: "machine_type list"
  hosts :: "workspace_host list"
  workspaces :: "workspace list"
  prebuilds :: "prebuild list"
  replicas :: "prebuild_replica list"
  usages :: "usage list"
  next_usage :: nat
  quotas :: "quota list"
  projects :: "project list"
  organizations :: "organization list"
  members :: "member list"

definition empty_db :: conductor_db where
  "empty_db = \<lparr>machine_types = [], hosts = [], workspaces = [], prebuilds = [], replicas = [], usages = [], next_usage = 1, quotas = [],
     projects = [], organizations = [], members = []\<rparr>"

section \<open>Lookups\<close>

definition get_machine_type :: "conductor_db \<Rightarrow> uuid \<Rightarrow> machine_type option" where
  "get_machine_type db i = find (\<lambda>m. mt_id m = i) (machine_types db)"

text \<open>The link from a prebuild to its machine type goes through its project.\<close>

definition prebuild_machine_type :: "conductor_db \<Rightarrow> prebuild \<Rightarrow> machine_type option" where
  "prebuild_machine_type db p =
     (case find (\<lambda>j. pj_id j = pb_project p) (projects db) of
        None \<Rightarrow> None
      | Some j \<Rightarrow> get_machine_type db (pj_machine_type j))"

definition get_workspace_host_with_lock :: "conductor_db \<Rightarrow> uuid \<Rightarrow> workspace_host option" where
  "get_workspace_host_with_lock db i = find (\<lambda>h. wh_id h = i \<and> \<not> wh_deleted h) (hosts db)"

definition get_workspace :: "conductor_db \<Rightarrow> uuid \<Rightarrow> workspace option" where
  "get_workspace db i = find (\<lambda>w. ws_id w = i \<and> \<not> ws_deleted w) (workspaces db)"

definition get_organization :: "conductor_db \<Rightarrow> uuid \<Rightarrow> organization option" where
  "get_organization db i = find (\<lambda>r. org_id r = i \<and> \<not> org_deleted r) (organizations db)"

definition get_user_organizations :: "conductor_db \<Rightarrow> uuid \<Rightarrow> member list" where
  "get_user_organizations db u = sort_key mb_created_at (filter (\<lambda>m. mb_user m = u \<and> \<not> mb_deleted m) (members db))"

definition get_prebuild_by_branch_and_commit_with_lock ::
    "conductor_db \<Rightarrow> uuid \<Rightarrow> string \<Rightarrow> string \<Rightarrow> prebuild option" where
  "get_prebuild_by_branch_and_commit_with_lock db project branch commit =
     find (\<lambda>p. pb_project p = project \<and> pb_branch p = branch \<and> pb_commit p = commit \<and> \<not> pb_deleted p) (prebuilds db)"

text \<open>An update of the rows with an id; the columns that are not set keep their value.\<close>

definition update_rows :: "('r \<Rightarrow> 'i) \<Rightarrow> 'i \<Rightarrow> ('r \<Rightarrow> 'r) \<Rightarrow> 'r list \<Rightarrow> 'r list" where
  "update_rows key i f rs = map (\<lambda>r. if key r = i then f r else r) rs"

lemma update_rows_simps [simp]:
  "update_rows key i f [] = []"
  "update_rows key i f (r # rs) = (if key r = i then f r else r) # update_rows key i f rs"
  "length (update_rows key i f rs) = length rs"
  by (simp_all add: update_rows_def)

lemma update_rows_keys: "(\<And>r. key (f r) = key r) \<Longrightarrow> map key (update_rows key i f rs) = map key rs"
  by (induction rs) auto

lemma find_update_rows:
  "(\<And>r. key (f r) = key r) \<Longrightarrow> find (\<lambda>r. key r = i) (update_rows key i f rs) = map_option f (find (\<lambda>r. key r = i) rs)"
  by (induction rs) auto

lemma update_rows_absent: "i \<notin> key ` set rs \<Longrightarrow> update_rows key i f rs = rs"
  by (induction rs) auto

section \<open>Cores in a column\<close>

text \<open>
  \<^verbatim>\<open>CpuCore\<close> is stored as JSON: a number for shared, an array of numbers for dedicated cores. Writing is
  defined here; reading is \<^verbatim>\<open>serde_json\<close>, an argument \<open>parse\<close> of the model, with the law that it reads back
  what was written.
\<close>

definition show_cores :: "cpu_core \<Rightarrow> string" where
  "show_cores c =
     (case c of
        Shared n \<Rightarrow> show_nat n
      | Dedicated ns \<Rightarrow> ''['' @ join '','' (map show_nat ns) @ '']'')"

definition reads_cores :: "(string \<Rightarrow> string + cpu_core) \<Rightarrow> bool" where
  "reads_cores parse \<longleftrightarrow> (\<forall>c. parse (show_cores c) = Ok c)"

text \<open>A reader with that law.\<close>

definition parse_plain :: "string \<Rightarrow> nat" where
  "parse_plain s = (case parse_digits 0 s of None \<Rightarrow> 0 | Some n \<Rightarrow> n)"

definition ex_parse_cores :: "string \<Rightarrow> string + cpu_core" where
  "ex_parse_cores s =
     (if s \<noteq> [] \<and> hd s = CHR ''['' then
        (let inner = butlast (tl s)
         in Ok (Dedicated (if inner = [] then [] else map parse_plain (split_on CHR '','' inner))))
      else Ok (Shared (parse_plain s)))"

lemma ex_parse_cores_reads: "reads_cores ex_parse_cores"
proof -
  have plain: "parse_plain (show_nat n) = n" for n by (simp add: parse_plain_def parse_digits_show_nat)
  have comma: "CHR '','' \<notin> set (show_nat n)" and bracket: "CHR ''['' \<notin> set (show_nat n)" for n
    by (rule show_nat_no, simp)+
  have "hd (show_nat n) \<noteq> CHR ''[''" for n using bracket [of n] hd_in_set [OF show_nat_not_Nil [of n]] by metis
  moreover have "join '','' (map show_nat ns) = [] \<longleftrightarrow> ns = []" for ns by (cases ns rule: list.exhaust; cases "tl ns") auto
  moreover have "map parse_plain (split_on CHR '','' (join '','' (map show_nat ns))) = ns" if "ns \<noteq> []" for ns
    using split_on_join [of "map show_nat ns" "CHR '',''"] that comma by (simp add: comp_def plain)
  ultimately show ?thesis
    by (auto simp: reads_cores_def show_cores_def ex_parse_cores_def plain Let_def split: cpu_core.splits)
qed

end
