(* ===== verification/Scheduler.thy ===== *)
theory Scheduler
  imports Conductor_Db "HOL-Library.Product_Lexorder"
begin

text \<open>
  Placing workspaces and prebuilds on hosts, \<^verbatim>\<open>crates/conductor/src/scheduler.rs\<close>: the choice of a host by
  the columns that say what is available, the choice of dedicated cores, and the computation of those
  columns from what runs on a host.

  Queries are filters on the tables; \<^verbatim>\<open>ORDER BY ... LIMIT 1\<close> is the first of the greatest rows, the order
  among equals being that of the table. Hash sets are sets, the order in which one is iterated over is an
  argument \<open>order\<close> with the law \<open>iterates\<close>. The \<^verbatim>\<open>as\<close> casts between \<^verbatim>\<open>i32\<close> and \<^verbatim>\<open>usize\<close> are casts of words.
\<close>

definition iterates :: "(nat set \<Rightarrow> nat list) \<Rightarrow> bool" where
  "iterates order \<longleftrightarrow> (\<forall>S. finite S \<longrightarrow> distinct (order S) \<and> set (order S) = S)"

abbreviation i32_usize :: "i32 \<Rightarrow> usize" where
  "i32_usize \<equiv> scast"

abbreviation usize_i32 :: "usize \<Rightarrow> i32" where
  "usize_i32 \<equiv> ucast"

section \<open>Cores\<close>

record available_core =
  ac_total :: nat
  ac_overcommit :: nat
  ac_available :: "nat \<rightharpoonup> nat"

definition dedicated_cores :: "available_core \<Rightarrow> nat set" where
  "dedicated_cores c = {k. ac_available c k = Some 0}"

definition sorted_cores :: "(nat set \<Rightarrow> nat list) \<Rightarrow> available_core \<Rightarrow> (nat \<times> nat) list" where
  "sorted_cores order c =
     sort_key (\<lambda>(_, n). - int n) (map (\<lambda>k. (k, the (ac_available c k))) (order (dom (ac_available c))))"

definition available_cores :: "nat \<Rightarrow> nat \<Rightarrow> (nat set \<times> bool) list \<Rightarrow> available_core" where
  "available_cores cpus overcommit existing =
     (let all = foldl (\<lambda>s i. insert i s) {} [0..<cpus];
          all = foldl (\<lambda>s (cores, shared). if \<not> shared then s - cores else s) all existing;
          num = (\<lambda>i. if i \<in> all then Some (0 :: nat) else None);
          num = foldl (\<lambda>m (cores, shared).
                  if shared then (\<lambda>i. if i \<in> cores then map_option Suc (m i) else m i) else m) num existing
      in \<lparr>ac_total = cpus, ac_overcommit = overcommit,
          ac_available = (\<lambda>i. case num i of None \<Rightarrow> None | Some n \<Rightarrow> if n < overcommit then Some n else None)\<rparr>)"

section \<open>What runs on a host\<close>

record existing_resource =
  ex_cores :: "(nat set \<times> bool) list"
  ex_memory :: nat
  ex_disk :: nat

definition no_resource :: existing_resource where
  "no_resource = \<lparr>ex_cores = [], ex_memory = 0, ex_disk = 0\<rparr>"

definition add_existing ::
    "(string \<Rightarrow> string + cpu_core) \<Rightarrow> string \<times> machine_type option \<Rightarrow> existing_resource \<Rightarrow> string + existing_resource" where
  "add_existing parse row existing =
     (case row of
        (_, None) \<Rightarrow> Ok existing
      | (cores_json, Some mt) \<Rightarrow>
          and_then (parse cores_json) (\<lambda>cores.
            let existing = (case cores of
                  Dedicated cs \<Rightarrow> existing\<lparr>ex_cores := ex_cores existing @ [(set cs, False)]\<rparr>
                | Shared _ \<Rightarrow> existing)
            in Ok (existing\<lparr>ex_memory := ex_memory existing + nat (max 0 (sint (mt_memory mt))),
                            ex_disk := ex_disk existing + nat (max 0 (sint (mt_disk mt)))\<rparr>)))"

fun add_all ::
    "(string \<Rightarrow> string + cpu_core) \<Rightarrow> (string \<times> machine_type option) list \<Rightarrow> existing_resource \<Rightarrow> string + existing_resource" where
  "add_all parse [] existing = Ok existing"
| "add_all parse (row # rows) existing = and_then (add_existing parse row existing) (add_all parse rows)"

text \<open>The rows that count: live main workspaces, and prebuilds being built that were not started by a workspace.\<close>

definition ws_counts :: "uuid \<Rightarrow> workspace \<Rightarrow> bool" where
  "ws_counts host w = (ws_host w = host \<and> \<not> ws_deleted w \<and> ws_compose_parent w = None)"

definition pb_counts :: "uuid \<Rightarrow> prebuild \<Rightarrow> bool" where
  "pb_counts host p = (pb_host p = host \<and> pb_status p = BuildingPrebuild \<and> \<not> pb_deleted p \<and> \<not> pb_by_workspace p)"

definition existing_rows :: "conductor_db \<Rightarrow> uuid \<Rightarrow> (string \<times> machine_type option) list" where
  "existing_rows db host =
     map (\<lambda>w. (ws_cores w, get_machine_type db (ws_machine_type w))) (filter (ws_counts host) (workspaces db))
   @ map (\<lambda>p. (pb_cores p, prebuild_machine_type db p)) (filter (pb_counts host) (prebuilds db))"

definition get_existing_resource ::
    "(string \<Rightarrow> string + cpu_core) \<Rightarrow> conductor_db \<Rightarrow> workspace_host \<Rightarrow> string + existing_resource" where
  "get_existing_resource parse db host = add_all parse (existing_rows db (wh_id host)) no_resource"

definition recalcuate_workspce_host ::
    "(string \<Rightarrow> string + cpu_core) \<Rightarrow> conductor_db \<Rightarrow> workspace_host \<Rightarrow> nat \<Rightarrow> string + conductor_db" where
  "recalcuate_workspce_host parse db host cpu_overcommit =
     and_then (get_existing_resource parse db host) (\<lambda>existing.
       let available_core = available_cores (unat (i32_usize (wh_cpu host))) cpu_overcommit (ex_cores existing);
           available_memory = wh_memory host - of_nat (ex_memory existing);
           available_disk = wh_disk host - of_nat (ex_disk existing)
       in Ok (db\<lparr>hosts := update_rows wh_id (wh_id host)
               (\<lambda>h. h\<lparr>wh_available_shared_cpu := of_nat (card (dom (ac_available available_core))),
                      wh_available_dedicated_cpu := of_nat (card (dedicated_cores available_core)),
                      wh_available_memory := available_memory,
                      wh_available_disk := available_disk\<rparr>) (hosts db)\<rparr>))"

section \<open>Choosing a host\<close>

definition host_fits :: "bool \<Rightarrow> usize \<Rightarrow> usize \<Rightarrow> usize \<Rightarrow> string \<Rightarrow> workspace_host \<Rightarrow> bool" where
  "host_fits shared cpu memory disk region h =
     (wh_region h = region \<and> \<not> wh_deleted h \<and> wh_status h = Active
      \<and> sint (usize_i32 memory) \<le> sint (wh_available_memory h)
      \<and> sint (usize_i32 disk) \<le> sint (wh_available_disk h)
      \<and> sint (usize_i32 cpu) \<le> sint (if \<not> shared then wh_available_dedicated_cpu h else wh_available_shared_cpu h))"

definition host_rank :: "bool \<Rightarrow> workspace_host \<Rightarrow> int \<times> int \<times> int" where
  "host_rank shared h =
     (sint (if \<not> shared then wh_available_dedicated_cpu h else wh_available_shared_cpu h),
      sint (wh_available_memory h), sint (wh_available_disk h))"

definition greatest :: "('a \<Rightarrow> 'k :: linorder) \<Rightarrow> 'a list \<Rightarrow> 'a option" where
  "greatest key xs =
     (case xs of [] \<Rightarrow> None | y # ys \<Rightarrow> Some (foldl (\<lambda>b x. if key b < key x then x else b) y ys))"

definition decide_workspace_host ::
    "conductor_db \<Rightarrow> uuid option \<Rightarrow> uuid list \<Rightarrow> bool \<Rightarrow> usize \<Rightarrow> usize \<Rightarrow> usize \<Rightarrow> string \<Rightarrow> string + workspace_host" where
  "decide_workspace_host db prebuild_workspace_host prebuild_replica_hosts shared cpu memory disk region =
     (let query = filter (host_fits shared cpu memory disk region) (hosts db);
          on_prebuild_host = (case prebuild_workspace_host of
            None \<Rightarrow> None | Some i \<Rightarrow> find (\<lambda>h. wh_id h = i) query);
          on_replica_host = (if prebuild_replica_hosts = [] then None
            else greatest (host_rank shared) (filter (\<lambda>h. wh_id h \<in> set prebuild_replica_hosts) query))
      in case on_prebuild_host of
           Some h \<Rightarrow> Ok h
         | None \<Rightarrow>
             (case on_replica_host of
                Some h \<Rightarrow> Ok h
              | None \<Rightarrow> ok_or ''can't find available workspace host'' (greatest (host_rank shared) query)))"

definition pick_workspce_host ::
    "(nat set \<Rightarrow> nat list) \<Rightarrow> (string \<Rightarrow> string + cpu_core) \<Rightarrow> conductor_db \<Rightarrow> uuid option \<Rightarrow> uuid list \<Rightarrow> bool
     \<Rightarrow> usize \<Rightarrow> usize \<Rightarrow> usize \<Rightarrow> string \<Rightarrow> nat \<Rightarrow> string + (workspace_host \<times> cpu_core)" where
  "pick_workspce_host order parse db prebuild_workspace_host prebuild_replica_hosts shared cpu memory disk region cpu_overcommit =
     and_then (decide_workspace_host db prebuild_workspace_host prebuild_replica_hosts shared cpu memory disk region) (\<lambda>host.
     and_then (get_existing_resource parse db host) (\<lambda>existing.
       if \<not> shared then
         (let available = available_cores (unat (i32_usize (wh_cpu host))) cpu_overcommit (ex_cores existing);
              cores = take (unat cpu) (order (dedicated_cores available))
          in if length cores \<noteq> unat cpu then Err ''can't allocate the number of cpus''
             else Ok (host, Dedicated cores))
       else Ok (host, Shared (unat cpu))))"

section \<open>Free cores\<close>

text \<open>The cores that dedicated rows take, and the availability map in closed form.\<close>

definition taken_cores :: "(nat set \<times> bool) list \<Rightarrow> nat set" where
  "taken_cores existing = \<Union> (fst ` {x \<in> set existing. \<not> snd x})"

definition share_count :: "(nat set \<times> bool) list \<Rightarrow> nat \<Rightarrow> nat" where
  "share_count existing i = length (filter (\<lambda>(cores, shared). shared \<and> i \<in> cores) existing)"

lemma ac_available_eq:
  "ac_available (available_cores n overcommit existing) i =
     (if i < n \<and> i \<notin> taken_cores existing \<and> share_count existing i < overcommit
      then Some (share_count existing i) else None)"
proof -
  have all: "foldl (\<lambda>s i. insert i s) S xs = S \<union> set xs" for S :: "nat set" and xs
    by (induction xs arbitrary: S) auto
  have taken: "foldl (\<lambda>s (cores, shared). if \<not> shared then s - cores else s) S xs = S - taken_cores xs" for S xs
  proof (induction xs arbitrary: S)
    case (Cons x xs)
    obtain a b where "x = (a, b)" by force
    with Cons show ?case by (cases b) (auto simp: taken_cores_def)
  qed (simp add: taken_cores_def)
  have count: "foldl (\<lambda>m (cores, shared). if shared then (\<lambda>i. if i \<in> cores then map_option Suc (m i) else m i) else m) m xs
      = (\<lambda>i. map_option (\<lambda>k. k + share_count xs i) (m i))" for m :: "nat \<Rightarrow> nat option" and xs
  proof (induction xs arbitrary: m)
    case (Cons x xs)
    obtain a b where "x = (a, b)" by force
    with Cons show ?case
      by (cases b) (auto simp: share_count_def fun_eq_iff option.map_comp comp_def)
  qed (simp add: share_count_def option.map_ident)
  show ?thesis by (simp add: available_cores_def Let_def all taken count)
qed

lemma dedicated_cores_eq:
  "dedicated_cores (available_cores n overcommit existing) =
     {i. i < n \<and> i \<notin> taken_cores existing \<and> share_count existing i = 0 \<and> 0 < overcommit}"
  by (auto simp: dedicated_cores_def ac_available_eq split: if_splits)

lemma finite_dedicated_cores: "finite (dedicated_cores (available_cores n overcommit existing))"
  by (rule finite_subset [of _ "{..<n}"]) (auto simp: dedicated_cores_eq)

lemma add_all_cores:
  assumes "add_all parse rows existing = Ok r"
  shows "taken_cores (ex_cores r) = taken_cores (ex_cores existing)
      \<union> {i. \<exists>json mt cs. (json, Some mt) \<in> set rows \<and> parse json = Ok (Dedicated cs) \<and> i \<in> set cs}"
    "(\<forall>x \<in> set (ex_cores existing). \<not> snd x) \<Longrightarrow> \<forall>x \<in> set (ex_cores r). \<not> snd x"
    "ex_memory r = ex_memory existing + sum_list (map (\<lambda>(_, m). case m of None \<Rightarrow> 0 | Some mt \<Rightarrow> nat (max 0 (sint (mt_memory mt)))) rows)"
    "ex_disk r = ex_disk existing + sum_list (map (\<lambda>(_, m). case m of None \<Rightarrow> 0 | Some mt \<Rightarrow> nat (max 0 (sint (mt_disk mt)))) rows)"
  using assms
proof (atomize (full), induction rows arbitrary: existing)
  case (Cons row rows)
  obtain json m where row: "row = (json, m)" by force
  from Cons.prems obtain e where e: "add_existing parse row existing = Ok e" "add_all parse rows e = Ok r"
    by (auto simp: and_then_eq_Ok)
  show ?case
  proof (cases m)
    case None
    with Cons.IH [of e] e row show ?thesis by (auto simp: add_existing_def)
  next
    case (Some mt)
    then obtain c where c: "parse json = Ok c" using e(1) row by (auto simp: add_existing_def and_then_eq_Ok)
    show ?thesis
    proof (cases c)
      case (Shared n)
      with Cons.IH [of e] e row Some c show ?thesis by (auto simp: add_existing_def)
    next
      case (Dedicated cs)
      have "taken_cores (ex_cores e) = taken_cores (ex_cores existing) \<union> set cs"
        using e(1) row Some c Dedicated by (auto simp: add_existing_def taken_cores_def)
      with Cons.IH [of e] e row Some c Dedicated show ?thesis by (auto simp: add_existing_def)
    qed
  qed
qed simp

lemma get_existing_resource_cores:
  assumes "get_existing_resource parse db host = Ok r"
  shows "taken_cores (ex_cores r) =
      {i. \<exists>json mt cs. (json, Some mt) \<in> set (existing_rows db (wh_id host)) \<and> parse json = Ok (Dedicated cs) \<and> i \<in> set cs}"
    "share_count (ex_cores r) i = 0"
proof -
  from add_all_cores(1,2) [OF assms [unfolded get_existing_resource_def]]
  show "taken_cores (ex_cores r) =
      {i. \<exists>json mt cs. (json, Some mt) \<in> set (existing_rows db (wh_id host)) \<and> parse json = Ok (Dedicated cs) \<and> i \<in> set cs}"
    "share_count (ex_cores r) i = 0"
    by (auto simp: no_resource_def taken_cores_def share_count_def filter_empty_conv)
qed

lemma greatest_in: "greatest key xs = Some x \<Longrightarrow> x \<in> set xs"
proof -
  have "foldl (\<lambda>b x. if key b < key x then x else b) y ys \<in> insert y (set ys)" for y ys
    by (induction ys arbitrary: y) (auto split: if_splits)
  then show "greatest key xs = Some x \<Longrightarrow> x \<in> set xs" by (auto simp: greatest_def split: list.splits)
qed

lemma decide_workspace_host_in:
  assumes "decide_workspace_host db ph reps shared cpu memory disk region = Ok h"
  shows "h \<in> set (filter (host_fits shared cpu memory disk region) (hosts db))"
proof -
  define Q where "Q = filter (host_fits shared cpu memory disk region) (hosts db)"
  have in_Q: "find P Q = Some h \<Longrightarrow> h \<in> set Q" "greatest key (filter P Q) = Some h \<Longrightarrow> h \<in> set Q"
    for P and key :: "workspace_host \<Rightarrow> int \<times> int \<times> int"
    using greatest_in [of key "filter P Q" h] by (auto simp: find_Some_iff)
  from assms show ?thesis
    unfolding decide_workspace_host_def Let_def Q_def [symmetric]
    by (auto simp: ok_or_eq_Ok simp del: filter_filter split: option.splits if_splits
        dest: in_Q greatest_in)
qed

text \<open>The order of allocation never matters for who owns a core: what is picked was free.\<close>

lemma pick_workspce_host_Ok:
  assumes "iterates order"
    and "pick_workspce_host order parse db ph reps shared cpu memory disk region oc = Ok (host, cores)"
  shows "host \<in> set (hosts db)" "host_fits shared cpu memory disk region host"
    "shared \<Longrightarrow> cores = Shared (unat cpu)"
    "\<not> shared \<Longrightarrow> \<exists>cs. cores = Dedicated cs \<and> length cs = unat cpu \<and> distinct cs
       \<and> (\<forall>i \<in> set cs. i < unat (i32_usize (wh_cpu host))
            \<and> \<not> (\<exists>json mt ds. (json, Some mt) \<in> set (existing_rows db (wh_id host)) \<and> parse json = Ok (Dedicated ds) \<and> i \<in> set ds))"
proof -
  from assms(2) obtain e where host: "decide_workspace_host db ph reps shared cpu memory disk region = Ok host"
    and e: "get_existing_resource parse db host = Ok e"
    by (auto simp: pick_workspce_host_def and_then_eq_Ok Let_def split: if_splits)
  have "host \<in> set (filter (host_fits shared cpu memory disk region) (hosts db))"
    by (rule decide_workspace_host_in [OF host])
  then show "host \<in> set (hosts db)" "host_fits shared cpu memory disk region host" by auto
  show "shared \<Longrightarrow> cores = Shared (unat cpu)"
    using assms(2) host e by (simp add: pick_workspce_host_def)
  assume "\<not> shared"
  define D where "D = dedicated_cores (available_cores (unat (i32_usize (wh_cpu host))) oc (ex_cores e))"
  have D: "cores = Dedicated (take (unat cpu) (order D))" "length (take (unat cpu) (order D)) = unat cpu"
    using assms(2) host e \<open>\<not> shared\<close> unfolding D_def
    by (auto simp: pick_workspce_host_def Let_def simp del: length_take split: if_splits)
  have "finite D" unfolding D_def by (rule finite_dedicated_cores)
  then have it: "distinct (order D)" "set (order D) = D" using assms(1) by (simp_all add: iterates_def)
  have free: "i < unat (i32_usize (wh_cpu host)) \<and> i \<notin> taken_cores (ex_cores e)" if "i \<in> D" for i
    using that by (simp add: D_def dedicated_cores_eq)
  have "set (take (unat cpu) (order D)) \<subseteq> D" using it(2) set_take_subset by fast
  then have ok: "\<forall>i \<in> set (take (unat cpu) (order D)). i < unat (i32_usize (wh_cpu host)) \<and> i \<notin> taken_cores (ex_cores e)"
    using free by blast
  show "\<exists>cs. cores = Dedicated cs \<and> length cs = unat cpu \<and> distinct cs
       \<and> (\<forall>i \<in> set cs. i < unat (i32_usize (wh_cpu host))
            \<and> \<not> (\<exists>json mt ds. (json, Some mt) \<in> set (existing_rows db (wh_id host)) \<and> parse json = Ok (Dedicated ds) \<and> i \<in> set ds))"
    using ok unfolding get_existing_resource_cores(1) [OF e]
    by (intro exI [of _ "take (unat cpu) (order D)"] conjI D distinct_take it(1)) blast
qed

text \<open>
  C33: A host picked for dedicated cores fits the request and gets exactly the requested number of different
  cores of that host, none of which a live workspace or a running prebuild of the host has.
\<close>

theorem picked_cores_are_free:
  assumes "iterates order"
    and "pick_workspce_host order parse db ph reps False cpu memory disk region oc = Ok (host, cores)"
  shows "\<exists>cs. cores = Dedicated cs \<and> length cs = unat cpu \<and> distinct cs
    \<and> host \<in> set (hosts db) \<and> host_fits False cpu memory disk region host
    \<and> (\<forall>i \<in> set cs. i < unat (i32_usize (wh_cpu host))
         \<and> (\<forall>w \<in> set (workspaces db). ws_counts (wh_id host) w \<longrightarrow> get_machine_type db (ws_machine_type w) \<noteq> None \<longrightarrow>
              (\<forall>ds. parse (ws_cores w) = Ok (Dedicated ds) \<longrightarrow> i \<notin> set ds))
         \<and> (\<forall>p \<in> set (prebuilds db). pb_counts (wh_id host) p \<longrightarrow> prebuild_machine_type db p \<noteq> None \<longrightarrow>
              (\<forall>ds. parse (pb_cores p) = Ok (Dedicated ds) \<longrightarrow> i \<notin> set ds)))"
proof -
  obtain cs where cs: "cores = Dedicated cs" "length cs = unat cpu" "distinct cs"
    and free: "\<forall>i \<in> set cs. i < unat (i32_usize (wh_cpu host))
        \<and> \<not> (\<exists>json mt ds. (json, Some mt) \<in> set (existing_rows db (wh_id host)) \<and> parse json = Ok (Dedicated ds) \<and> i \<in> set ds)"
    using pick_workspce_host_Ok(4) [OF assms] by auto
  have ws: "(ws_cores w, Some mt) \<in> set (existing_rows db (wh_id host))"
    if "w \<in> set (workspaces db)" "ws_counts (wh_id host) w" "get_machine_type db (ws_machine_type w) = Some mt" for w mt
    using that by (force simp: existing_rows_def)
  have pb: "(pb_cores p, Some mt) \<in> set (existing_rows db (wh_id host))"
    if "p \<in> set (prebuilds db)" "pb_counts (wh_id host) p" "prebuild_machine_type db p = Some mt" for p mt
    using that by (force simp: existing_rows_def)
  show ?thesis
    using cs pick_workspce_host_Ok(1,2) [OF assms] free ws pb
    by (intro exI [of _ cs] conjI ballI impI allI) (blast | fastforce)+
qed

lemma available_cores_overcommit:
  assumes "\<forall>i. share_count existing i = 0" and "0 < oc" "0 < oc'"
  shows "ac_available (available_cores n oc existing) = ac_available (available_cores n oc' existing)"
  using assms by (auto simp: ac_available_eq fun_eq_iff)

text \<open>
  The configured overcommit of shared cores has no effect: neither the choice of a host and its cores nor
  the recorded availability of a host depends on it, for any two positive values.
\<close>

theorem overcommit_has_no_effect:
  assumes "0 < oc" and "0 < oc'"
  shows "pick_workspce_host order parse db ph reps shared cpu memory disk region oc =
      pick_workspce_host order parse db ph reps shared cpu memory disk region oc'
    \<and> recalcuate_workspce_host parse db host oc = recalcuate_workspce_host parse db host oc'"
proof -
  have same: "ac_available (available_cores n oc (ex_cores e)) = ac_available (available_cores n oc' (ex_cores e))"
    if "get_existing_resource parse db h = Ok e" for h e n
    using available_cores_overcommit [OF _ assms] get_existing_resource_cores(2) [OF that] by blast
  then have ded: "dedicated_cores (available_cores n oc (ex_cores e)) = dedicated_cores (available_cores n oc' (ex_cores e))"
    if "get_existing_resource parse db h = Ok e" for h e n
    using that by (simp add: dedicated_cores_def)
  show ?thesis
    using same ded
    by (auto simp: pick_workspce_host_def recalcuate_workspce_host_def and_then_def Let_def simp del: length_take split: sum.splits)
qed

section \<open>Witnesses\<close>

definition ex_order :: "nat set \<Rightarrow> nat list" where
  "ex_order S = sorted_list_of_set S"

lemma ex_order_iterates: "iterates ex_order"
  by (simp add: iterates_def ex_order_def)

definition ex_host :: workspace_host where
  "ex_host = \<lparr>wh_id = 1, wh_deleted = False, wh_status = Active, wh_cpu = 4, wh_memory = 16, wh_disk = 100,
     wh_available_dedicated_cpu = 4, wh_available_shared_cpu = 4, wh_available_memory = 16, wh_available_disk = 100, wh_region = []\<rparr>"

definition ex_sched_db :: conductor_db where
  "ex_sched_db = empty_db\<lparr>hosts := [ex_host]\<rparr>"

lemma ex_pick:
  "pick_workspce_host ex_order ex_parse_cores ex_sched_db None [] False 2 8 10 [] 4 = Ok (ex_host, Dedicated [0, 1])"
proof -
  have e: "get_existing_resource ex_parse_cores ex_sched_db ex_host = Ok no_resource"
    by (simp add: get_existing_resource_def existing_rows_def ex_sched_db_def empty_db_def)
  have "dedicated_cores (available_cores 4 4 (ex_cores no_resource)) = set [0, 1, 2, 3]"
    by (auto simp: dedicated_cores_eq taken_cores_def share_count_def no_resource_def)
  then have "ex_order (dedicated_cores (available_cores 4 4 (ex_cores no_resource))) = [0, 1, 2, 3]"
    by (simp add: ex_order_def)
  moreover have "decide_workspace_host ex_sched_db None [] False 2 8 10 [] = Ok ex_host"
    by (simp add: decide_workspace_host_def ex_sched_db_def empty_db_def host_fits_def ex_host_def greatest_def)
  moreover have "unat (i32_usize (wh_cpu ex_host)) = 4" by (simp add: ex_host_def)
  ultimately show ?thesis by (simp add: pick_workspce_host_def e Let_def)
qed

theorem picked_cores_are_free_witness: "length [0 :: nat, 1] = unat (2 :: usize) \<and> ex_host \<in> set (hosts ex_sched_db)"
  using picked_cores_are_free [OF ex_order_iterates ex_pick] by simp

theorem overcommit_has_no_effect_witness:
  "pick_workspce_host ex_order ex_parse_cores ex_sched_db None [] False 2 8 10 [] 1 = Ok (ex_host, Dedicated [0, 1])"
  using overcommit_has_no_effect [of 1 4 ex_order ex_parse_cores ex_sched_db None "[]" False 2 8 10 "[]" ex_host] ex_pick by simp

end
