(* ===== verification/Usage_Billing.thy ===== *)
theory Usage_Billing
  imports Conductor_Db
begin

text \<open>
  Billing, \<^verbatim>\<open>crates/enterprise/src/usage.rs\<close>: opening and closing usages, and the cost of an organization or
  user in a window of time. The calendar (\<^verbatim>\<open>chrono\<close>) is an argument. Multiplication of \<^verbatim>\<open>i32\<close> wraps around, as
  in a release build; sums of \<^verbatim>\<open>usize\<close> do not reach 64 bits for any time \<^verbatim>\<open>chrono\<close> can represent in practice
  and are natural numbers.
\<close>

section \<open>Opening and closing\<close>

definition NANOS :: int where "NANOS = 1000000000"

text \<open>\<^verbatim>\<open>TimeDelta::num_seconds\<close> truncates towards zero.\<close>

definition num_seconds :: "time \<Rightarrow> int" where
  "num_seconds d = sgn d * (\<bar>d\<bar> div NANOS)"

definition new_usage ::
    "conductor_db \<Rightarrow> time \<Rightarrow> uuid \<Rightarrow> uuid option \<Rightarrow> uuid \<Rightarrow> uuid \<Rightarrow> i32 \<Rightarrow> nat \<times> conductor_db" where
  "new_usage db start org user resource machine_type cost_per_second =
     (next_usage db,
      db\<lparr>usages := usages db @
           [\<lparr>us_id = next_usage db, us_start = start, us_end = None, us_resource = resource,
             us_organization = org, us_user = user, us_machine_type = machine_type, us_duration = None,
             us_cost_per_second = cost_per_second, us_total_cost = 0\<rparr>],
         next_usage := next_usage db + 1\<rparr>)"

definition end_usage :: "conductor_db \<Rightarrow> nat \<Rightarrow> time \<Rightarrow> string + conductor_db" where
  "end_usage db i end_time =
     (case find (\<lambda>u. us_id u = i) (usages db) of
        None \<Rightarrow> Err ''can't find usage''
      | Some u \<Rightarrow>
          (let duration = word_of_int (max 0 (num_seconds (end_time - us_start u))) :: i32;
               total_cost = us_cost_per_second u * duration
           in Ok (db\<lparr>usages := update_rows us_id i
                       (\<lambda>r. r\<lparr>us_end := Some end_time, us_duration := Some duration, us_total_cost := total_cost\<rparr>)
                       (usages db)\<rparr>)))"

section \<open>Costs\<close>

text \<open>A comparison with a \<^verbatim>\<open>NULL\<close> column selects nothing.\<close>

definition is_or_any :: "'a option \<Rightarrow> 'a \<Rightarrow> bool" where
  "is_or_any sel x = (case sel of None \<Rightarrow> True | Some y \<Rightarrow> x = y)"

definition billed_to :: "uuid \<Rightarrow> uuid option \<Rightarrow> i32 option \<Rightarrow> usage \<Rightarrow> bool" where
  "billed_to org user rate u =
     (us_organization u = org
      \<and> (case user of None \<Rightarrow> True | Some x \<Rightarrow> us_user u = Some x)
      \<and> is_or_any rate (us_cost_per_second u))"

definition end_holds :: "(time \<Rightarrow> bool) \<Rightarrow> usage \<Rightarrow> bool" where
  "end_holds P u = (case us_end u of None \<Rightarrow> False | Some e \<Rightarrow> P e)"

definition is_fixed :: "time \<Rightarrow> time \<Rightarrow> usage \<Rightarrow> bool" where
  "is_fixed start end_time u = (end_holds (\<lambda>e. e \<le> end_time) u \<and> start \<le> us_start u)"

definition is_partial :: "time \<Rightarrow> time \<Rightarrow> usage \<Rightarrow> bool" where
  "is_partial start end_time u =
     ((us_start u < end_time \<and> us_end u = None)
      \<or> (us_start u < end_time \<and> end_holds (\<lambda>e. end_time < e) u)
      \<or> (us_start u < start \<and> end_holds (\<lambda>e. start < e) u))"

definition partial_cost :: "time \<Rightarrow> time \<Rightarrow> time \<Rightarrow> usage \<Rightarrow> nat" where
  "partial_cost start end_time now u =
     (let usage_start = (if us_start u < start then start else us_start u);
          usage_end = (case us_end u of None \<Rightarrow> now | Some e \<Rightarrow> e);
          usage_end = (if end_time < usage_end then end_time else usage_end);
          duration = nat (max 0 (num_seconds (usage_end - usage_start)))
      in duration * nat (max 0 (sint (us_cost_per_second u))))"

definition get_cost ::
    "conductor_db \<Rightarrow> uuid \<Rightarrow> uuid option \<Rightarrow> i32 option \<Rightarrow> time \<Rightarrow> time \<Rightarrow> time \<Rightarrow> nat" where
  "get_cost db org user rate start end_time now =
     (let fixed = filter (\<lambda>u. billed_to org user rate u \<and> is_fixed start end_time u) (usages db);
          fixed_cost = nat (max 0 (sum_list (map (\<lambda>u. sint (us_total_cost u)) fixed)));
          partial = filter (\<lambda>u. billed_to org user rate u \<and> is_partial start end_time u) (usages db);
          total_cost = foldl (\<lambda>acc u. acc + partial_cost start end_time now u) 0 partial
      in total_cost + fixed_cost)"

text \<open>The calendar in the time zone of a date: its day, and the beginning of a day if that is unique.\<close>

record calendar =
  ymd :: "time \<Rightarrow> int \<times> nat \<times> nat"
  midnight :: "int \<Rightarrow> nat \<Rightarrow> nat \<Rightarrow> time option"

definition get_daily_cost ::
    "calendar \<Rightarrow> conductor_db \<Rightarrow> uuid \<Rightarrow> uuid option \<Rightarrow> i32 option \<Rightarrow> time \<Rightarrow> time \<Rightarrow> string + nat" where
  "get_daily_cost cal db org user rate date now =
     (case ymd cal date of (year, month, day) \<Rightarrow>
        and_then (ok_or ''can't parse date'' (midnight cal year month day))
          (\<lambda>day_start. Ok (get_cost db org user rate day_start (day_start + 86400 * NANOS) now)))"

definition get_monthly_cost ::
    "calendar \<Rightarrow> conductor_db \<Rightarrow> uuid \<Rightarrow> uuid option \<Rightarrow> i32 option \<Rightarrow> time \<Rightarrow> time \<Rightarrow> string + nat" where
  "get_monthly_cost cal db org user rate date now =
     (case ymd cal date of (year, month, _) \<Rightarrow>
        and_then (ok_or ''can't parse date'' (midnight cal year month 1)) (\<lambda>month_start.
          (let (year', month') = (if month = 12 then (year + 1, 1) else (year, month + 1))
           in and_then (ok_or ''can't parse date'' (midnight cal year' month' 1))
                (\<lambda>month_end. Ok (get_cost db org user rate month_start month_end now)))))"

section \<open>What is billed\<close>

text \<open>The seconds a usage runs inside a window, and their price.\<close>

definition clipped_seconds :: "time \<Rightarrow> time \<Rightarrow> time \<Rightarrow> usage \<Rightarrow> nat" where
  "clipped_seconds start end_time now u =
     nat (num_seconds (max 0 (min end_time (case us_end u of None \<Rightarrow> now | Some e \<Rightarrow> e) - max start (us_start u))))"

definition price :: "time \<Rightarrow> time \<Rightarrow> time \<Rightarrow> usage \<Rightarrow> nat" where
  "price start end_time now u = clipped_seconds start end_time now u * nat (sint (us_cost_per_second u))"

text \<open>A row as \<open>new_usage\<close> and \<open>end_usage\<close> leave it, without overflow of the total.\<close>

definition usage_ok :: "usage \<Rightarrow> bool" where
  "usage_ok u \<longleftrightarrow>
     0 \<le> sint (us_cost_per_second u)
   \<and> (case us_end u of
        None \<Rightarrow> True
      | Some e \<Rightarrow> us_start u \<le> e \<and>
          sint (us_total_cost u) = sint (us_cost_per_second u) * num_seconds (e - us_start u))"

lemma num_seconds_nonneg: "0 \<le> d \<Longrightarrow> 0 \<le> num_seconds d"
  by (simp add: num_seconds_def NANOS_def sgn_if pos_imp_zdiv_nonneg_iff)

lemma num_seconds_neg: "d < 0 \<Longrightarrow> num_seconds d \<le> 0"
  by (simp add: num_seconds_def NANOS_def sgn_if pos_imp_zdiv_nonneg_iff)

lemma num_seconds_max: "max 0 (num_seconds d) = num_seconds (max 0 d)"
  using num_seconds_nonneg [of d] num_seconds_neg [of d] by (cases "0 \<le> d") (auto simp: num_seconds_def)

lemma num_seconds_0 [simp]: "num_seconds 0 = 0"
  by (simp add: num_seconds_def)

lemma partial_cost_price: "usage_ok u \<Longrightarrow> partial_cost start end_time now u = price start end_time now u"
proof -
  have clip: "(if a < b then b else a) = max b a" "(if b < a then b else a) = min b a" for a b :: int by auto
  assume "usage_ok u"
  then show ?thesis
    by (simp add: partial_cost_def price_def clipped_seconds_def usage_ok_def num_seconds_max clip Let_def)
qed

lemma fixed_price:
  assumes "usage_ok u" and "is_fixed start end_time u"
  shows "nat (sint (us_total_cost u)) = price start end_time now u" "0 \<le> sint (us_total_cost u)"
proof -
  obtain e where e: "us_end u = Some e" "e \<le> end_time" "start \<le> us_start u"
    using assms(2) by (auto simp: is_fixed_def end_holds_def split: option.splits)
  then have ok: "us_start u \<le> e" "0 \<le> sint (us_cost_per_second u)"
    "sint (us_total_cost u) = sint (us_cost_per_second u) * num_seconds (e - us_start u)"
    using assms(1) by (auto simp: usage_ok_def)
  then show "0 \<le> sint (us_total_cost u)" by (simp add: num_seconds_nonneg)
  have "max 0 (min end_time e - max start (us_start u)) = e - us_start u" using e ok(1) by (simp add: max_def min_def)
  then show "nat (sint (us_total_cost u)) = price start end_time now u"
    using e ok by (simp add: price_def clipped_seconds_def nat_mult_distrib num_seconds_nonneg mult.commute)
qed

lemma unselected_price:
  assumes "usage_ok u" and "start \<le> end_time" and "\<not> is_fixed start end_time u" and "\<not> is_partial start end_time u"
  shows "price start end_time now u = 0"
proof -
  have "min end_time (case us_end u of None \<Rightarrow> now | Some e \<Rightarrow> e) - max start (us_start u) \<le> 0"
    using assms by (auto simp: is_fixed_def is_partial_def end_holds_def usage_ok_def split: option.splits)
  then show ?thesis by (simp add: price_def clipped_seconds_def max_absorb1)
qed

lemma not_fixed_and_partial: "\<not> (is_fixed start end_time u \<and> is_partial start end_time u)"
  by (auto simp: is_fixed_def is_partial_def end_holds_def split: option.splits)

lemma foldl_add: "foldl (\<lambda>acc u. acc + f u) (n :: nat) us = n + sum_list (map f us)"
  by (induction us arbitrary: n) auto

lemma get_cost_sum:
  assumes "\<forall>u \<in> set (usages db). usage_ok u" and "start \<le> end_time"
  shows "get_cost db org user rate start end_time now =
    sum_list (map (price start end_time now) (filter (billed_to org user rate) (usages db)))"
proof -
  have "sum_list (map (partial_cost start end_time now) (filter (\<lambda>u. billed_to org user rate u \<and> is_partial start end_time u) us))
      + nat (sum_list (map (\<lambda>u. sint (us_total_cost u)) (filter (\<lambda>u. billed_to org user rate u \<and> is_fixed start end_time u) us)))
      = sum_list (map (price start end_time now) (filter (billed_to org user rate) us))
    \<and> 0 \<le> sum_list (map (\<lambda>u. sint (us_total_cost u)) (filter (\<lambda>u. billed_to org user rate u \<and> is_fixed start end_time u) us))"
    if "\<forall>u \<in> set us. usage_ok u" for us
    using that
  proof (induction us)
    case (Cons u us)
    let ?F = "sum_list (map (\<lambda>u. sint (us_total_cost u)) (filter (\<lambda>u. billed_to org user rate u \<and> is_fixed start end_time u) us))"
    have IH: "0 \<le> ?F" and eq: "sum_list (map (partial_cost start end_time now) (filter (\<lambda>u. billed_to org user rate u \<and> is_partial start end_time u) us))
        + nat ?F = sum_list (map (price start end_time now) (filter (billed_to org user rate) us))"
      using Cons by auto
    have u: "usage_ok u" using Cons.prems by simp
    consider "is_fixed start end_time u" "\<not> is_partial start end_time u"
      | "is_partial start end_time u" "\<not> is_fixed start end_time u"
      | "\<not> is_fixed start end_time u" "\<not> is_partial start end_time u"
      using not_fixed_and_partial by blast
    then show ?case
    proof cases
      case 1
      with fixed_price(1) [OF u 1(1), of now] fixed_price(2) [OF u 1(1)] IH eq show ?thesis by (auto simp: nat_add_distrib)
    next
      case 2
      with partial_cost_price [OF u] IH eq show ?thesis by auto
    next
      case 3
      with unselected_price [OF u assms(2) 3] IH eq show ?thesis by auto
    qed
  qed simp
  from this [OF assms(1)] show ?thesis
    by (simp add: get_cost_def Let_def foldl_add)
qed

text \<open>
  C16: The cost of a window is the sum, over the usages of the organization (and user and rate, when asked),
  of the seconds each runs inside the window times its rate: the sum of stored totals and the loop over
  usages that reach over an edge of the window neither leave a usage out nor count one twice.
\<close>

theorem get_cost_is_sum_of_prices:
  assumes "\<forall>u \<in> set (usages db). usage_ok u" and "start \<le> end_time"
  shows "get_cost db org user rate start end_time now =
    sum_list (map (\<lambda>u. clipped_seconds start end_time now u * nat (sint (us_cost_per_second u)))
      (filter (billed_to org user rate) (usages db)))"
  unfolding get_cost_sum [OF assms] by (simp add: price_def [abs_def])

text \<open>Whole seconds: windows that meet add up.\<close>

definition whole :: "time \<Rightarrow> bool" where
  "whole t \<longleftrightarrow> NANOS dvd t"

lemma num_seconds_add:
  assumes "0 \<le> a" "0 \<le> b" "NANOS dvd a"
  shows "num_seconds (a + b) = num_seconds a + num_seconds b"
proof -
  have "num_seconds d = d div NANOS" if "0 \<le> d" for d using that by (auto simp: num_seconds_def sgn_if)
  with assms show ?thesis by (simp add: div_plus_div_distrib_dvd_left)
qed

lemma whole_clip: "whole a \<Longrightarrow> whole b \<Longrightarrow> whole (max 0 (a - b)) \<and> whole (max a b) \<and> whole (min a b)"
  by (auto simp: whole_def max_def min_def dvd_diff)

lemma clipped_seconds_split:
  assumes "whole (us_start u)" and "whole (case us_end u of None \<Rightarrow> now | Some e \<Rightarrow> e)"
    and "whole a" "whole b" "whole c" "a \<le> b" "b \<le> c"
  shows "clipped_seconds a c now u = clipped_seconds a b now u + clipped_seconds b c now u"
proof -
  define s e where "s = us_start u" and "e = (case us_end u of None \<Rightarrow> now | Some e \<Rightarrow> e)"
  let ?l = "max 0 (min b e - max a s)" and ?r = "max 0 (min c e - max b s)"
  have "whole s" "whole e" using assms(1,2) by (simp_all add: s_def e_def)
  then have "NANOS dvd ?l" using assms(3,4) whole_clip unfolding whole_def [symmetric] by blast
  moreover have "max 0 (min c e - max a s) = ?l + ?r" using assms(6,7) by (auto simp: max_def min_def)
  ultimately show ?thesis
    by (simp add: clipped_seconds_def s_def [symmetric] e_def [symmetric] num_seconds_add num_seconds_nonneg nat_add_distrib)
qed

text \<open>
  Costs of consecutive windows add up: when times are whole seconds, the cost from \<open>a\<close> to \<open>c\<close> is the cost
  from \<open>a\<close> to \<open>b\<close> plus the cost from \<open>b\<close> to \<open>c\<close>, so a month costs what its days cost and no second is billed
  twice.
\<close>

theorem costs_add_up:
  assumes "\<forall>u \<in> set (usages db). usage_ok u \<and> whole (us_start u) \<and> whole (case us_end u of None \<Rightarrow> now | Some e \<Rightarrow> e)"
    and "whole a" "whole b" "whole c" "a \<le> b" "b \<le> c"
  shows "get_cost db org user rate a c now = get_cost db org user rate a b now + get_cost db org user rate b c now"
proof -
  have "price a c now u = price a b now u + price b c now u" if "u \<in> set (usages db)" for u
    using clipped_seconds_split [of u now a b c] assms that by (simp add: price_def add_mult_distrib)
  then have "sum_list (map (price a c now) us) = sum_list (map (price a b now) us) + sum_list (map (price b c now) us)"
    if "set us \<subseteq> set (usages db)" for us
    using that by (induction us) auto
  moreover have "\<forall>u \<in> set (usages db). usage_ok u" "a \<le> c" using assms by auto
  ultimately show ?thesis using assms(5,6) by (simp add: get_cost_sum)
qed

section \<open>Closing a usage\<close>

lemma sint_word_of_int_small: "0 \<le> n \<Longrightarrow> n < 2 ^ 31 \<Longrightarrow> sint (word_of_int n :: i32) = n"
  by (simp add: signed_of_int signed_take_bit_int_eq_self_iff)

lemma end_usage_row:
  assumes "find (\<lambda>u. us_id u = i) (usages db) = Some u"
  shows "end_usage db i t = Ok (db\<lparr>usages := update_rows us_id i
      (\<lambda>r. r\<lparr>us_end := Some t, us_duration := Some (word_of_int (max 0 (num_seconds (t - us_start u)))),
             us_total_cost := us_cost_per_second u * word_of_int (max 0 (num_seconds (t - us_start u)))\<rparr>) (usages db)\<rparr>)"
  using assms by (simp add: end_usage_def Let_def)

lemma total_cost_exact_iff:
  assumes "0 \<le> sint (r :: i32)" "0 \<le> n" "n < 2 ^ 31"
  shows "sint (r * word_of_int n) = sint r * n \<longleftrightarrow> sint r * n < 2 ^ 31"
proof -
  have "sint (r * word_of_int n) = signed_take_bit 31 (sint r * n)"
    using sint_word_of_int_small [OF assms(2,3)] by (simp add: sint_word_ariths(3))
  moreover have "0 \<le> sint r * n" using assms by simp
  then have "- (2 ^ 31) \<le> sint r * n" by (rule order_trans [rotated]) simp
  ultimately show ?thesis by (simp only: signed_take_bit_int_eq_self_iff) simp
qed

text \<open>
  Closing a usage stores its exact price if and only if rate times seconds is below \<open>2 ^ 31\<close>; above,
  the stored 32-bit total is another number.
\<close>

theorem end_usage_exact_iff:
  assumes "find (\<lambda>u. us_id u = i) (usages db) = Some u" and "end_usage db i t = Ok db'"
    and "0 \<le> sint (us_cost_per_second u)" and "us_start u \<le> t" and "num_seconds (t - us_start u) < 2 ^ 31"
    and "find (\<lambda>u. us_id u = i) (usages db') = Some u'"
  shows "sint (us_total_cost u') = sint (us_cost_per_second u) * num_seconds (t - us_start u)
    \<longleftrightarrow> sint (us_cost_per_second u) * num_seconds (t - us_start u) < 2 ^ 31"
proof -
  have "us_total_cost u' = us_cost_per_second u * word_of_int (max 0 (num_seconds (t - us_start u)))"
  proof -
    have "usages db' = usages (projr (end_usage db i t))" using assms(2) by simp
    with assms(6) show ?thesis by (auto simp: end_usage_row [OF assms(1)] find_update_rows assms(1))
  qed
  moreover have "0 \<le> num_seconds (t - us_start u)" using assms(4) by (simp add: num_seconds_nonneg)
  ultimately show ?thesis using total_cost_exact_iff [OF assms(3) _ assms(5)] by simp
qed

lemma new_usage_ok:
  assumes "\<forall>u \<in> set (usages db). usage_ok u" and "0 \<le> sint rate"
  shows "\<forall>u \<in> set (usages (snd (new_usage db t org user res mt rate))). usage_ok u"
  using assms by (auto simp: new_usage_def usage_ok_def)

lemma end_usage_ok:
  assumes "\<forall>u \<in> set (usages db). usage_ok u" and "distinct (map us_id (usages db))"
    and "find (\<lambda>u. us_id u = i) (usages db) = Some u" and "us_start u \<le> t"
    and "num_seconds (t - us_start u) < 2 ^ 31" and "sint (us_cost_per_second u) * num_seconds (t - us_start u) < 2 ^ 31"
    and "end_usage db i t = Ok db'"
  shows "\<forall>u \<in> set (usages db'). usage_ok u"
proof -
  have u: "u \<in> set (usages db)" "us_id u = i" using assms(3) by (auto simp: find_Some_iff)
  have rate: "0 \<le> sint (us_cost_per_second u)" using assms(1) u(1) by (auto simp: usage_ok_def)
  have secs: "0 \<le> num_seconds (t - us_start u)" using assms(4) by (simp add: num_seconds_nonneg)
  have unique: "r = u" if "r \<in> set (usages db)" "us_id r = i" for r
    using that u assms(2) by (metis distinct_map inj_onD)
  show ?thesis
  proof
    fix r assume "r \<in> set (usages db')"
    with assms(7) end_usage_row [OF assms(3), of t] obtain r0 where r0: "r0 \<in> set (usages db)"
      and r: "r = (if us_id r0 = i then r0\<lparr>us_end := Some t, us_duration := Some (word_of_int (max 0 (num_seconds (t - us_start u)))),
             us_total_cost := us_cost_per_second u * word_of_int (max 0 (num_seconds (t - us_start u)))\<rparr> else r0)"
      by (auto simp: update_rows_def)
    show "usage_ok r"
    proof (cases "us_id r0 = i")
      case True
      with unique r0 have "r0 = u" by blast
      with r True rate secs assms(4,6) total_cost_exact_iff [OF rate secs assms(5)] show ?thesis
        by (simp add: usage_ok_def max_absorb2)
    next
      case False
      with r r0 assms(1) show ?thesis by simp
    qed
  qed
qed

section \<open>Witnesses\<close>

definition ex_usage :: usage where
  "ex_usage = \<lparr>us_id = 1, us_start = 0, us_end = Some (10 * NANOS), us_resource = 7, us_organization = 1, us_user = Some 2,
     us_machine_type = 3, us_duration = Some 10, us_cost_per_second = 2, us_total_cost = 20\<rparr>"

definition ex_open_usage :: usage where
  "ex_open_usage = ex_usage\<lparr>us_id := 2, us_start := 5 * NANOS, us_end := None, us_duration := None, us_total_cost := 0\<rparr>"

definition ex_billing_db :: conductor_db where
  "ex_billing_db = empty_db\<lparr>usages := [ex_usage, ex_open_usage], next_usage := 3\<rparr>"

lemma ex_billing_ok: "\<forall>u \<in> set (usages ex_billing_db). usage_ok u"
  by (simp add: ex_billing_db_def ex_usage_def ex_open_usage_def usage_ok_def num_seconds_def NANOS_def)

theorem get_cost_is_sum_of_prices_witness:
  "get_cost ex_billing_db 1 None None 0 (8 * NANOS) (20 * NANOS) = 8 * 2 + 3 * 2"
  by (subst get_cost_is_sum_of_prices [OF ex_billing_ok])
     (simp_all add: ex_billing_db_def ex_usage_def ex_open_usage_def clipped_seconds_def billed_to_def is_or_any_def
        num_seconds_def NANOS_def)

theorem costs_add_up_witness:
  "get_cost ex_billing_db 1 None None 0 (20 * NANOS) (20 * NANOS) =
     get_cost ex_billing_db 1 None None 0 (8 * NANOS) (20 * NANOS) + get_cost ex_billing_db 1 None None (8 * NANOS) (20 * NANOS) (20 * NANOS)"
proof (rule costs_add_up)
  show "\<forall>u \<in> set (usages ex_billing_db). usage_ok u \<and> whole (us_start u) \<and> whole (case us_end u of None \<Rightarrow> 20 * NANOS | Some e \<Rightarrow> e)"
    using ex_billing_ok by (simp add: ex_billing_db_def ex_usage_def ex_open_usage_def whole_def)
qed (simp_all add: whole_def NANOS_def)

theorem end_usage_exact_iff_witness:
  "\<exists>db'. end_usage ex_billing_db 2 (20 * NANOS) = Ok db' \<and>
    (\<forall>u'. find (\<lambda>u. us_id u = 2) (usages db') = Some u' \<longrightarrow> sint (us_total_cost u') = 30)"
proof -
  have u: "find (\<lambda>u. us_id u = 2) (usages ex_billing_db) = Some ex_open_usage"
    by (simp add: ex_billing_db_def ex_usage_def ex_open_usage_def)
  show ?thesis
    unfolding end_usage_row [OF u]
    using end_usage_exact_iff [OF u end_usage_row [OF u], of "20 * NANOS"]
    by (simp add: ex_open_usage_def ex_usage_def num_seconds_def NANOS_def)
qed

end
