(* ===== verification/Quota.thy ===== *)
theory Quota
  imports Usage_Billing
begin

text \<open>
  Quotas and limits, \<^verbatim>\<open>crates/enterprise/src/quota.rs\<close> and \<^verbatim>\<open>enterprise.rs\<close>: what an organization and a user may
  have, what they have, and the checks before a workspace or project is created or started. Whether there
  is a valid license, the calendar and the configured messages are arguments; so is the current time.
\<close>

section \<open>Values\<close>

record quota_value =
  qv_kind :: quota_kind
  qv_user :: nat
  qv_organization :: nat

datatype quota_level = UserLevel | OrganizationLevel

record quota_result =
  qr_kind :: quota_kind
  qr_level :: quota_level
  qr_existing :: nat
  qr_quota :: nat

definition DEFAULT_USER :: uuid where "DEFAULT_USER = 0"

definition quota_rows :: "conductor_db \<Rightarrow> quota_kind \<Rightarrow> uuid \<Rightarrow> uuid \<Rightarrow> quota list" where
  "quota_rows db k org user =
     filter (\<lambda>q. \<not> qt_deleted q \<and> qt_organization q = org \<and> qt_kind q = k
               \<and> (qt_user q = None \<or> qt_user q = Some user \<or> qt_user q = Some DEFAULT_USER)) (quotas db)"

definition quota_value :: "conductor_db \<Rightarrow> quota_kind \<Rightarrow> uuid \<Rightarrow> uuid \<Rightarrow> quota_value" where
  "quota_value db k org user =
     (let rows = quota_rows db k org user;
          v = foldl (\<lambda>v q.
                if qt_user q = None \<and> 0 < sint (qt_value q) then v\<lparr>qv_organization := nat (sint (qt_value q))\<rparr>
                else if qt_user q = Some user \<and> 0 < sint (qt_value q) then v\<lparr>qv_user := nat (sint (qt_value q))\<rparr>
                else v) \<lparr>qv_kind = k, qv_user = 0, qv_organization = 0\<rparr> rows
      in if qv_user v = 0 then
           foldl (\<lambda>v q.
             if qt_user q = Some DEFAULT_USER \<and> 0 < sint (qt_value q) then v\<lparr>qv_user := nat (sint (qt_value q))\<rparr>
             else v) v rows
         else v)"

text \<open>Setting a quota inserts a row or, on a conflict with the unique index, updates its value.\<close>

definition update_quota :: "conductor_db \<Rightarrow> uuid \<Rightarrow> uuid option \<Rightarrow> quota_kind \<Rightarrow> usize \<Rightarrow> conductor_db" where
  "update_quota db org user k v =
     (let same = (\<lambda>q. \<not> qt_deleted q \<and> qt_organization q = org \<and> qt_user q = user \<and> qt_kind q = k)
      in if \<exists>q \<in> set (quotas db). same q
         then db\<lparr>quotas := map (\<lambda>q. if same q then q\<lparr>qt_value := ucast v\<rparr> else q) (quotas db)\<rparr>
         else db\<lparr>quotas := quotas db @ [\<lparr>qt_deleted = False, qt_kind = k, qt_value = ucast v,
                                         qt_organization = org, qt_user = user\<rparr>]\<rparr>)"

definition update_for_organization :: "conductor_db \<Rightarrow> uuid \<Rightarrow> quota_kind \<Rightarrow> usize \<Rightarrow> conductor_db" where
  "update_for_organization db org k v = update_quota db org None k v"

definition update_for_default_user :: "conductor_db \<Rightarrow> uuid \<Rightarrow> quota_kind \<Rightarrow> usize \<Rightarrow> conductor_db" where
  "update_for_default_user db org k v = update_quota db org (Some DEFAULT_USER) k v"

definition update_for_user :: "conductor_db \<Rightarrow> uuid \<Rightarrow> uuid \<Rightarrow> quota_kind \<Rightarrow> usize \<Rightarrow> conductor_db" where
  "update_for_user db org user k v = update_quota db org (Some user) k v"

section \<open>What exists\<close>

definition count_workspaces :: "conductor_db \<Rightarrow> (workspace \<Rightarrow> bool) \<Rightarrow> nat" where
  "count_workspaces db P = length (filter (\<lambda>w. \<not> ws_deleted w \<and> P w) (workspaces db))"

definition get_user_existing :: "calendar \<Rightarrow> time \<Rightarrow> conductor_db \<Rightarrow> quota_kind \<Rightarrow> uuid \<Rightarrow> uuid \<Rightarrow> string + nat" where
  "get_user_existing cal now db k org user =
     (case k of
        WorkspaceQuota \<Rightarrow> Ok (count_workspaces db (\<lambda>w. ws_organization w = org \<and> ws_user w = user))
      | RunningWorkspaceQuota \<Rightarrow>
          Ok (count_workspaces db (\<lambda>w. ws_organization w = org \<and> ws_user w = user \<and> ws_status w \<noteq> Stopped
                                       \<and> ws_compose_parent w = None))
      | ProjectQuota \<Rightarrow> Ok 0
      | DailyCostQuota \<Rightarrow> get_daily_cost cal db org (Some user) None now now
      | MonthlyCostQuota \<Rightarrow> get_monthly_cost cal db org (Some user) None now now)"

definition get_organization_existing :: "calendar \<Rightarrow> time \<Rightarrow> conductor_db \<Rightarrow> quota_kind \<Rightarrow> uuid \<Rightarrow> string + nat" where
  "get_organization_existing cal now db k org =
     (case k of
        WorkspaceQuota \<Rightarrow> Ok (count_workspaces db (\<lambda>w. ws_organization w = org))
      | RunningWorkspaceQuota \<Rightarrow>
          Ok (count_workspaces db (\<lambda>w. ws_organization w = org \<and> ws_status w \<noteq> Stopped \<and> ws_compose_parent w = None))
      | ProjectQuota \<Rightarrow> Ok (length (filter (\<lambda>p. \<not> pj_deleted p \<and> pj_organization p = org) (projects db)))
      | DailyCostQuota \<Rightarrow>
          and_then (get_daily_cost cal db org None None now now) (\<lambda>cost. Ok (cost div 60 div 60))
      | MonthlyCostQuota \<Rightarrow>
          and_then (get_monthly_cost cal db org None None now now) (\<lambda>cost. Ok (cost div 60 div 60)))"

section \<open>Checks\<close>

definition do_check ::
    "calendar \<Rightarrow> time \<Rightarrow> conductor_db \<Rightarrow> quota_value \<Rightarrow> uuid \<Rightarrow> uuid \<Rightarrow> string + quota_result option" where
  "do_check cal now db q org user =
     (let organization_check =
            (if 0 < qv_organization q then
               and_then (get_organization_existing cal now db (qv_kind q) org) (\<lambda>n.
                 if qv_organization q \<le> n
                 then Ok (Some \<lparr>qr_kind = qv_kind q, qr_level = OrganizationLevel, qr_existing = n, qr_quota = qv_organization q\<rparr>)
                 else Ok None)
             else Ok None)
      in if 0 < qv_user q then
           and_then (get_user_existing cal now db (qv_kind q) org user) (\<lambda>n.
             if qv_user q \<le> n
             then Ok (Some \<lparr>qr_kind = qv_kind q, qr_level = UserLevel, qr_existing = n, qr_quota = qv_user q\<rparr>)
             else organization_check)
         else organization_check)"

definition check_quota ::
    "calendar \<Rightarrow> time \<Rightarrow> conductor_db \<Rightarrow> quota_kind \<Rightarrow> uuid \<Rightarrow> uuid \<Rightarrow> string + quota_result option" where
  "check_quota cal now db k org user = do_check cal now db (quota_value db k org user) org user"

fun check_quotas ::
    "calendar \<Rightarrow> time \<Rightarrow> conductor_db \<Rightarrow> uuid \<Rightarrow> uuid \<Rightarrow> quota_kind list \<Rightarrow> string + quota_result option" where
  "check_quotas cal now db org user [] = Ok None"
| "check_quotas cal now db org user (k # kinds) =
     and_then (check_quota cal now db k org user) (\<lambda>r.
       case r of Some q \<Rightarrow> Ok (Some q) | None \<Rightarrow> check_quotas cal now db org user kinds)"

definition check_create_workspace_quota ::
    "bool \<Rightarrow> calendar \<Rightarrow> time \<Rightarrow> conductor_db \<Rightarrow> uuid \<Rightarrow> uuid \<Rightarrow> string + quota_result option" where
  "check_create_workspace_quota licensed cal now db org user =
     (if \<not> licensed then Ok None
      else check_quotas cal now db org user [WorkspaceQuota, RunningWorkspaceQuota, DailyCostQuota, MonthlyCostQuota])"

definition check_start_workspace_quota ::
    "bool \<Rightarrow> calendar \<Rightarrow> time \<Rightarrow> conductor_db \<Rightarrow> uuid \<Rightarrow> uuid \<Rightarrow> string + quota_result option" where
  "check_start_workspace_quota licensed cal now db org user =
     (if \<not> licensed then Ok None
      else check_quotas cal now db org user [RunningWorkspaceQuota, DailyCostQuota, MonthlyCostQuota])"

definition check_create_project_quota ::
    "bool \<Rightarrow> calendar \<Rightarrow> time \<Rightarrow> conductor_db \<Rightarrow> uuid \<Rightarrow> uuid \<Rightarrow> string + quota_result option" where
  "check_create_project_quota licensed cal now db org user =
     (if \<not> licensed then Ok None else check_quotas cal now db org user [ProjectQuota])"

definition check_create_prebuild_quota ::
    "bool \<Rightarrow> calendar \<Rightarrow> time \<Rightarrow> conductor_db \<Rightarrow> uuid \<Rightarrow> uuid \<Rightarrow> string + quota_result option" where
  "check_create_prebuild_quota licensed cal now db org user =
     (if \<not> licensed then Ok None else check_quotas cal now db org user [DailyCostQuota, MonthlyCostQuota])"

text \<open>The limits of the organization itself.\<close>

datatype limit_error = LimitReached string | LimitInternal string

definition get_config_or :: "(string \<rightharpoonup> string) \<Rightarrow> string \<Rightarrow> string \<Rightarrow> string" where
  "get_config_or config name message = (case config name of Some v \<Rightarrow> v | None \<Rightarrow> message)"

fun personal_usage ::
    "calendar \<Rightarrow> time \<Rightarrow> conductor_db \<Rightarrow> uuid \<Rightarrow> member list \<Rightarrow> nat \<Rightarrow> string + nat" where
  "personal_usage cal now db user [] acc = Ok acc"
| "personal_usage cal now db user (m # ms) acc =
     (case get_organization db (mb_organization m) of
        None \<Rightarrow> personal_usage cal now db user ms acc
      | Some org \<Rightarrow>
          (if 0 < sint (org_running_workspace_limit org) then
             and_then (get_monthly_cost cal db (org_id org) (Some user) None now now)
               (\<lambda>cost. personal_usage cal now db user ms (acc + cost))
           else personal_usage cal now db user ms acc))"

definition check_organization_limit ::
    "bool \<Rightarrow> (string \<rightharpoonup> string) \<Rightarrow> calendar \<Rightarrow> time \<Rightarrow> conductor_db \<Rightarrow> organization \<Rightarrow> uuid \<Rightarrow> limit_error + unit" where
  "check_organization_limit licensed config cal now db org user =
     (let internal = map_sum LimitInternal id;
          running = count_workspaces db (\<lambda>w. ws_organization w = org_id org \<and> ws_status w \<noteq> Stopped \<and> ws_compose_parent w = None);
          personal =
            (let all_orgs = get_user_organizations db user
             in if 0 < sint (org_running_workspace_limit org) \<and> 1 < length all_orgs then
                  and_then (internal (personal_usage cal now db user all_orgs 0)) (\<lambda>cost.
                    if org_usage_limit org \<le> int cost then Err (LimitReached ''You have reached your personal usage limit'')
                    else Ok ())
                else Ok ());
          usage =
            (if -1 < org_usage_limit org then
               and_then (internal (get_monthly_cost cal db (org_id org) None None now now)) (\<lambda>cost.
                 if org_usage_limit org \<le> int cost
                 then Err (LimitReached (get_config_or config ''lapdev-usage-limit-error'' ''You have reached the usage limit''))
                 else personal)
             else Ok ())
      in if \<not> licensed then Ok ()
         else if 0 < sint (org_running_workspace_limit org)
               \<and> sint (org_running_workspace_limit org) \<le> sint (of_nat running :: i32)
         then Err (LimitReached (get_config_or config ''lapdev-running-workspace-limit-error''
                     ''You have reached the running workspace limit''))
         else usage)"

section \<open>The quota that applies\<close>

text \<open>The value of the rows of one key: of an organization (no user), of a user, or the default for users.\<close>

definition key_row :: "quota_kind \<Rightarrow> uuid \<Rightarrow> uuid option \<Rightarrow> quota \<Rightarrow> bool" where
  "key_row k org user q \<longleftrightarrow> \<not> qt_deleted q \<and> qt_organization q = org \<and> qt_kind q = k \<and> qt_user q = user"

definition key_value :: "conductor_db \<Rightarrow> quota_kind \<Rightarrow> uuid \<Rightarrow> uuid option \<Rightarrow> nat" where
  "key_value db k org user =
     foldl (\<lambda>acc q. if key_row k org user q \<and> 0 < sint (qt_value q) then nat (sint (qt_value q)) else acc) 0 (quotas db)"

lemma foldl_filter: "foldl f a (filter P xs) = foldl (\<lambda>a x. if P x then f a x else a) a xs"
  by (induction xs arbitrary: a) auto

lemma foldl_pair_fields:
  "foldl (\<lambda>v q. if p q then v\<lparr>qv_organization := f q\<rparr> else if r q then v\<lparr>qv_user := f q\<rparr> else v) v qs =
     v\<lparr>qv_user := foldl (\<lambda>acc q. if \<not> p q \<and> r q then f q else acc) (qv_user v) qs,
       qv_organization := foldl (\<lambda>acc q. if p q then f q else acc) (qv_organization v) qs\<rparr>"
  by (induction qs arbitrary: v) simp_all

lemma foldl_user_field:
  "foldl (\<lambda>v q. if p q then v\<lparr>qv_user := f q\<rparr> else v) v qs = v\<lparr>qv_user := foldl (\<lambda>acc q. if p q then f q else acc) (qv_user v) qs\<rparr>"
  by (induction qs arbitrary: v) simp_all

lemma foldl_rows_key_value:
  assumes "u = None \<or> u = Some user \<or> u = Some DEFAULT_USER"
    and "\<And>q. P q \<longleftrightarrow> qt_user q = u \<and> 0 < sint (qt_value q)"
  shows "foldl (\<lambda>acc q. if P q then nat (sint (qt_value q)) else acc) 0 (quota_rows db k org user) = key_value db k org u"
proof -
  have "(\<lambda>acc q. if \<not> qt_deleted q \<and> qt_organization q = org \<and> qt_kind q = k
            \<and> (qt_user q = None \<or> qt_user q = Some user \<or> qt_user q = Some DEFAULT_USER)
          then if P q then nat (sint (qt_value q)) else acc else acc)
      = (\<lambda>acc q. if key_row k org u q \<and> 0 < sint (qt_value q) then nat (sint (qt_value q)) else acc)"
    using assms(1) by (auto simp: fun_eq_iff key_row_def assms(2))
  then show ?thesis by (simp add: quota_rows_def key_value_def foldl_filter)
qed

lemma quota_value_eq:
  "quota_value db k org user =
     \<lparr>qv_kind = k,
      qv_user = (if key_value db k org (Some user) = 0 then key_value db k org (Some DEFAULT_USER) else key_value db k org (Some user)),
      qv_organization = key_value db k org None\<rparr>"
proof -
  note fields = foldl_rows_key_value [where db = db and k = k and org = org and user = user]
  have "foldl (\<lambda>acc q. if \<not> (qt_user q = None \<and> 0 < sint (qt_value q)) \<and> qt_user q = Some user \<and> 0 < sint (qt_value q)
      then nat (sint (qt_value q)) else acc) 0 (quota_rows db k org user) = key_value db k org (Some user)"
    by (rule fields) auto
  moreover have "foldl (\<lambda>acc q. if qt_user q = None \<and> 0 < sint (qt_value q)
      then nat (sint (qt_value q)) else acc) 0 (quota_rows db k org user) = key_value db k org None"
    by (rule fields) auto
  moreover have "foldl (\<lambda>acc q. if qt_user q = Some DEFAULT_USER \<and> 0 < sint (qt_value q)
      then nat (sint (qt_value q)) else acc) 0 (quota_rows db k org user) = key_value db k org (Some DEFAULT_USER)"
    by (rule fields) auto
  ultimately show ?thesis
    by (simp add: quota_value_def Let_def foldl_pair_fields foldl_user_field)
qed

lemma key_value_update:
  "key_value (update_quota db org u k v) k' org' u' =
     (if (org', u', k') = (org, u, k) then nat (sint (ucast v :: i32)) else key_value db k' org' u')"
proof -
  let ?same = "\<lambda>q. \<not> qt_deleted q \<and> qt_organization q = org \<and> qt_user q = u \<and> qt_kind q = k"
  let ?g = "\<lambda>acc q. if key_row k' org' u' q \<and> 0 < sint (qt_value q) then nat (sint (qt_value q)) else acc"
  let ?upd = "\<lambda>q. if ?same q then q\<lparr>qt_value := ucast v\<rparr> else q"
  have other: "foldl ?g a (map ?upd qs) = foldl ?g a qs" if "(org', u', k') \<noteq> (org, u, k)" for a qs
    using that by (induction qs arbitrary: a) (auto simp: key_row_def)
  have pos: "foldl ?g a (map ?upd qs) = (if \<exists>q \<in> set qs. ?same q then nat (sint (ucast v :: i32)) else a)"
    if "(org', u', k') = (org, u, k)" "0 < sint (ucast v :: i32)" for a qs
    using that by (induction qs arbitrary: a) (auto simp: key_row_def)
  have none: "foldl ?g a (map ?upd qs) = a" if "(org', u', k') = (org, u, k)" "\<not> 0 < sint (ucast v :: i32)" for a qs
    using that by (induction qs arbitrary: a) (auto simp: key_row_def)
  have absent: "foldl ?g a qs = a" if "(org', u', k') = (org, u, k)" "\<not> (\<exists>q \<in> set qs. ?same q)" for a qs
    using that by (induction qs arbitrary: a) (auto simp: key_row_def)
  show ?thesis
    using other pos none absent
    by (cases "\<exists>q \<in> set (quotas db). ?same q"; cases "0 < sint (ucast v :: i32)"; cases "(org', u', k') = (org, u, k)")
       (simp_all add: update_quota_def key_value_def Let_def, auto simp: key_row_def)
qed

text \<open>
  A quota that was set is the quota that is checked: the user's own value if it is positive, else the
  organization's default for users, and next to it the value of the organization; setting one of them changes
  no other and no other organization, user or kind. A value of zero takes the quota away.
\<close>

theorem quota_set_is_checked:
  "quota_value (update_for_user db org user k v) k org user =
     (quota_value db k org user)\<lparr>qv_user :=
        (if 0 < sint (ucast v :: i32) then nat (sint (ucast v :: i32))
         else if user = DEFAULT_USER then 0 else key_value db k org (Some DEFAULT_USER))\<rparr>
   \<and> qv_organization (quota_value (update_for_organization db org k v) k org user) = nat (sint (ucast v :: i32))
   \<and> (key_value db k org (Some user) = 0 \<longrightarrow>
      qv_user (quota_value (update_for_default_user db org k v) k org user) = nat (sint (ucast v :: i32)))
   \<and> (org' \<noteq> org \<or> k' \<noteq> k \<longrightarrow>
      quota_value (update_quota db org u k v) k' org' user' = quota_value db k' org' user')"
  by (auto simp: quota_value_eq key_value_update update_for_user_def update_for_organization_def update_for_default_user_def)

section \<open>What a passed check means\<close>

definition within_quota :: "calendar \<Rightarrow> time \<Rightarrow> conductor_db \<Rightarrow> uuid \<Rightarrow> uuid \<Rightarrow> quota_kind \<Rightarrow> bool" where
  "within_quota cal now db org user k \<longleftrightarrow>
     (let q = quota_value db k org user
      in (0 < qv_user q \<longrightarrow> (\<exists>n. get_user_existing cal now db k org user = Ok n \<and> n < qv_user q))
       \<and> (0 < qv_organization q \<longrightarrow> (\<exists>n. get_organization_existing cal now db k org = Ok n \<and> n < qv_organization q)))"

lemma qv_kind_quota_value [simp]: "qv_kind (quota_value db k org user) = k"
  by (simp add: quota_value_eq)

lemma check_quota_None_iff: "check_quota cal now db k org user = Ok None \<longleftrightarrow> within_quota cal now db org user k"
  by (cases "get_user_existing cal now db k org user"; cases "get_organization_existing cal now db k org")
     (auto simp: check_quota_def do_check_def within_quota_def Let_def)

lemma check_quotas_None_iff:
  "check_quotas cal now db org user ks = Ok None \<longleftrightarrow> (\<forall>k \<in> set ks. within_quota cal now db org user k)"
  by (induction ks) (auto simp: and_then_eq_Ok check_quota_None_iff [symmetric] split: option.splits)

lemma check_quotas_Some:
  "check_quotas cal now db org user ks = Ok (Some r) \<Longrightarrow>
     \<exists>k \<in> set ks. qr_kind r = k \<and> \<not> within_quota cal now db org user k \<and> qr_quota r \<le> qr_existing r
       \<and> (case qr_level r of
            UserLevel \<Rightarrow> qr_quota r = qv_user (quota_value db k org user) \<and> get_user_existing cal now db k org user = Ok (qr_existing r)
          | OrganizationLevel \<Rightarrow> qr_quota r = qv_organization (quota_value db k org user)
                               \<and> get_organization_existing cal now db k org = Ok (qr_existing r))"
  by (induction ks)
     (auto simp: and_then_eq_Ok check_quota_def do_check_def within_quota_def Let_def split: option.splits if_splits)

text \<open>
  Before a workspace is created, the check passes exactly if, without a license, or the organization and
  the user are below every quota that is set, for workspaces, running workspaces, daily and monthly cost; a
  refusal names a quota that is reached, with its value and what exists.
\<close>

theorem create_workspace_quota_spec:
  "(check_create_workspace_quota licensed cal now db org user = Ok None \<longleftrightarrow>
      \<not> licensed \<or> (\<forall>k \<in> {WorkspaceQuota, RunningWorkspaceQuota, DailyCostQuota, MonthlyCostQuota}.
                     within_quota cal now db org user k))
   \<and> (check_create_workspace_quota licensed cal now db org user = Ok (Some r) \<longrightarrow>
      qr_quota r \<le> qr_existing r \<and> \<not> within_quota cal now db org user (qr_kind r))"
  using check_quotas_Some [of cal now db org user "[WorkspaceQuota, RunningWorkspaceQuota, DailyCostQuota, MonthlyCostQuota]" r]
  by (auto simp: check_create_workspace_quota_def check_quotas_None_iff simp del: check_quotas.simps)

text \<open>
  The cost quotas of users and of organizations are in different units. In an organization of one user
  that is billed between \<open>q\<close> and \<open>3600 * q\<close> for the day, with the same daily quota \<open>q\<close> on both levels, the
  organization is within its quota and the user is not.
\<close>

theorem cost_quota_units_differ:
  assumes "get_daily_cost cal db org (Some user) None now now = Ok c" and "get_daily_cost cal db org None None now now = Ok c"
    and "qv_user (quota_value db DailyCostQuota org user) = q" and "qv_organization (quota_value db DailyCostQuota org user) = q"
    and "0 < q" "q \<le> c" "c < 3600 * q"
  shows "check_quota cal now db DailyCostQuota org user =
      Ok (Some \<lparr>qr_kind = DailyCostQuota, qr_level = UserLevel, qr_existing = c, qr_quota = q\<rparr>)
    \<and> do_check cal now db ((quota_value db DailyCostQuota org user)\<lparr>qv_user := 0\<rparr>) org user = Ok None"
proof -
  have "c div 60 div 60 < q" using assms(7) by (simp add: div_less_iff_less_mult flip: div_mult2_eq)
  with assms show ?thesis
    by (simp add: check_quota_def do_check_def Let_def get_user_existing_def get_organization_existing_def)
qed

section \<open>Witnesses\<close>

definition ex_calendar :: calendar where
  "ex_calendar = \<lparr>ymd = (\<lambda>_. (2024, 1, 1)), midnight = (\<lambda>y m d. Some (if m = 1 then 0 else 2678400 * NANOS))\<rparr>"

theorem quota_set_is_checked_witness:
  "qv_user (quota_value (update_for_default_user empty_db 1 WorkspaceQuota 5) WorkspaceQuota 1 2) = 5"
proof -
  have "key_value empty_db WorkspaceQuota 1 (Some 2) = 0" by (simp add: key_value_def empty_db_def)
  with quota_set_is_checked [of empty_db 1 2 WorkspaceQuota 5] show ?thesis by simp
qed

theorem create_workspace_quota_spec_witness:
  "check_create_workspace_quota True ex_calendar 0 empty_db 1 2 = Ok None"
proof -
  have "\<forall>k. within_quota ex_calendar 0 empty_db 1 2 k" by (simp add: within_quota_def quota_value_eq key_value_def empty_db_def)
  with create_workspace_quota_spec [of True ex_calendar 0 empty_db 1 2] show ?thesis by blast
qed

definition ex_quota_db :: conductor_db where
  "ex_quota_db = update_for_organization (update_for_user ex_billing_db 1 2 DailyCostQuota 10) 1 DailyCostQuota 10"

theorem cost_quota_units_differ_witness:
  "\<exists>c. check_quota ex_calendar (20 * NANOS) ex_quota_db DailyCostQuota 1 2 =
    Ok (Some \<lparr>qr_kind = DailyCostQuota, qr_level = UserLevel, qr_existing = c, qr_quota = 10\<rparr>)"
proof -
  have cost: "get_daily_cost ex_calendar ex_quota_db 1 user None (20 * NANOS) (20 * NANOS) = Ok 50" if "user = None \<or> user = Some 2" for user
  proof -
    have us: "usages ex_quota_db = [ex_usage, ex_open_usage]"
      by (simp add: ex_quota_db_def ex_billing_db_def update_for_organization_def update_for_user_def update_quota_def Let_def)
    have "get_cost ex_quota_db 1 user None 0 (86400 * NANOS) (20 * NANOS) =
        sum_list (map (price 0 (86400 * NANOS) (20 * NANOS)) (filter (billed_to 1 user None) [ex_usage, ex_open_usage]))"
      using ex_billing_ok by (subst get_cost_sum) (simp_all add: us ex_billing_db_def NANOS_def)
    also have "filter (billed_to 1 user None) [ex_usage, ex_open_usage] = [ex_usage, ex_open_usage]"
      using that by (auto simp: billed_to_def is_or_any_def ex_usage_def ex_open_usage_def)
    finally show ?thesis
      by (simp add: get_daily_cost_def ex_calendar_def price_def clipped_seconds_def ex_usage_def ex_open_usage_def num_seconds_def NANOS_def)
  qed
  have quota: "quota_value ex_quota_db DailyCostQuota 1 2 = \<lparr>qv_kind = DailyCostQuota, qv_user = 10, qv_organization = 10\<rparr>"
    by (simp add: quota_value_eq ex_quota_db_def update_for_organization_def update_for_user_def key_value_update)
  from cost_quota_units_differ [where cal = ex_calendar and db = ex_quota_db and org = 1 and user = 2 and now = "20 * NANOS" and c = 50 and q = 10]
  show ?thesis using cost quota by simp
qed

end
