(* ===== verification/Workspace_Lifecycle.thy ===== *)
theory Workspace_Lifecycle
  imports Scheduler Quota
begin

text \<open>
  The life of workspaces and prebuilds in the conductor, \<^verbatim>\<open>crates/conductor/src/server.rs\<close>: what each handler
  and each background task does to the tables. A handler is a function from the database to a result and the
  new database; a transaction that is not committed leaves the database as it was. The row a handler is given
  is the one its caller read. Calls to the workspace host are arguments: lost, answered with an error, or done.

  Columns that play no part (names, keys, ports, environment) and the audit log are left out.
\<close>

section \<open>Settings, errors and rows\<close>

record conductor_env =
  ce_licensed :: bool
  ce_config :: "string \<rightharpoonup> string"
  ce_calendar :: calendar
  ce_region :: string
  ce_overcommit :: nat
  ce_order :: "nat set \<Rightarrow> nat list"
  ce_parse :: "string \<Rightarrow> string + cpu_core"

datatype conductor_error =
    BadRequest string | QuotaReached quota_result | NoAvailableWorkspaceHost | Internal string

datatype rpc_answer = RpcLost | RpcRefused | RpcDone

definition update_workspace :: "conductor_db \<Rightarrow> uuid \<Rightarrow> (workspace \<Rightarrow> workspace) \<Rightarrow> conductor_db" where
  "update_workspace db i f = db\<lparr>workspaces := update_rows ws_id i f (workspaces db)\<rparr>"

definition set_has_running :: "conductor_db \<Rightarrow> uuid \<Rightarrow> bool \<Rightarrow> conductor_db" where
  "set_has_running db i b = db\<lparr>organizations := update_rows org_id i (\<lambda>r. r\<lparr>org_has_running_workspace := b\<rparr>) (organizations db)\<rparr>"

definition internal :: "string + 'a \<Rightarrow> conductor_error + 'a" where
  "internal = map_sum Internal id"

definition limit :: "limit_error + 'a \<Rightarrow> conductor_error + 'a" where
  "limit = map_sum (\<lambda>e. case e of LimitReached m \<Rightarrow> BadRequest m | LimitInternal m \<Rightarrow> Internal m) id"

definition quota_passed :: "string + quota_result option \<Rightarrow> conductor_error + unit" where
  "quota_passed r =
     and_then (internal r) (\<lambda>q. case q of Some reached \<Rightarrow> Err (QuotaReached reached) | None \<Rightarrow> Ok ())"

abbreviation is_service :: "workspace \<Rightarrow> bool" where
  "is_service w \<equiv> ws_is_compose w \<and> ws_compose_parent w \<noteq> None"

definition compose_services :: "conductor_db \<Rightarrow> workspace \<Rightarrow> workspace list" where
  "compose_services db w =
     (if ws_is_compose w then filter (\<lambda>c. \<not> ws_deleted c \<and> ws_compose_parent c = Some (ws_id w)) (workspaces db) else [])"

text \<open>An update by id returns the row as it is then stored, and fails if there is none.\<close>

definition updated_row :: "conductor_db \<Rightarrow> uuid \<Rightarrow> conductor_error + workspace" where
  "updated_row db i = internal (ok_or ''None of the records are updated'' (find (\<lambda>r. ws_id r = i) (workspaces db)))"

section \<open>Creating\<close>

definition new_workspace_row ::
    "time \<Rightarrow> uuid \<Rightarrow> organization \<Rightarrow> uuid \<Rightarrow> prebuild option \<Rightarrow> workspace_host \<Rightarrow> cpu_core \<Rightarrow> machine_type \<Rightarrow> workspace" where
  "new_workspace_row now i org user prebuild host cores mt =
     \<lparr>ws_id = i, ws_deleted = False, ws_organization = org_id org, ws_user = user,
      ws_prebuild = map_option pb_host prebuild, ws_status = New, ws_host = wh_id host,
      ws_cores = show_cores cores, ws_usage = None, ws_machine_type = mt_id mt, ws_last_inactivity = None,
      ws_auto_start = org_auto_start org, ws_auto_stop = org_auto_stop org, ws_is_compose = False,
      ws_compose_parent = None, ws_updated = Some now, ws_pinned = False\<rparr>"

definition create_workspace_model ::
    "conductor_env \<Rightarrow> time \<Rightarrow> uuid \<Rightarrow> conductor_db \<Rightarrow> organization \<Rightarrow> uuid \<Rightarrow> (uuid \<times> string \<times> string) option \<Rightarrow> machine_type
     \<Rightarrow> conductor_error + (workspace \<times> conductor_db)" where
  "create_workspace_model env now i db org user project mt =
     (if 0 < sint (org_max_cpu org) \<and> sint (org_max_cpu org) < sint (mt_cpu mt)
      then Err (BadRequest (get_config_or (ce_config env) ''lapdev-max-cpu-error'' ''You can't use this workspace machine type''))
      else
        and_then (limit (check_organization_limit (ce_licensed env) (ce_config env) (ce_calendar env) now db org user)) (\<lambda>_.
        and_then (quota_passed (check_create_workspace_quota (ce_licensed env) (ce_calendar env) now db (org_id org) user)) (\<lambda>_.
          let shared_cpu = (if ce_licensed env then mt_shared mt else False);
              prebuild = (case project of
                None \<Rightarrow> None
              | Some (p, branch, commit) \<Rightarrow> get_prebuild_by_branch_and_commit_with_lock db p branch commit);
              replica_hosts = (case prebuild of
                None \<Rightarrow> []
              | Some p \<Rightarrow> map pr_host (filter (\<lambda>r. \<not> pr_deleted r \<and> pr_prebuild r = pb_id p) (replicas db)))
          in case pick_workspce_host (ce_order env) (ce_parse env) db (map_option pb_host prebuild) replica_hosts shared_cpu
                    (i32_usize (mt_cpu mt)) (i32_usize (mt_memory mt)) (i32_usize (mt_disk mt)) (ce_region env) (ce_overcommit env) of
               Inl _ \<Rightarrow> Err NoAvailableWorkspaceHost
             | Inr (host, cores) \<Rightarrow>
                 (let ws = new_workspace_row now i org user prebuild host cores mt;
                      db' = db\<lparr>workspaces := workspaces db @ [ws]\<rparr>
                  in and_then (internal (recalcuate_workspce_host (ce_parse env) db' host (ce_overcommit env)))
                       (\<lambda>db''. Ok (ws, db''))))))"

text \<open>The end of a build: the first service becomes the workspace, the others rows of their own.\<close>

definition main_running :: "time \<Rightarrow> conductor_db \<Rightarrow> workspace \<Rightarrow> uuid option \<Rightarrow> bool \<Rightarrow> machine_type \<Rightarrow> conductor_db" where
  "main_running now db ws prebuild compose mt =
     (let (usage, db') = (case ws_usage ws of
            Some u \<Rightarrow> (u, db)
          | None \<Rightarrow> new_usage db now (ws_organization ws) (Some (ws_user ws)) (ws_id ws) (mt_id mt) (mt_cost_per_second mt))
      in update_workspace db' (ws_id ws)
           (\<lambda>w. w\<lparr>ws_status := Running, ws_prebuild := prebuild, ws_is_compose := compose, ws_usage := Some usage\<rparr>))"

definition service_row :: "workspace \<Rightarrow> uuid option \<Rightarrow> bool \<Rightarrow> uuid \<Rightarrow> workspace" where
  "service_row ws prebuild compose i =
     ws\<lparr>ws_id := i, ws_deleted := False, ws_prebuild := prebuild, ws_status := Running, ws_usage := None,
        ws_last_inactivity := None, ws_is_compose := compose, ws_compose_parent := Some (ws_id ws), ws_updated := None,
        ws_pinned := False\<rparr>"

definition create_workspace_from_output ::
    "time \<Rightarrow> conductor_db \<Rightarrow> workspace \<Rightarrow> uuid option \<Rightarrow> bool \<Rightarrow> machine_type \<Rightarrow> uuid list \<Rightarrow> conductor_db" where
  "create_workspace_from_output now db ws prebuild compose mt service_ids =
     (let db' = main_running now db ws prebuild compose mt
      in db'\<lparr>workspaces := workspaces db' @ map (service_row ws prebuild compose) service_ids\<rparr>)"

text \<open>The error path of the task that creates a workspace.\<close>

definition create_workspace_failed :: "time \<Rightarrow> conductor_db \<Rightarrow> uuid \<Rightarrow> conductor_db" where
  "create_workspace_failed now db i =
     (let db' = (case get_workspace db i of
            None \<Rightarrow> db
          | Some ws \<Rightarrow>
              (case ws_usage ws of
                 None \<Rightarrow> db
               | Some u \<Rightarrow> (case end_usage db u now of Inl _ \<Rightarrow> db | Inr d \<Rightarrow> d)))
      in update_workspace db' i (\<lambda>w. w\<lparr>ws_status := Failed\<rparr>))"

section \<open>Starting and stopping\<close>

definition start_workspace ::
    "conductor_env \<Rightarrow> time \<Rightarrow> bool \<Rightarrow> conductor_db \<Rightarrow> workspace \<Rightarrow> (conductor_error + workspace list) \<times> conductor_db" where
  "start_workspace env now connected db w =
     (if is_service w
      then (Err (BadRequest ''You can't start a compose service workspace. You can only start the main workspace''), db)
      else
        (case and_then (internal (ok_or ''no organization found'' (get_organization db (ws_organization w)))) (\<lambda>org.
              and_then (limit (check_organization_limit (ce_licensed env) (ce_config env) (ce_calendar env) now db org (ws_user w))) (\<lambda>_.
                quota_passed (check_start_workspace_quota (ce_licensed env) (ce_calendar env) now db (ws_organization w) (ws_user w)))) of
           Inl e \<Rightarrow> (Err e, db)
         | Inr _ \<Rightarrow>
             (let db' = update_workspace db (ws_id w) (\<lambda>r. r\<lparr>ws_updated := Some now, ws_status := Starting\<rparr>)
              in case updated_row db' (ws_id w) of
                   Inl e \<Rightarrow> (Err e, db)
                 | Inr ws \<Rightarrow>
                     (if \<not> connected then (Err (Internal ''can't connect to the workspace servic client''), db')
                      else (Ok (compose_services db' ws @ [ws]), db')))))"

definition do_start_workspace :: "time \<Rightarrow> rpc_answer \<Rightarrow> conductor_db \<Rightarrow> workspace \<Rightarrow> (string + unit) \<times> conductor_db" where
  "do_start_workspace now answer db w =
     (case answer of
        RpcLost \<Rightarrow> (Err ''rpc'', db)
      | RpcRefused \<Rightarrow>
          (Ok (), update_workspace db (ws_id w) (\<lambda>r. r\<lparr>ws_updated := Some now, ws_status := Failed\<rparr>))
      | RpcDone \<Rightarrow>
          (case get_machine_type db (ws_machine_type w) of
             None \<Rightarrow> (Err ''Can't find machine type'', db)
           | Some mt \<Rightarrow>
               (let (usage, db') =
                      (if ws_compose_parent w = None
                       then apfst Some (new_usage db now (ws_organization w) (Some (ws_user w)) (ws_id w) (mt_id mt) (mt_cost_per_second mt))
                       else (None, db));
                    db'' = update_workspace db' (ws_id w)
                      (\<lambda>r. r\<lparr>ws_status := Running, ws_usage := usage, ws_last_inactivity := None, ws_updated := Some now\<rparr>)
                in (Ok (), set_has_running db'' (ws_organization w) True))))"

definition update_org_has_running_workspace :: "conductor_db \<Rightarrow> uuid \<Rightarrow> conductor_db" where
  "update_org_has_running_workspace db org =
     (if \<exists>w \<in> set (workspaces db). ws_organization w = org \<and> \<not> ws_deleted w \<and> ws_status w = Running
      then db else set_has_running db org False)"

definition close_usage :: "conductor_db \<Rightarrow> time \<Rightarrow> workspace \<Rightarrow> string + conductor_db" where
  "close_usage db now w = (case ws_usage w of None \<Rightarrow> Ok db | Some u \<Rightarrow> end_usage db u now)"

definition stop_workspace ::
    "time \<Rightarrow> bool \<Rightarrow> conductor_db \<Rightarrow> workspace \<Rightarrow> (conductor_error + workspace list) \<times> conductor_db" where
  "stop_workspace now connected db w =
     (if is_service w
      then (Err (BadRequest ''You can't stop a compose service workspace. You can only stop the main workspace''), db)
      else
        (case close_usage db now w of
           Inl e \<Rightarrow> (Err (Internal e), db)
         | Inr db1 \<Rightarrow>
             (let db' = update_workspace db1 (ws_id w)
                    (\<lambda>r. r\<lparr>ws_status := Stopping, ws_updated := Some now, ws_usage := None\<rparr>)
              in case updated_row db' (ws_id w) of
                   Inl e \<Rightarrow> (Err e, db)
                 | Inr ws \<Rightarrow>
                     (if \<not> connected then (Err (Internal ''can't connect to the workspace servic client''), db')
                      else (Ok (compose_services db' ws @ [ws]), db')))))"

definition do_stop_workspace :: "time \<Rightarrow> rpc_answer \<Rightarrow> conductor_db \<Rightarrow> workspace \<Rightarrow> (string + unit) \<times> conductor_db" where
  "do_stop_workspace now answer db w =
     (case answer of
        RpcLost \<Rightarrow> (Err ''rpc'', db)
      | _ \<Rightarrow>
          (let status = (if answer = RpcDone then Stopped else StopFailed);
               db' = update_workspace db (ws_id w) (\<lambda>r. r\<lparr>ws_status := status, ws_updated := Some now\<rparr>)
           in (Ok (), update_org_has_running_workspace db' (ws_organization w))))"

section \<open>Prebuilds\<close>

definition create_project_prebuild ::
    "conductor_env \<Rightarrow> time \<Rightarrow> uuid \<Rightarrow> conductor_db \<Rightarrow> uuid \<Rightarrow> project \<Rightarrow> workspace option \<Rightarrow> string \<Rightarrow> string
     \<Rightarrow> conductor_error + (prebuild \<times> nat \<times> conductor_db)" where
  "create_project_prebuild env now i db user project ws branch commit =
     and_then (ok_or (Internal ''Can't find machine type'')
         (get_machine_type db (case ws of Some w \<Rightarrow> ws_machine_type w | None \<Rightarrow> pj_machine_type project))) (\<lambda>mt.
     and_then
       (case ws of
          Some w \<Rightarrow> and_then (internal (ce_parse env (ws_cores w))) (\<lambda>cores. Ok (ws_host w, cores, None))
        | None \<Rightarrow>
            (let shared_cpu = (if ce_licensed env then mt_shared mt else False)
             in case pick_workspce_host (ce_order env) (ce_parse env) db None [] shared_cpu
                       (i32_usize (mt_cpu mt)) (i32_usize (mt_memory mt)) (i32_usize (mt_disk mt)) (ce_region env) (ce_overcommit env) of
                  Inl _ \<Rightarrow> Err NoAvailableWorkspaceHost
                | Inr (host, cores) \<Rightarrow> Ok (wh_id host, cores, Some host))) (\<lambda>(host_id, cores, host).
       let (usage, db1) = new_usage db now (pj_organization project) (Some user) i (mt_id mt) (mt_cost_per_second mt);
           row = \<lparr>pb_id = i, pb_deleted = False, pb_created = now, pb_project = pj_id project, pb_branch = branch,
                  pb_commit = commit, pb_host = host_id, pb_cores = show_cores cores, pb_status = BuildingPrebuild,
                  pb_by_workspace = (ws \<noteq> None)\<rparr>
       in if get_prebuild_by_branch_and_commit_with_lock db (pj_id project) branch commit \<noteq> None
          then Err (BadRequest ''prebuild already exists'')
          else
            (let db2 = db1\<lparr>prebuilds := prebuilds db1 @ [row]\<rparr>
             in case host of
                  None \<Rightarrow> Ok (row, usage, db2)
                | Some h \<Rightarrow>
                    and_then (internal (recalcuate_workspce_host (ce_parse env) db2 h (ce_overcommit env)))
                      (\<lambda>db3. Ok (row, usage, db3)))))"

text \<open>The end of the task that builds it.\<close>

definition finish_prebuild :: "conductor_env \<Rightarrow> time \<Rightarrow> conductor_db \<Rightarrow> prebuild \<Rightarrow> nat \<Rightarrow> bool \<Rightarrow> conductor_db" where
  "finish_prebuild env now db p usage built =
     (let db1 = db\<lparr>prebuilds := update_rows pb_id (pb_id p)
            (\<lambda>r. r\<lparr>pb_status := (if built then ReadyPrebuild else FailedPrebuild)\<rparr>) (prebuilds db)\<rparr>;
          recalculated = (case get_workspace_host_with_lock db (pb_host p) of
            None \<Rightarrow> Ok db1
          | Some h \<Rightarrow> recalcuate_workspce_host (ce_parse env) db1 h (ce_overcommit env))
      in case and_then recalculated (\<lambda>db2. end_usage db2 usage now) of
           Inl _ \<Rightarrow> db
         | Inr db3 \<Rightarrow> db3)"

definition delete_prebuild :: "conductor_db \<Rightarrow> prebuild \<Rightarrow> conductor_error + conductor_db" where
  "delete_prebuild db p =
     (if pb_status p = BuildingPrebuild then Err (BadRequest ''You can't delete a building prebuild'')
      else if \<exists>w \<in> set (workspaces db). \<not> ws_deleted w \<and> ws_prebuild w = Some (pb_id p)
      then Err (BadRequest ''You can't delete a prebuild with depending workspaces'')
      else Ok (db\<lparr>prebuilds := update_rows pb_id (pb_id p) (\<lambda>r. r\<lparr>pb_deleted := True\<rparr>) (prebuilds db)\<rparr>))"

text \<open>Its files on its host and on the replicas; \<open>rpc\<close> is the host's answer, none if it is not connected.\<close>

fun delete_replicas :: "(uuid \<Rightarrow> rpc_answer option) \<Rightarrow> prebuild_replica list \<Rightarrow> conductor_db \<Rightarrow> (conductor_error + unit) \<times> conductor_db" where
  "delete_replicas rpc [] db = (Ok (), db)"
| "delete_replicas rpc (r # rs) db =
     (if rpc (pr_host r) = Some RpcDone
      then delete_replicas rpc rs (db\<lparr>replicas := update_rows pr_id (pr_id r) (\<lambda>r. r\<lparr>pr_deleted := True\<rparr>) (replicas db)\<rparr>)
      else (Err (Internal ''can't delete prebuild on the workspace host''), db))"

definition do_delete_prebuild :: "(uuid \<Rightarrow> rpc_answer option) \<Rightarrow> conductor_db \<Rightarrow> prebuild \<Rightarrow> (conductor_error + unit) \<times> conductor_db" where
  "do_delete_prebuild rpc db p =
     (if rpc (pb_host p) = Some RpcDone
      then delete_replicas rpc (filter (\<lambda>r. \<not> pr_deleted r \<and> pr_prebuild r = pb_id p) (replicas db)) db
      else (Err (Internal ''can't delete prebuild on the workspace host''), db))"

definition check_unused_prebuild :: "conductor_db \<Rightarrow> prebuild \<Rightarrow> conductor_error + conductor_db" where
  "check_unused_prebuild db p =
     (if \<exists>w \<in> set (workspaces db). \<not> ws_deleted w \<and> ws_prebuild w = Some (pb_id p) then Ok db
      else delete_prebuild db p)"

text \<open>\<open>branch_exists\<close>: whether the host of the project still lists the branch of the prebuild.\<close>

definition check_outdated_prebuild :: "(prebuild \<Rightarrow> bool) \<Rightarrow> conductor_db \<Rightarrow> uuid \<Rightarrow> conductor_error + conductor_db" where
  "check_outdated_prebuild branch_exists db i =
     (case find (\<lambda>p. pb_id p = i) (prebuilds db) of
        None \<Rightarrow> Err (Internal ''no prebuild'')
      | Some p \<Rightarrow>
          (if pb_deleted p then Ok db
           else
             (case find (\<lambda>j. pj_id j = pb_project p \<and> \<not> pj_deleted j) (projects db) of
                None \<Rightarrow> Err (Internal ''no project found'')
              | Some _ \<Rightarrow>
                  (case greatest pb_created (filter (\<lambda>q. pb_project q = pb_project p \<and> \<not> pb_deleted q) (prebuilds db)) of
                     None \<Rightarrow> Err (Internal ''project doesn't have prebuilds'')
                   | Some latest \<Rightarrow>
                       (if pb_id p = pb_id latest \<and> branch_exists p then Ok db else check_unused_prebuild db p)))))"

section \<open>Deleting and rebuilding\<close>

definition is_building :: "workspace_status \<Rightarrow> bool" where
  "is_building s \<longleftrightarrow> s \<in> {PrebuildBuilding, Building, PrebuildCopying, New}"

definition delete_workspace :: "time \<Rightarrow> conductor_db \<Rightarrow> workspace \<Rightarrow> conductor_error + (workspace list \<times> conductor_db)" where
  "delete_workspace now db w =
     (if is_building (ws_status w) then Err (BadRequest ''Can't delete workspace when it's building'')
      else if is_service w
      then Err (BadRequest ''You can't delete a compose service workspace. You can only delete the main workspace'')
      else
        and_then (internal (close_usage db now w)) (\<lambda>db1.
          let db' = update_workspace db1 (ws_id w) (\<lambda>r. r\<lparr>ws_status := Deleting, ws_updated := Some now, ws_usage := None\<rparr>)
          in and_then (updated_row db' (ws_id w)) (\<lambda>ws. Ok (compose_services db' ws @ [ws], db'))))"

definition do_delete_workspace ::
    "conductor_env \<Rightarrow> (prebuild \<Rightarrow> bool) \<Rightarrow> time \<Rightarrow> rpc_answer option \<Rightarrow> conductor_db \<Rightarrow> workspace \<Rightarrow> (string + unit) \<times> conductor_db" where
  "do_delete_workspace env branch_exists now answer db w =
     (case answer of
        None \<Rightarrow> (Err ''can't connect to the workspace servic client'', db)
      | Some RpcLost \<Rightarrow> (Err ''rpc'', db)
      | Some RpcRefused \<Rightarrow>
          (Ok (), update_org_has_running_workspace
             (update_workspace db (ws_id w) (\<lambda>r. r\<lparr>ws_status := DeleteFailed, ws_updated := Some now\<rparr>)) (ws_organization w))
      | Some RpcDone \<Rightarrow>
          (let db1 = update_workspace db (ws_id w) (\<lambda>r. r\<lparr>ws_status := Deleted, ws_deleted := True, ws_updated := Some now\<rparr>);
               recalculated = (case get_workspace_host_with_lock db (ws_host w) of
                 None \<Rightarrow> Ok db1
               | Some h \<Rightarrow> recalcuate_workspce_host (ce_parse env) db1 h (ce_overcommit env))
           in case recalculated of
                Inl e \<Rightarrow> (Err e, db)
              | Inr db2 \<Rightarrow>
                  (let db3 = (case ws_prebuild w of
                         None \<Rightarrow> db2
                       | Some p \<Rightarrow> (case check_outdated_prebuild branch_exists db2 p of Inl _ \<Rightarrow> db2 | Inr d \<Rightarrow> d))
                   in (Ok (), update_org_has_running_workspace db3 (ws_organization w)))))"

definition rebuild_workspace ::
    "conductor_env \<Rightarrow> time \<Rightarrow> conductor_db \<Rightarrow> workspace \<Rightarrow> conductor_error + (nat \<times> workspace \<times> conductor_db)" where
  "rebuild_workspace env now db w =
     (if is_building (ws_status w) then Err (BadRequest ''Can't rebuild workspace when it's building'')
      else if is_service w
      then Err (BadRequest ''You can't rebuild a compose service workspace. You can only rebuild the main workspace'')
      else
        and_then (internal (ok_or ''no organization found'' (get_organization db (ws_organization w)))) (\<lambda>org.
        and_then (limit (check_organization_limit (ce_licensed env) (ce_config env) (ce_calendar env) now db org (ws_user w))) (\<lambda>_.
        and_then (if ws_status w \<noteq> Running
                  then quota_passed (check_start_workspace_quota (ce_licensed env) (ce_calendar env) now db (ws_organization w) (ws_user w))
                  else Ok ()) (\<lambda>_.
        and_then (ok_or (Internal ''Can't find machine type'') (get_machine_type db (ws_machine_type w))) (\<lambda>mt.
          let (usage, db1) = (case ws_usage w of
                Some u \<Rightarrow> (u, db)
              | None \<Rightarrow> new_usage db now (ws_organization w) (Some (ws_user w)) (ws_id w) (ws_machine_type w) (mt_cost_per_second mt));
              db' = update_workspace db1 (ws_id w)
                (\<lambda>r. r\<lparr>ws_status := Building, ws_usage := Some usage, ws_last_inactivity := None, ws_updated := Some now\<rparr>)
          in and_then (updated_row db' (ws_id w)) (\<lambda>ws. Ok (usage, ws, db')))))))"

text \<open>The error path of the task that rebuilds.\<close>

definition rebuild_failed :: "time \<Rightarrow> conductor_db \<Rightarrow> workspace \<Rightarrow> nat \<Rightarrow> conductor_db" where
  "rebuild_failed now db w usage =
     (case end_usage db usage now of
        Inl _ \<Rightarrow> db
      | Inr db1 \<Rightarrow> update_workspace db1 (ws_id w) (\<lambda>r. r\<lparr>ws_status := Failed, ws_updated := Some now\<rparr>))"

definition get_inactive_workspaces_on_host :: "conductor_db \<Rightarrow> uuid \<Rightarrow> time \<Rightarrow> workspace list" where
  "get_inactive_workspaces_on_host db host t =
     filter (\<lambda>w. ws_host w = host \<and> \<not> ws_deleted w \<and> ws_status w = Stopped \<and> \<not> ws_pinned w
               \<and> (case ws_updated w of None \<Rightarrow> False | Some u \<Rightarrow> u < t)) (workspaces db)"

text \<open>The rows are read once; each deletion starts its own task (the list), a failed one is only logged.\<close>

definition auto_delete_inactive_workspaces_on_host :: "time \<Rightarrow> conductor_db \<Rightarrow> uuid \<Rightarrow> workspace list list \<times> conductor_db" where
  "auto_delete_inactive_workspaces_on_host now db host =
     foldl (\<lambda>(tasks, d) w.
         if ws_compose_parent w = None
         then (case delete_workspace now d w of Inl _ \<Rightarrow> (tasks, d) | Inr (task, d') \<Rightarrow> (tasks @ [task], d'))
         else (tasks, d))
       ([], db) (get_inactive_workspaces_on_host db host (now - 14 * 24 * 60 * 60 * NANOS))"

section \<open>Reserved cores\<close>

text \<open>The dedicated cores of the rows that count on a host; exclusive if no two rows share one.\<close>

definition row_cores :: "(string \<Rightarrow> string + cpu_core) \<Rightarrow> string \<times> machine_type option \<Rightarrow> nat set" where
  "row_cores parse row =
     (case row of
        (_, None) \<Rightarrow> {}
      | (json, Some _) \<Rightarrow> (case parse json of Inr (Dedicated cs) \<Rightarrow> set cs | _ \<Rightarrow> {}))"

definition exclusive :: "(string \<Rightarrow> string + cpu_core) \<Rightarrow> conductor_db \<Rightarrow> bool" where
  "exclusive parse db \<longleftrightarrow> (\<forall>h. sorted_wrt (\<lambda>r s. row_cores parse r \<inter> row_cores parse s = {}) (existing_rows db h))"

definition shrinks :: "conductor_db \<Rightarrow> conductor_db \<Rightarrow> bool" where
  "shrinks db db' \<longleftrightarrow> (\<forall>h. subseq (existing_rows db' h) (existing_rows db h))"

lemma sorted_wrt_subseq: "subseq xs ys \<Longrightarrow> sorted_wrt P ys \<Longrightarrow> sorted_wrt P xs"
proof (induction rule: list_emb.induct)
  case (list_emb_Cons2 x y xs ys)
  then have "set xs \<subseteq> set ys" by (auto elim: list_emb_set)
  with list_emb_Cons2 show ?case by auto
qed auto

lemma exclusive_shrinks: "shrinks db db' \<Longrightarrow> exclusive parse db \<Longrightarrow> exclusive parse db'"
  unfolding exclusive_def shrinks_def using sorted_wrt_subseq by blast

lemma shrinks_refl [simp]: "shrinks db db"
  by (simp add: shrinks_def)

lemma shrinks_trans: "shrinks a b \<Longrightarrow> shrinks b c \<Longrightarrow> shrinks a c"
  unfolding shrinks_def using subseq_order.trans by blast

lemma sorted_wrt_insert:
  assumes "\<And>x y. P x y \<longleftrightarrow> P y x"
  shows "sorted_wrt P (xs @ y # zs) \<longleftrightarrow> sorted_wrt P (xs @ zs) \<and> (\<forall>x \<in> set (xs @ zs). P x y)"
  using assms by (auto simp: sorted_wrt_append)

text \<open>Other tables do not matter.\<close>

lemma existing_rows_other [simp]:
  "existing_rows (db\<lparr>usages := us\<rparr>) h = existing_rows db h" "existing_rows (db\<lparr>next_usage := n\<rparr>) h = existing_rows db h"
  "existing_rows (db\<lparr>hosts := hs\<rparr>) h = existing_rows db h" "existing_rows (db\<lparr>organizations := os\<rparr>) h = existing_rows db h"
  "existing_rows (db\<lparr>replicas := rs\<rparr>) h = existing_rows db h"
  by (simp_all add: existing_rows_def get_machine_type_def prebuild_machine_type_def cong: option.case_cong)

lemma shrinks_usages [simp]: "shrinks db (db\<lparr>usages := us, next_usage := n\<rparr>)"
  by (simp add: shrinks_def)

lemma shrinks_new_usage: "new_usage db t org user res mt rate = (n, db') \<Longrightarrow> shrinks db db'"
  by (auto simp: new_usage_def shrinks_def)

lemma shrinks_end_usage: "end_usage db u t = Ok db' \<Longrightarrow> shrinks db db'"
  by (auto simp: end_usage_def shrinks_def Let_def split: option.splits)

lemma shrinks_recalcuate: "recalcuate_workspce_host parse db h oc = Ok db' \<Longrightarrow> shrinks db db'"
  by (auto simp: recalcuate_workspce_host_def shrinks_def and_then_eq_Ok Let_def)

lemma shrinks_set_has_running [simp]: "shrinks db (set_has_running db org b)"
  by (simp add: set_has_running_def shrinks_def)

lemma shrinks_update_org [simp]: "shrinks db (update_org_has_running_workspace db org)"
  by (simp add: update_org_has_running_workspace_def)

text \<open>An update that keeps where a workspace runs and with what, and may only mark it as deleted.\<close>

definition keeps_place :: "(workspace \<Rightarrow> workspace) \<Rightarrow> bool" where
  "keeps_place f \<longleftrightarrow> (\<forall>w. ws_host (f w) = ws_host w \<and> ws_cores (f w) = ws_cores w \<and> ws_machine_type (f w) = ws_machine_type w
     \<and> ws_compose_parent (f w) = ws_compose_parent w \<and> (ws_deleted w \<longrightarrow> ws_deleted (f w)))"

lemma subseq_rows:
  assumes "\<And>r. Q (g r) \<Longrightarrow> Q r \<and> k (g r) = k r"
  shows "subseq (map k (filter Q (map g rs))) (map k (filter Q rs))"
  by (induction rs) (auto dest: assms intro: list_emb_Cons)

lemma shrinks_update_workspace:
  assumes "keeps_place f"
  shows "shrinks db (update_workspace db i f)"
proof -
  have "subseq (map (\<lambda>w. (ws_cores w, get_machine_type db (ws_machine_type w))) (filter (ws_counts h) (update_rows ws_id i f (workspaces db))))
      (map (\<lambda>w. (ws_cores w, get_machine_type db (ws_machine_type w))) (filter (ws_counts h) (workspaces db)))" for h
    unfolding update_rows_def by (rule subseq_rows) (use assms in \<open>auto simp: ws_counts_def keeps_place_def split: if_splits\<close>)
  then show ?thesis
    by (simp add: shrinks_def existing_rows_def update_workspace_def get_machine_type_def prebuild_machine_type_def list_emb_append_mono
        cong: option.case_cong)
qed

lemma shrinks_update_prebuilds:
  assumes "\<And>p. pb_cores (f p) = pb_cores p \<and> pb_project (f p) = pb_project p"
    and "\<And>p h. pb_counts h (f p) \<Longrightarrow> pb_counts h p"
  shows "shrinks db (db\<lparr>prebuilds := update_rows pb_id i f (prebuilds db)\<rparr>)"
proof -
  have "subseq (map (\<lambda>p. (pb_cores p, prebuild_machine_type db p)) (filter (pb_counts h) (update_rows pb_id i f (prebuilds db))))
      (map (\<lambda>p. (pb_cores p, prebuild_machine_type db p)) (filter (pb_counts h) (prebuilds db)))" for h
    unfolding update_rows_def by (rule subseq_rows) (use assms in \<open>auto simp: prebuild_machine_type_def split: if_splits\<close>)
  then show ?thesis
    by (simp add: shrinks_def existing_rows_def get_machine_type_def prebuild_machine_type_def list_emb_append_mono
        cong: option.case_cong)
qed

text \<open>A new row for cores that were picked as free.\<close>

lemma exclusive_new_row:
  assumes "iterates order" and "reads_cores parse"
    and "pick_workspce_host order parse db ph reps shared cpu memory disk region oc = Ok (host, cores)"
  shows "\<forall>r \<in> set (existing_rows db (wh_id host)). row_cores parse r \<inter> row_cores parse (show_cores cores, m) = {}"
proof (cases cores)
  case (Shared n)
  with assms(2) show ?thesis by (auto simp: reads_cores_def row_cores_def split: option.splits)
next
  case (Dedicated cs)
  then have "\<not> shared" using pick_workspce_host_Ok(3) [OF assms(1,3)] by auto
  from pick_workspce_host_Ok(4) [OF assms(1,3) this] Dedicated
  have free: "\<not> (\<exists>json mt ds. (json, Some mt) \<in> set (existing_rows db (wh_id host)) \<and> parse json = Ok (Dedicated ds) \<and> i \<in> set ds)"
    if "i \<in> set cs" for i using that by auto
  show ?thesis
  proof
    fix r assume r: "r \<in> set (existing_rows db (wh_id host))"
    have "row_cores parse (show_cores cores, m) \<subseteq> set cs"
      using assms(2) Dedicated by (auto simp: reads_cores_def row_cores_def split: option.splits)
    moreover have "i \<notin> row_cores parse r" if "i \<in> set cs" for i
      using free [OF that] r by (cases r) (auto simp: row_cores_def split: option.splits sum.splits cpu_core.splits)
    ultimately show "row_cores parse r \<inter> row_cores parse (show_cores cores, m) = {}" by blast
  qed
qed

lemma existing_rows_add_workspaces:
  "existing_rows (db\<lparr>workspaces := workspaces db @ ws\<rparr>) h =
     map (\<lambda>w. (ws_cores w, get_machine_type db (ws_machine_type w))) (filter (ws_counts h) (workspaces db))
   @ map (\<lambda>w. (ws_cores w, get_machine_type db (ws_machine_type w))) (filter (ws_counts h) ws)
   @ map (\<lambda>p. (pb_cores p, prebuild_machine_type db p)) (filter (pb_counts h) (prebuilds db))"
  by (simp add: existing_rows_def get_machine_type_def prebuild_machine_type_def cong: option.case_cong)

lemma existing_rows_add_prebuild:
  "existing_rows (db\<lparr>prebuilds := prebuilds db @ [p]\<rparr>) h =
     existing_rows db h @ (if pb_counts h p then [(pb_cores p, prebuild_machine_type db p)] else [])"
  by (simp add: existing_rows_def get_machine_type_def prebuild_machine_type_def cong: option.case_cong)

lemma exclusive_add_workspace:
  assumes "exclusive parse db"
    and "\<And>h. ws_counts h w \<Longrightarrow> \<forall>r \<in> set (existing_rows db h). row_cores parse r \<inter> row_cores parse (ws_cores w, get_machine_type db (ws_machine_type w)) = {}"
  shows "exclusive parse (db\<lparr>workspaces := workspaces db @ [w]\<rparr>)"
  unfolding exclusive_def
proof
  fix h
  let ?W = "map (\<lambda>w. (ws_cores w, get_machine_type db (ws_machine_type w))) (filter (ws_counts h) (workspaces db))"
  let ?P = "map (\<lambda>p. (pb_cores p, prebuild_machine_type db p)) (filter (pb_counts h) (prebuilds db))"
  have rows: "existing_rows db h = ?W @ ?P" by (simp add: existing_rows_def)
  have old: "sorted_wrt (\<lambda>r s. row_cores parse r \<inter> row_cores parse s = {}) (?W @ ?P)"
    using assms(1) by (simp add: exclusive_def rows [symmetric])
  show "sorted_wrt (\<lambda>r s. row_cores parse r \<inter> row_cores parse s = {}) (existing_rows (db\<lparr>workspaces := workspaces db @ [w]\<rparr>) h)"
  proof (cases "ws_counts h w")
    case True
    have "sorted_wrt (\<lambda>r s. row_cores parse r \<inter> row_cores parse s = {})
        (?W @ (ws_cores w, get_machine_type db (ws_machine_type w)) # ?P)"
      using old assms(2) [OF True] unfolding rows by (subst sorted_wrt_insert) auto
    with True show ?thesis by (simp add: existing_rows_add_workspaces)
  next
    case False
    with old show ?thesis by (simp add: existing_rows_add_workspaces)
  qed
qed

lemma exclusive_add_prebuild:
  assumes "exclusive parse db"
    and "\<And>h. pb_counts h p \<Longrightarrow> \<forall>r \<in> set (existing_rows db h). row_cores parse r \<inter> row_cores parse (pb_cores p, prebuild_machine_type db p) = {}"
  shows "exclusive parse (db\<lparr>prebuilds := prebuilds db @ [p]\<rparr>)"
  using assms by (auto simp: exclusive_def existing_rows_add_prebuild sorted_wrt_append)

text \<open>Every handler and task keeps the reservations exclusive.\<close>

lemma create_workspace_model_exclusive:
  assumes "iterates (ce_order env)" "reads_cores (ce_parse env)"
    and "create_workspace_model env now i db org user project mt = Ok (ws, db')" and "exclusive (ce_parse env) db"
  shows "exclusive (ce_parse env) db'"
proof -
  from assms(3) obtain ph reps sh host cores where
    pick: "pick_workspce_host (ce_order env) (ce_parse env) db ph reps sh (i32_usize (mt_cpu mt)) (i32_usize (mt_memory mt))
        (i32_usize (mt_disk mt)) (ce_region env) (ce_overcommit env) = Ok (host, cores)"
    and ws: "ws_cores ws = show_cores cores" "ws_host ws = wh_id host"
    and recalc: "recalcuate_workspce_host (ce_parse env) (db\<lparr>workspaces := workspaces db @ [ws]\<rparr>) host (ce_overcommit env) = Ok db'"
    by (auto simp: create_workspace_model_def and_then_eq_Ok internal_def Let_def new_workspace_row_def
        split: if_splits sum.splits) (auto simp: map_sum_def split: sum.splits)
  have "exclusive (ce_parse env) (db\<lparr>workspaces := workspaces db @ [ws]\<rparr>)"
    using exclusive_new_row [OF assms(1,2) pick] ws
    by (intro exclusive_add_workspace [OF assms(4)]) (auto simp: ws_counts_def)
  with shrinks_recalcuate [OF recalc] show ?thesis by (rule exclusive_shrinks)
qed

lemma create_project_prebuild_exclusive:
  assumes "iterates (ce_order env)" "reads_cores (ce_parse env)"
    and "create_project_prebuild env now i db user project ws branch commit = Ok (p, u, db')" and "exclusive (ce_parse env) db"
  shows "exclusive (ce_parse env) db'"
proof -
  obtain db1 where db1: "shrinks db db1" "exclusive (ce_parse env) (db1\<lparr>prebuilds := prebuilds db1 @ [p]\<rparr>)"
    "shrinks (db1\<lparr>prebuilds := prebuilds db1 @ [p]\<rparr>) db'"
  proof (cases ws)
    case (Some w)
    with assms(3) obtain db1 us n where usage1: "db1 = db\<lparr>usages := us, next_usage := n\<rparr>"
      and p: "pb_by_workspace p" "db' = db1\<lparr>prebuilds := prebuilds db1 @ [p]\<rparr>"
      by (auto simp: create_project_prebuild_def and_then_eq_Ok new_usage_def Let_def split: if_splits)
    have usage: "shrinks db db1" by (simp add: usage1 shrinks_def)
    have "exclusive (ce_parse env) (db1\<lparr>prebuilds := prebuilds db1 @ [p]\<rparr>)"
      using p(1) by (intro exclusive_add_prebuild exclusive_shrinks [OF usage assms(4)]) (simp add: pb_counts_def)
    with usage p(2) show ?thesis by (intro that [of db1]) auto
  next
    case None
    obtain mt where mt: "get_machine_type db (pj_machine_type project) = Some mt"
      using assms(3) None by (auto simp: create_project_prebuild_def and_then_eq_Ok ok_or_eq_Ok)
    define sh where "sh = (if ce_licensed env then mt_shared mt else False)"
    define picked where "picked = pick_workspce_host (ce_order env) (ce_parse env) db None [] sh (i32_usize (mt_cpu mt))
      (i32_usize (mt_memory mt)) (i32_usize (mt_disk mt)) (ce_region env) (ce_overcommit env)"
    have create: "create_project_prebuild env now i db user project ws branch commit = Ok (p, u, db')" by (rule assms(3))
    obtain host cores where hc: "picked = Ok (host, cores)"
      using create None mt by (cases picked) (auto simp: create_project_prebuild_def picked_def sh_def)
    then have pick: "pick_workspce_host (ce_order env) (ce_parse env) db None [] sh (i32_usize (mt_cpu mt)) (i32_usize (mt_memory mt))
        (i32_usize (mt_disk mt)) (ce_region env) (ce_overcommit env) = Ok (host, cores)" by (simp add: picked_def)
    obtain db1 us n where p: "pb_cores p = show_cores cores" "pb_host p = wh_id host"
      and usage: "db1 = db\<lparr>usages := us, next_usage := n\<rparr>"
      and recalc: "recalcuate_workspce_host (ce_parse env) (db1\<lparr>prebuilds := prebuilds db1 @ [p]\<rparr>) host (ce_overcommit env) = Ok db'"
    proof -
      have i: "internal r = Ok x \<longleftrightarrow> r = Ok x" for r :: "string + conductor_db" and x by (cases r) (auto simp: internal_def)
      show ?thesis
        using create None mt pick that
        by (auto simp: create_project_prebuild_def and_then_eq_Ok new_usage_def i Let_def sh_def [symmetric] split: if_splits)
    qed
    have same: "existing_rows db1 h = existing_rows db h" for h by (simp add: usage)
    then have usage': "shrinks db db1" by (simp add: shrinks_def)
    have "exclusive (ce_parse env) (db1\<lparr>prebuilds := prebuilds db1 @ [p]\<rparr>)"
      using exclusive_new_row [OF assms(1,2) pick] p same
      by (intro exclusive_add_prebuild exclusive_shrinks [OF usage' assms(4)]) (auto simp: pb_counts_def)
    then show ?thesis by (rule that [OF usage' _ shrinks_recalcuate [OF recalc]])
  qed
  then show ?thesis using exclusive_shrinks by blast
qed

section \<open>Every history\<close>

text \<open>
  One committed transaction after another, in any order and with any arguments: handlers may be given rows
  that are no longer current, tasks may run late, twice or never.
\<close>

inductive conductor_step :: "conductor_env \<Rightarrow> conductor_db \<Rightarrow> conductor_db \<Rightarrow> bool" for env where
  create: "create_workspace_model env now i db org user project mt = Ok (ws, db') \<Longrightarrow> conductor_step env db db'"
| from_output: "conductor_step env db (create_workspace_from_output now db ws pb compose mt service_ids)"
| create_failed: "conductor_step env db (create_workspace_failed now db i)"
| start: "conductor_step env db (snd (start_workspace env now connected db w))"
| do_start: "conductor_step env db (snd (do_start_workspace now answer db w))"
| stop: "conductor_step env db (snd (stop_workspace now connected db w))"
| do_stop: "conductor_step env db (snd (do_stop_workspace now answer db w))"
| delete: "delete_workspace now db w = Ok (tasks, db') \<Longrightarrow> conductor_step env db db'"
| do_delete: "conductor_step env db (snd (do_delete_workspace env exists now answer' db w))"
| rebuild: "rebuild_workspace env now db w = Ok (u, ws, db') \<Longrightarrow> conductor_step env db db'"
| rebuild_failed: "conductor_step env db (rebuild_failed now db w u)"
| create_prebuild: "create_project_prebuild env now i db user proj wsopt branch commit = Ok (p, u, db') \<Longrightarrow> conductor_step env db db'"
| finish_prebuild: "conductor_step env db (finish_prebuild env now db p u built)"
| delete_prebuild: "delete_prebuild db p = Ok db' \<Longrightarrow> conductor_step env db db'"
| do_delete_prebuild: "conductor_step env db (snd (do_delete_prebuild rpc db p))"

lemma keeps_place_updates [simp]:
  "keeps_place (\<lambda>r. r\<lparr>ws_status := s\<rparr>)"
  "keeps_place (\<lambda>r. r\<lparr>ws_status := s, ws_updated := t\<rparr>)"
  "keeps_place (\<lambda>r. r\<lparr>ws_updated := t, ws_status := s\<rparr>)"
  "keeps_place (\<lambda>r. r\<lparr>ws_status := s, ws_updated := t, ws_usage := u\<rparr>)"
  "keeps_place (\<lambda>r. r\<lparr>ws_status := s, ws_deleted := True, ws_updated := t\<rparr>)"
  "keeps_place (\<lambda>r. r\<lparr>ws_status := s, ws_usage := u, ws_last_inactivity := l, ws_updated := t\<rparr>)"
  "keeps_place (\<lambda>r. r\<lparr>ws_status := s, ws_prebuild := p, ws_is_compose := c, ws_usage := u\<rparr>)"
  by (simp_all add: keeps_place_def)

lemmas shrinks_update [simp] = shrinks_update_workspace [OF keeps_place_updates(1)] shrinks_update_workspace [OF keeps_place_updates(2)]
  shrinks_update_workspace [OF keeps_place_updates(3)] shrinks_update_workspace [OF keeps_place_updates(4)]
  shrinks_update_workspace [OF keeps_place_updates(5)] shrinks_update_workspace [OF keeps_place_updates(6)]
  shrinks_update_workspace [OF keeps_place_updates(7)]

lemma shrinks_close_usage: "close_usage db now w = Ok db' \<Longrightarrow> shrinks db db'"
  by (auto simp: close_usage_def split: option.splits dest: shrinks_end_usage)

lemma shrinks_from_output: "shrinks db (create_workspace_from_output now db ws pb compose mt service_ids)"
proof -
  have "shrinks db (main_running now db ws pb compose mt)"
    by (auto simp: main_running_def split: option.splits prod.splits
        intro: shrinks_trans [OF shrinks_new_usage shrinks_update(7)])
  moreover have "filter (ws_counts h) (map (service_row ws pb compose) service_ids) = []" for h
    by (induction service_ids) (auto simp: ws_counts_def service_row_def)
  then have "shrinks d (d\<lparr>workspaces := workspaces d @ map (service_row ws pb compose) service_ids\<rparr>)" for d
    by (simp add: shrinks_def existing_rows_add_workspaces) (simp add: existing_rows_def)
  ultimately show ?thesis by (simp add: create_workspace_from_output_def Let_def) (rule shrinks_trans)
qed

lemma shrinks_create_failed: "shrinks db (create_workspace_failed now db i)"
  by (auto simp: create_workspace_failed_def Let_def split: option.splits sum.splits
      intro: shrinks_trans [OF shrinks_end_usage shrinks_update(1)])

lemma shrinks_start: "shrinks db (snd (start_workspace env now connected db w))"
  by (auto simp: start_workspace_def Let_def split: sum.splits)

lemma shrinks_do_start: "shrinks db (snd (do_start_workspace now answer db w))"
proof (cases answer)
  case RpcDone
  have "shrinks db (set_has_running (update_workspace d i f) org True)" if "shrinks db d" "keeps_place f" for d i f org
    using that shrinks_trans shrinks_update_workspace shrinks_set_has_running by blast
  with RpcDone show ?thesis
    by (auto simp: do_start_workspace_def new_usage_def split: option.splits prod.splits)
qed (simp_all add: do_start_workspace_def)

lemma shrinks_stop: "shrinks db (snd (stop_workspace now connected db w))"
  by (auto simp: stop_workspace_def Let_def split: sum.splits dest!: shrinks_close_usage
      intro: shrinks_trans [OF _ shrinks_update(4)])

lemma shrinks_do_stop: "shrinks db (snd (do_stop_workspace now answer db w))"
  by (cases answer) (auto simp: do_stop_workspace_def Let_def intro: shrinks_trans [OF shrinks_update(2) shrinks_update_org])

lemma shrinks_delete: "delete_workspace now db w = Ok (tasks, db') \<Longrightarrow> shrinks db db'"
  by (auto simp: delete_workspace_def internal_def and_then_eq_Ok Let_def map_sum_def split: if_splits sum.splits
      dest!: shrinks_close_usage intro: shrinks_trans [OF _ shrinks_update(4)])

lemma shrinks_delete_prebuild: "delete_prebuild db p = Ok db' \<Longrightarrow> shrinks db db'"
  by (auto simp: delete_prebuild_def pb_counts_def split: if_splits intro!: shrinks_update_prebuilds)

lemma shrinks_check_outdated: "check_outdated_prebuild exists db i = Ok db' \<Longrightarrow> shrinks db db'"
  by (auto simp: check_outdated_prebuild_def check_unused_prebuild_def split: option.splits if_splits dest: shrinks_delete_prebuild)

lemma shrinks_recalculated:
  "(case get_workspace_host_with_lock d h of None \<Rightarrow> Ok db1 | Some x \<Rightarrow> recalcuate_workspce_host parse db1 x oc) = Ok db2 \<Longrightarrow> shrinks db1 db2"
  by (auto split: option.splits dest: shrinks_recalcuate)

lemma shrinks_do_delete: "shrinks db (snd (do_delete_workspace env exists now answer db w))"
proof (cases "answer = Some RpcDone")
  case True
  let ?db1 = "update_workspace db (ws_id w) (\<lambda>r. r\<lparr>ws_status := Deleted, ws_deleted := True, ws_updated := Some now\<rparr>)"
  let ?r = "case get_workspace_host_with_lock db (ws_host w) of
      None \<Rightarrow> Ok ?db1 | Some h \<Rightarrow> recalcuate_workspce_host (ce_parse env) ?db1 h (ce_overcommit env)"
  show ?thesis
  proof (cases ?r)
    case (Inl e)
    with True show ?thesis by (simp add: do_delete_workspace_def Let_def)
  next
    case (Inr db2)
    let ?db3 = "case ws_prebuild w of None \<Rightarrow> db2 | Some p \<Rightarrow> (case check_outdated_prebuild exists db2 p of Inl _ \<Rightarrow> db2 | Inr d \<Rightarrow> d)"
    have "shrinks db db2" using shrinks_recalculated [OF Inr] shrinks_trans shrinks_update(5) by blast
    moreover have "shrinks db2 ?db3" by (auto split: option.splits sum.splits dest: shrinks_check_outdated)
    ultimately have "shrinks db (update_org_has_running_workspace ?db3 (ws_organization w))"
      using shrinks_trans shrinks_update_org by blast
    with True Inr show ?thesis by (simp add: do_delete_workspace_def Let_def)
  qed
next
  case False
  have "shrinks db (update_org_has_running_workspace (update_workspace db i (\<lambda>r. r\<lparr>ws_status := s, ws_updated := t\<rparr>)) org)" for i s t org
    using shrinks_trans shrinks_update(2) shrinks_update_org by blast
  with False show ?thesis by (auto simp: do_delete_workspace_def split: option.splits rpc_answer.splits)
qed

lemma shrinks_rebuild: "rebuild_workspace env now db w = Ok (u, ws, db') \<Longrightarrow> shrinks db db'"
proof -
  have upd: "shrinks d (update_workspace d i (\<lambda>r. r\<lparr>ws_status := Building, ws_usage := x, ws_last_inactivity := None, ws_updated := t\<rparr>))"
    for d i x t by simp
  assume "rebuild_workspace env now db w = Ok (u, ws, db')"
  then obtain d x where "db' = update_workspace d (ws_id w)
      (\<lambda>r. r\<lparr>ws_status := Building, ws_usage := x, ws_last_inactivity := None, ws_updated := Some now\<rparr>)"
    and "d = db \<or> (\<exists>us n. d = db\<lparr>usages := us, next_usage := n\<rparr>)"
    by (auto simp: rebuild_workspace_def and_then_eq_Ok new_usage_def Let_def split: if_splits option.splits)
  then show "shrinks db db'" using upd shrinks_trans shrinks_usages by metis
qed

lemma shrinks_rebuild_failed: "shrinks db (rebuild_failed now db w u)"
  by (auto simp: rebuild_failed_def split: sum.splits intro: shrinks_trans [OF shrinks_end_usage shrinks_update(2)])

lemma shrinks_finish_prebuild: "shrinks db (finish_prebuild env now db p u built)"
proof -
  let ?db1 = "db\<lparr>prebuilds := update_rows pb_id (pb_id p) (\<lambda>r. r\<lparr>pb_status := (if built then ReadyPrebuild else FailedPrebuild)\<rparr>) (prebuilds db)\<rparr>"
  have "shrinks db ?db1" by (rule shrinks_update_prebuilds) (auto simp: pb_counts_def split: if_splits)
  let ?r = "case get_workspace_host_with_lock db (pb_host p) of
      None \<Rightarrow> Ok ?db1 | Some h \<Rightarrow> recalcuate_workspce_host (ce_parse env) ?db1 h (ce_overcommit env)"
  show ?thesis
  proof (cases "and_then ?r (\<lambda>db2. end_usage db2 u now)")
    case (Inl e)
    then show ?thesis by (simp add: finish_prebuild_def Let_def)
  next
    case (Inr db3)
    then obtain db2 where "?r = Ok db2" "end_usage db2 u now = Ok db3" by (auto simp: and_then_eq_Ok)
    then have "shrinks ?db1 db3" using shrinks_recalculated shrinks_end_usage shrinks_trans by blast
    with \<open>shrinks db ?db1\<close> have "shrinks db db3" by (rule shrinks_trans)
    with Inr show ?thesis by (simp add: finish_prebuild_def Let_def)
  qed
qed

lemma shrinks_do_delete_prebuild: "shrinks db (snd (do_delete_prebuild rpc db p))"
proof -
  have upd: "shrinks d (d\<lparr>replicas := rs\<rparr>)" for d rs by (simp add: shrinks_def)
  have "shrinks d (snd (delete_replicas rpc rs d))" for d rs
  proof (induction rs arbitrary: d)
    case (Cons r rs)
    then show ?case using shrinks_trans [OF upd] by auto
  qed simp
  then show ?thesis by (simp add: do_delete_prebuild_def)
qed

lemma conductor_step_exclusive:
  assumes "iterates (ce_order env)" "reads_cores (ce_parse env)" and "conductor_step env db db'" and "exclusive (ce_parse env) db"
  shows "exclusive (ce_parse env) db'"
  using assms(3,4)
proof cases
  case create
  then show ?thesis using create_workspace_model_exclusive [OF assms(1,2)] assms(4) by blast
next
  case create_prebuild
  then show ?thesis using create_project_prebuild_exclusive [OF assms(1,2)] assms(4) by blast
qed (rule exclusive_shrinks [OF _ assms(4)],
     simp add: shrinks_from_output shrinks_create_failed shrinks_start shrinks_do_start shrinks_stop shrinks_do_stop
       shrinks_do_delete shrinks_rebuild_failed shrinks_finish_prebuild shrinks_do_delete_prebuild; fail
     | rule exclusive_shrinks [OF _ assms(4)], rule shrinks_delete shrinks_rebuild shrinks_delete_prebuild, assumption)+


section \<open>Witnesses\<close>

definition ex_env :: conductor_env where
  "ex_env = \<lparr>ce_licensed = False, ce_config = Map.empty, ce_calendar = ex_calendar, ce_region = [], ce_overcommit = 4,
     ce_order = ex_order, ce_parse = ex_parse_cores\<rparr>"

definition ex_machine :: machine_type where
  "ex_machine = \<lparr>mt_id = 3, mt_shared = False, mt_cpu = 2, mt_memory = 8, mt_disk = 10, mt_cost_per_second = 2\<rparr>"

definition ex_org :: organization where
  "ex_org = \<lparr>org_id = 1, org_deleted = False, org_name = ''Personal'', org_auto_start = True, org_allow_workspace_change_auto_start = True,
     org_auto_stop = Some 600, org_allow_workspace_change_auto_stop = True, org_last_auto_stop_check = None, org_usage_limit = -1,
     org_running_workspace_limit = 0, org_max_cpu = 0, org_has_running_workspace = False\<rparr>"

definition ex_stopped :: workspace where
  "ex_stopped = \<lparr>ws_id = 5, ws_deleted = False, ws_organization = 1, ws_user = 2, ws_prebuild = None, ws_status = Stopped,
     ws_host = 9, ws_cores = ''2'', ws_usage = None, ws_machine_type = 3, ws_last_inactivity = None, ws_auto_start = True,
     ws_auto_stop = None, ws_is_compose = False, ws_compose_parent = None, ws_updated = None, ws_pinned = False\<rparr>"

definition ex_prebuild :: prebuild where
  "ex_prebuild = \<lparr>pb_id = 20, pb_deleted = False, pb_created = 0, pb_project = 4, pb_branch = ''main'', pb_commit = ''c0'',
     pb_host = 1, pb_cores = ''2'', pb_status = ReadyPrebuild, pb_by_workspace = False\<rparr>"

definition ex_life_db :: conductor_db where
  "ex_life_db = empty_db\<lparr>hosts := [ex_host], machine_types := [ex_machine], organizations := [ex_org],
     workspaces := [ex_stopped], prebuilds := [ex_prebuild]\<rparr>"

lemma ex_rows: "existing_rows ex_life_db h = (if h = 9 then [(''2'', Some ex_machine)] else [])"
  by (simp add: existing_rows_def ex_life_db_def empty_db_def ws_counts_def pb_counts_def ex_stopped_def ex_prebuild_def
      get_machine_type_def ex_machine_def)

lemma ex_life_pick:
  assumes "ph = None \<or> ph = Some 1"
  shows "pick_workspce_host ex_order ex_parse_cores ex_life_db ph [] False 2 8 10 [] 4 = Ok (ex_host, Dedicated [0, 1])"
proof -
  have e: "get_existing_resource ex_parse_cores ex_life_db ex_host = Ok no_resource"
    by (simp add: get_existing_resource_def ex_rows ex_host_def)
  have "dedicated_cores (available_cores 4 4 (ex_cores no_resource)) = set [0, 1, 2, 3]"
    by (auto simp: dedicated_cores_eq taken_cores_def share_count_def no_resource_def)
  then have "ex_order (dedicated_cores (available_cores 4 4 (ex_cores no_resource))) = [0, 1, 2, 3]"
    by (simp add: ex_order_def)
  moreover have "decide_workspace_host ex_life_db ph [] False 2 8 10 [] = Ok ex_host"
    using assms by (auto simp: decide_workspace_host_def ex_life_db_def empty_db_def host_fits_def ex_host_def greatest_def)
  moreover have "unat (i32_usize (wh_cpu ex_host)) = 4" by (simp add: ex_host_def)
  ultimately show ?thesis by (simp add: pick_workspce_host_def e Let_def)
qed

lemma ex_create_workspace:
  assumes "project = None \<or> project = Some (4, ''main'', ''c0'')"
  shows "\<exists>ws db'. create_workspace_model ex_env 0 30 ex_life_db ex_org 2 project ex_machine = Ok (ws, db')
    \<and> workspaces db' = [ex_stopped, ws] \<and> ws_host ws = 1"
proof -
  let ?pb = "case project of None \<Rightarrow> None | Some _ \<Rightarrow> Some ex_prebuild"
  let ?ws = "new_workspace_row 0 30 ex_org 2 ?pb ex_host (Dedicated [0, 1]) ex_machine"
  let ?db = "ex_life_db\<lparr>workspaces := workspaces ex_life_db @ [?ws]\<rparr>"
  have pb: "(case project of None \<Rightarrow> None
      | Some (p, branch, commit) \<Rightarrow> get_prebuild_by_branch_and_commit_with_lock ex_life_db p branch commit) = ?pb"
    using assms by (auto simp: get_prebuild_by_branch_and_commit_with_lock_def ex_life_db_def ex_prebuild_def)
  have none: "replicas ex_life_db = []" by (simp add: ex_life_db_def empty_db_def)
  have "existing_rows ?db 1 = [(show_cores (Dedicated [0, 1]), Some ex_machine)]"
    by (simp add: existing_rows_def ex_life_db_def empty_db_def ws_counts_def pb_counts_def ex_stopped_def ex_prebuild_def
        get_machine_type_def ex_machine_def new_workspace_row_def ex_host_def)
  then obtain db' where recalc: "recalcuate_workspce_host ex_parse_cores ?db ex_host 4 = Ok db'" "workspaces db' = workspaces ?db"
    using ex_parse_cores_reads
    by (auto simp: recalcuate_workspce_host_def get_existing_resource_def add_existing_def reads_cores_def ex_host_def Let_def)
  have pick: "pick_workspce_host ex_order ex_parse_cores ex_life_db (map_option pb_host ?pb) [] False 2 8 10 [] 4
      = Ok (ex_host, Dedicated [0, 1])"
    by (rule ex_life_pick) (use assms in \<open>auto simp: ex_prebuild_def\<close>)
  have reps: "(case ?pb of None \<Rightarrow> [] | Some p \<Rightarrow> map pr_host (filter (\<lambda>r. \<not> pr_deleted r \<and> pr_prebuild r = pb_id p) (replicas ex_life_db))) = []"
    using assms by (auto simp: none)
  have "create_workspace_model ex_env 0 30 ex_life_db ex_org 2 project ex_machine = Ok (?ws, db')"
    using recalc(1) pick
    by (simp add: create_workspace_model_def pb reps ex_env_def check_organization_limit_def limit_def quota_passed_def internal_def
        check_create_workspace_quota_def Let_def ex_machine_def [THEN arg_cong, of mt_cpu] ex_machine_def [THEN arg_cong, of mt_memory]
        ex_machine_def [THEN arg_cong, of mt_disk] ex_org_def [THEN arg_cong, of org_max_cpu])
  moreover have "workspaces db' = [ex_stopped, ?ws]" using recalc(2) by (simp add: ex_life_db_def)
  ultimately show ?thesis by (auto simp: new_workspace_row_def ex_host_def)
qed


end
