(* ===== verification/Workspace_Billing.thy ===== *)
theory Workspace_Billing
  imports Workspace_Lifecycle
begin

text \<open>
  The life of a workspace and its bill together: what starting, stopping, building and deleting leave in the
  table of usages, and which prebuilds a workspace protects. The operations are those of
  \<open>Workspace_Lifecycle\<close> and \<open>Usage_Billing\<close>; this theory adds no code of its own.
\<close>

section \<open>Rows by id\<close>

definition row_of :: "conductor_db \<Rightarrow> uuid \<Rightarrow> workspace option" where
  "row_of db i = find (\<lambda>r. ws_id r = i) (workspaces db)"

definition usage_of :: "conductor_db \<Rightarrow> nat \<Rightarrow> usage option" where
  "usage_of db i = find (\<lambda>u. us_id u = i) (usages db)"

text \<open>The number a new usage gets is not in use, in the table or in a workspace.\<close>

definition fresh_usages :: "conductor_db \<Rightarrow> bool" where
  "fresh_usages db \<longleftrightarrow>
     (\<forall>u \<in> set (usages db). us_id u < next_usage db)
   \<and> (\<forall>w \<in> set (workspaces db). \<forall>n. ws_usage w = Some n \<longrightarrow> n < next_usage db)"

lemma row_of_update [simp]:
  "(\<And>r. ws_id (f r) = ws_id r) \<Longrightarrow> row_of (update_workspace db i f) i = map_option f (row_of db i)"
  by (simp add: row_of_def update_workspace_def find_update_rows)

lemma row_of_id: "row_of db i = Some w \<Longrightarrow> ws_id w = i"
  by (auto simp: row_of_def find_Some_iff)

lemma row_of_other [simp]:
  "row_of (db\<lparr>usages := us\<rparr>) i = row_of db i" "row_of (db\<lparr>next_usage := n\<rparr>) i = row_of db i"
  "row_of (set_has_running db org b) i = row_of db i"
  by (simp_all add: row_of_def set_has_running_def)

lemma usages_update [simp]:
  "usages (update_workspace db i f) = usages db" "usages (set_has_running db org b) = usages db"
  "next_usage (update_workspace db i f) = next_usage db" "next_usage (set_has_running db org b) = next_usage db"
  by (simp_all add: update_workspace_def set_has_running_def)

lemma get_machine_type_update [simp]:
  "get_machine_type (update_workspace db i f) m = get_machine_type db m"
  "get_machine_type (set_has_running db org b) m = get_machine_type db m"
  "get_machine_type (db\<lparr>usages := us\<rparr>) m = get_machine_type db m"
  "get_machine_type (db\<lparr>next_usage := n\<rparr>) m = get_machine_type db m"
  by (simp_all add: get_machine_type_def update_workspace_def set_has_running_def)

lemma workspaces_update_usages: "workspaces (db\<lparr>usages := us, next_usage := n\<rparr>) = workspaces db"
  by simp

lemma update_rows_append: "update_rows key i f (xs @ ys) = update_rows key i f xs @ update_rows key i f ys"
  by (simp add: update_rows_def)

lemma update_rows_fresh:
  "fresh_usages db \<Longrightarrow> update_rows us_id (next_usage db) f (usages db) = usages db"
  by (rule update_rows_absent) (auto simp: fresh_usages_def)

lemma find_append_None: "find P xs = None \<Longrightarrow> find P (xs @ ys) = find P ys"
  by (induction xs) (auto split: if_splits)

lemma find_fresh: "fresh_usages db \<Longrightarrow> n \<ge> next_usage db \<Longrightarrow> find (\<lambda>u. us_id u = n) (usages db) = None"
  by (auto simp: fresh_usages_def find_None_iff)

section \<open>A start\<close>

definition opened :: "time \<Rightarrow> conductor_db \<Rightarrow> workspace \<Rightarrow> machine_type \<Rightarrow> usage" where
  "opened t db w mt =
     \<lparr>us_id = next_usage db, us_start = t, us_end = None, us_resource = ws_id w, us_organization = ws_organization w,
      us_user = Some (ws_user w), us_machine_type = mt_id mt, us_duration = None,
      us_cost_per_second = mt_cost_per_second mt, us_total_cost = 0\<rparr>"

lemma do_start_Done:
  assumes "get_machine_type db (ws_machine_type w) = Some mt" and "ws_compose_parent w = None"
  shows "do_start_workspace t RpcDone db w =
    (Ok (), set_has_running (update_workspace (db\<lparr>usages := usages db @ [opened t db w mt], next_usage := next_usage db + 1\<rparr>) (ws_id w)
       (\<lambda>r. r\<lparr>ws_status := Running, ws_usage := Some (next_usage db), ws_last_inactivity := None, ws_updated := Some t\<rparr>))
       (ws_organization w) True)"
  using assms by (simp add: do_start_workspace_def new_usage_def opened_def)

lemma do_start_effect:
  assumes "get_machine_type db (ws_machine_type w) = Some mt" and "ws_compose_parent w = None"
    and "do_start_workspace t RpcDone db w = (r, db')"
  shows "usages db' = usages db @ [opened t db w mt]" "next_usage db' = next_usage db + 1"
    "row_of db' (ws_id w) = map_option (\<lambda>r. r\<lparr>ws_status := Running, ws_usage := Some (next_usage db),
        ws_last_inactivity := None, ws_updated := Some t\<rparr>) (row_of db (ws_id w))"
    "\<And>m. get_machine_type db' m = get_machine_type db m"
    "workspaces db' = update_rows ws_id (ws_id w) (\<lambda>r. r\<lparr>ws_status := Running, ws_usage := Some (next_usage db),
        ws_last_inactivity := None, ws_updated := Some t\<rparr>) (workspaces db)"
  using assms(3) unfolding do_start_Done [OF assms(1,2)]
  by (auto simp: update_workspace_def set_has_running_def row_of_def find_update_rows get_machine_type_def)

section \<open>A stop or a deletion\<close>

text \<open>The usage row as \<open>end_usage\<close> leaves it.\<close>

definition closed :: "time \<Rightarrow> usage \<Rightarrow> usage" where
  "closed t u = u\<lparr>us_end := Some t, us_duration := Some (word_of_int (max 0 (num_seconds (t - us_start u)))),
     us_total_cost := us_cost_per_second u * word_of_int (max 0 (num_seconds (t - us_start u)))\<rparr>"

lemma end_usage_last:
  assumes "fresh_usages db" and "us_id u = next_usage db" and "usages db' = usages db @ [u]"
  shows "end_usage db' (us_id u) t = Ok (db'\<lparr>usages := usages db @ [closed t u]\<rparr>)"
proof -
  have "find (\<lambda>x. us_id x = us_id u) (usages db') = Some u"
    using find_fresh [OF assms(1), of "us_id u"] assms(2,3) by (simp add: find_append_None)
  from end_usage_row [OF this] show ?thesis
    using assms update_rows_fresh [OF assms(1)] by (simp add: closed_def update_rows_append)
qed

lemma stop_effect:
  assumes "stop_workspace t connected db w = (Ok tasks, db')" and "ws_usage w = Some u" and "end_usage db u t = Ok db1"
  shows "db' = update_workspace db1 (ws_id w) (\<lambda>r. r\<lparr>ws_status := Stopping, ws_updated := Some t, ws_usage := None\<rparr>)"
  using assms by (auto simp: stop_workspace_def close_usage_def Let_def split: if_splits sum.splits)

lemma delete_effect:
  assumes "delete_workspace t db w = Ok (tasks, db')" and "ws_usage w = Some u" and "end_usage db u t = Ok db1"
  shows "db' = update_workspace db1 (ws_id w) (\<lambda>r. r\<lparr>ws_status := Deleting, ws_updated := Some t, ws_usage := None\<rparr>)"
  using assms by (auto simp: delete_workspace_def close_usage_def internal_def and_then_eq_Ok Let_def split: if_splits)

text \<open>
  C17: A run is billed exactly: a workspace that a host starts at \<open>t1\<close> and that is stopped at \<open>t2\<close> adds one usage,
  from \<open>t1\<close> to \<open>t2\<close>, for its user and organization at the rate of its machine type, closed with the exact
  price while that stays in 32 bits; no other usage changes, and the workspace no longer refers to it.
\<close>

theorem run_billed_exactly:
  assumes "fresh_usages db" and "row_of db (ws_id w) = Some w0"
    and "get_machine_type db (ws_machine_type w) = Some mt" and "ws_compose_parent w = None"
    and "do_start_workspace t1 RpcDone db w = (r, db1)"
    and "row_of db1 (ws_id w) = Some w1" and "stop_workspace t2 connected db1 w1 = (Ok tasks, db2)"
    and "t1 \<le> t2" and "0 \<le> sint (mt_cost_per_second mt)" and "num_seconds (t2 - t1) < 2 ^ 31"
    and "sint (mt_cost_per_second mt) * num_seconds (t2 - t1) < 2 ^ 31"
  shows "(\<exists>u. usages db2 = usages db @ [u] \<and> us_start u = t1 \<and> us_end u = Some t2 \<and> us_resource u = ws_id w
      \<and> us_organization u = ws_organization w \<and> us_user u = Some (ws_user w)
      \<and> sint (us_total_cost u) = sint (mt_cost_per_second mt) * num_seconds (t2 - t1))
    \<and> map_option ws_usage (row_of db2 (ws_id w)) = Some None"
proof -
  note start = do_start_effect [OF assms(3,4,5)]
  let ?u = "opened t1 db w mt"
  have w1: "ws_usage w1 = Some (us_id ?u)" "ws_id w1 = ws_id w"
    using assms(2,6) start(3) row_of_id [OF assms(6)] by (auto simp: opened_def)
  have "us_id ?u = next_usage db" by (simp add: opened_def)
  from end_usage_last [OF assms(1) this start(1)]
  have ended: "end_usage db1 (us_id ?u) t2 = Ok (db1\<lparr>usages := usages db @ [closed t2 ?u]\<rparr>)" .
  have db2: "db2 = update_workspace (db1\<lparr>usages := usages db @ [closed t2 ?u]\<rparr>) (ws_id w)
      (\<lambda>r. r\<lparr>ws_status := Stopping, ws_updated := Some t2, ws_usage := None\<rparr>)"
    using stop_effect [OF assms(7) w1(1) ended] w1(2) by simp
  have "0 \<le> num_seconds (t2 - t1)" using assms(8) by (simp add: num_seconds_nonneg)
  from total_cost_exact_iff [OF assms(9) this assms(10)] assms(11) this
  have "sint (us_total_cost (closed t2 ?u)) = sint (mt_cost_per_second mt) * num_seconds (t2 - t1)"
    by (simp add: closed_def opened_def max_absorb2)
  then show ?thesis using assms(6) by (auto simp: db2 closed_def opened_def)
qed

text \<open>
  C40: Starting twice leaks a usage. Two start tasks of one workspace, both answered by the host, open two usages;
  after the next stop, whenever it comes, the first is still open and no workspace refers to it, so nothing
  closes it and its seconds are billed on. (A start is refused only while the status is \<open>Running\<close>.)
\<close>

theorem double_start_leaks_usage:
  assumes "fresh_usages db" and "row_of db (ws_id w) = Some w0" and "distinct (map ws_id (workspaces db))"
    and "get_machine_type db (ws_machine_type w) = Some mt" and "ws_compose_parent w = None"
    and "do_start_workspace t1 RpcDone db w = (r1, db1)" and "do_start_workspace t2 RpcDone db1 w = (r2, db2)"
    and "row_of db2 (ws_id w) = Some w2" and "stop_workspace t3 connected db2 w2 = (Ok tasks, db3)"
  shows "\<exists>u \<in> set (usages db3). us_start u = t1 \<and> us_end u = None \<and> us_resource u = ws_id w
    \<and> us_organization u = ws_organization w
    \<and> (\<forall>x \<in> set (workspaces db3). ws_usage x \<noteq> Some (us_id u))"
proof -
  note one = do_start_effect [OF assms(4,5,6)]
  have mt1: "get_machine_type db1 (ws_machine_type w) = Some mt" using assms(4) one(4) by simp
  note two = do_start_effect [OF mt1 assms(5,7)]
  let ?u1 = "opened t1 db w mt" and ?u2 = "opened t2 db1 w mt"
  have fresh1: "fresh_usages db1"
    using assms(1) unfolding fresh_usages_def one(1,2,5)
    by (auto simp: update_rows_def opened_def less_Suc_eq)
  have u2: "us_id ?u2 = next_usage db1" "us_id ?u1 = next_usage db" by (simp_all add: opened_def)
  have w2: "ws_usage w2 = Some (us_id ?u2)" "ws_id w2 = ws_id w"
    using assms(2,8) one(3) two(3) row_of_id [OF assms(8)] by (auto simp: opened_def)
  have db3: "db3 = update_workspace (db2\<lparr>usages := usages db1 @ [closed t3 ?u2]\<rparr>) (ws_id w)
      (\<lambda>r. r\<lparr>ws_status := Stopping, ws_updated := Some t3, ws_usage := None\<rparr>)"
    using stop_effect [OF assms(9) w2(1) end_usage_last [OF fresh1 u2(1) two(1)]] w2(2) by simp
  have "\<forall>x \<in> set (workspaces db3). ws_usage x \<noteq> Some (next_usage db)"
    using assms(1) by (auto simp: db3 update_workspace_def update_rows_def two(5) one(2,5) fresh_usages_def)
  moreover have "?u1 \<in> set (usages db3)" by (simp add: db3 one(1))
  ultimately show ?thesis by (intro bexI [of _ ?u1]) (simp_all add: opened_def)
qed

section \<open>A failed build\<close>

lemma end_usage_find:
  assumes "end_usage db i t = Ok db'"
  shows "\<exists>u. usage_of db i = Some u \<and> usage_of db' i = Some (closed t u) \<and> workspaces db' = workspaces db"
proof -
  obtain u where u: "find (\<lambda>u. us_id u = i) (usages db) = Some u"
    using assms by (auto simp: end_usage_def split: option.splits)
  from end_usage_row [OF this, of t] assms
  have "db' = db\<lparr>usages := update_rows us_id i (\<lambda>r. r\<lparr>us_end := Some t,
      us_duration := Some (word_of_int (max 0 (num_seconds (t - us_start u)))),
      us_total_cost := us_cost_per_second u * word_of_int (max 0 (num_seconds (t - us_start u)))\<rparr>) (usages db)\<rparr>" by simp
  with u show ?thesis by (simp add: usage_of_def find_update_rows closed_def)
qed

text \<open>
  A failed rebuild is billed until the workspace is deleted. The failure closes the usage at \<open>t1\<close> but leaves
  its number in the workspace; the deletion at \<open>t2\<close> closes the same usage again, so that it then runs to \<open>t2\<close>.
\<close>

theorem failed_rebuild_billed_until_deleted:
  assumes "rebuild_workspace env t0 db w = Ok (n, ws, db1)"
    and "end_usage db1 n t1 = Ok closed_db" and "db2 = rebuild_failed t1 db1 ws n"
    and "row_of db2 (ws_id w) = Some w2" and "delete_workspace t2 db2 w2 = Ok (tasks, db3)"
  shows "map_option us_end (usage_of db2 n) = Some (Some t1) \<and> ws_status w2 = Failed
    \<and> map_option us_end (usage_of db3 n) = Some (Some t2)"
proof -
  have row1: "map_option ws_usage (row_of db1 (ws_id w)) = Some (Some n)" and ws: "row_of db1 (ws_id w) = Some ws"
  proof -
    obtain d where d: "db1 = update_workspace d (ws_id w)
        (\<lambda>r. r\<lparr>ws_status := Building, ws_usage := Some n, ws_last_inactivity := None, ws_updated := Some t0\<rparr>)"
      and up: "updated_row db1 (ws_id w) = Ok ws"
      using assms(1) by (auto simp: rebuild_workspace_def and_then_eq_Ok Let_def split: if_splits option.splits prod.splits)
    show ws: "row_of db1 (ws_id w) = Some ws"
      using up by (auto simp: updated_row_def row_of_def internal_def ok_or_def split: option.splits)
    with d show "map_option ws_usage (row_of db1 (ws_id w)) = Some (Some n)" by (auto simp: option.map_comp)
  qed
  obtain u where u: "usage_of closed_db n = Some (closed t1 u)" "workspaces closed_db = workspaces db1"
    using end_usage_find [OF assms(2)] by blast
  have "ws_id ws = ws_id w" using ws by (rule row_of_id)
  then have db2: "db2 = update_workspace closed_db (ws_id w) (\<lambda>r. r\<lparr>ws_status := Failed, ws_updated := Some t1\<rparr>)"
    using assms(2,3) by (simp add: rebuild_failed_def)
  have "row_of closed_db (ws_id w) = Some ws" using ws u(2) by (simp add: row_of_def)
  with row1 ws assms(4) have w2: "ws_usage w2 = Some n" "ws_status w2 = Failed" by (auto simp: db2)
  obtain db' where end2: "end_usage db2 n t2 = Ok db'"
    using assms(5) w2 by (auto simp: delete_workspace_def close_usage_def internal_def and_then_eq_Ok Let_def map_sum_def
        split: if_splits sum.splits)
  have "usage_of db3 n = usage_of db' n"
    using delete_effect [OF assms(5) w2(1) end2] by (simp add: usage_of_def)
  with end_usage_find [OF end2] u(1) w2(2) show ?thesis by (auto simp: closed_def db2 usage_of_def)
qed

section \<open>Prebuilds and the workspaces that use them\<close>

text \<open>
  A workspace that is being created does not protect the prebuild it is created from. The new row stores the
  id of the prebuild's host where the id of the prebuild belongs, so a ready prebuild that no other workspace
  uses can be deleted while the new workspace is about to be built from it.
\<close>

theorem new_workspace_leaves_prebuild_unprotected:
  assumes "create_workspace_model env now i db org user (Some (p, branch, commit)) mt = Ok (ws, db')"
    and "get_prebuild_by_branch_and_commit_with_lock db p branch commit = Some pb"
    and "pb_status pb \<noteq> BuildingPrebuild" and "pb_host pb \<noteq> pb_id pb"
    and "\<forall>w \<in> set (workspaces db). \<not> ws_deleted w \<longrightarrow> ws_prebuild w \<noteq> Some (pb_id pb)"
  shows "ws_prebuild ws = Some (pb_host pb) \<and> (\<exists>db''. delete_prebuild db' pb = Ok db'')"
proof -
  have i: "internal r = Ok x \<longleftrightarrow> r = Ok x" for r :: "string + conductor_db" and x by (cases r) (auto simp: internal_def)
  obtain host cores where ws: "ws = new_workspace_row now i org user (Some pb) host cores mt"
    and r: "recalcuate_workspce_host (ce_parse env) (db\<lparr>workspaces := workspaces db @ [ws]\<rparr>) host (ce_overcommit env) = Ok db'"
    using assms(1,2)
    by (auto simp: create_workspace_model_def and_then_eq_Ok i Let_def split: if_splits sum.splits prod.splits)
  have "workspaces db' = workspaces db @ [ws]"
    using r by (auto simp: recalcuate_workspce_host_def and_then_eq_Ok Let_def)
  with assms(3,4,5) ws show ?thesis by (auto simp: delete_prebuild_def new_workspace_row_def)
qed

text \<open>
  Once it runs, a workspace protects its prebuild: after a build from a prebuild, and as long as the row is
  live, deleting that prebuild is refused.
\<close>

theorem built_workspace_protects_prebuild:
  assumes "row_of db (ws_id ws) = Some w" and "\<not> ws_deleted w" and "pb_status pb \<noteq> BuildingPrebuild"
  shows "delete_prebuild (create_workspace_from_output now db ws (Some (pb_id pb)) compose mt services) pb
    = Err (BadRequest ''You can't delete a prebuild with depending workspaces'')"
proof -
  obtain d u where d: "main_running now db ws (Some (pb_id pb)) compose mt = update_workspace d (ws_id ws)
      (\<lambda>w. w\<lparr>ws_status := Running, ws_prebuild := Some (pb_id pb), ws_is_compose := compose, ws_usage := Some u\<rparr>)"
    and "workspaces d = workspaces db"
    by (rule that [of "if ws_usage ws = None then snd (new_usage db now (ws_organization ws) (Some (ws_user ws)) (ws_id ws)
          (mt_id mt) (mt_cost_per_second mt)) else db" "case ws_usage ws of None \<Rightarrow> next_usage db | Some u \<Rightarrow> u"])
      (auto simp: main_running_def new_usage_def split: option.splits)
  with assms(1) have "row_of (main_running now db ws (Some (pb_id pb)) compose mt) (ws_id ws)
      = Some (w\<lparr>ws_status := Running, ws_prebuild := Some (pb_id pb), ws_is_compose := compose, ws_usage := Some u\<rparr>)"
    by (simp add: d row_of_def) (simp add: update_workspace_def find_update_rows)
  then have "w\<lparr>ws_status := Running, ws_prebuild := Some (pb_id pb), ws_is_compose := compose, ws_usage := Some u\<rparr>
      \<in> set (workspaces (main_running now db ws (Some (pb_id pb)) compose mt))" (is "?w \<in> ?S")
    by (simp add: row_of_def find_Some_iff) (metis nth_mem)
  moreover have "\<not> ws_deleted ?w" "ws_prebuild ?w = Some (pb_id pb)" using assms(2) by simp_all
  ultimately have "\<exists>w \<in> ?S. \<not> ws_deleted w \<and> ws_prebuild w = Some (pb_id pb)" by blast
  then show ?thesis
    using assms(3) by (auto simp: delete_prebuild_def create_workspace_from_output_def Let_def)
qed

section \<open>Witnesses\<close>

lemma ex_life:
  "fresh_usages ex_life_db" "row_of ex_life_db 5 = Some ex_stopped" "distinct (map ws_id (workspaces ex_life_db))"
  "get_machine_type ex_life_db 3 = Some ex_machine" "ws_id ex_stopped = 5" "ws_machine_type ex_stopped = 3"
  "ws_compose_parent ex_stopped = None" "ws_is_compose ex_stopped = False"
  by (simp_all add: fresh_usages_def row_of_def ex_life_db_def empty_db_def ex_stopped_def get_machine_type_def ex_machine_def)

lemma ex_start: "\<exists>db1. do_start_workspace t RpcDone ex_life_db ex_stopped = (Ok (), db1)"
  by (simp add: do_start_Done ex_life)

text \<open>A connected stop of a main workspace whose usage exists goes through.\<close>

lemma stop_goes_through:
  assumes "row_of db i = Some w" and "\<not> ws_is_compose w" and "ws_usage w = Some u" and "usage_of db u \<noteq> None"
  shows "\<exists>tasks db'. stop_workspace t True db w = (Ok tasks, db')"
proof -
  obtain d where d: "end_usage db u t = Ok d" using assms(4) by (auto simp: end_usage_def usage_of_def Let_def)
  with end_usage_find have "workspaces d = workspaces db" by blast
  with assms(1) row_of_id [OF assms(1)] have "row_of d (ws_id w) = Some w" by (simp add: row_of_def)
  then have "\<exists>x. updated_row (update_workspace d (ws_id w) (\<lambda>r. r\<lparr>ws_status := Stopping, ws_updated := Some t, ws_usage := None\<rparr>)) (ws_id w) = Ok x"
    by (simp add: updated_row_def row_of_def update_workspace_def find_update_rows internal_def ok_or_def)
  with d assms(2,3) show ?thesis by (auto simp: stop_workspace_def close_usage_def Let_def)
qed

theorem run_billed_exactly_witness:
  "\<exists>db1 w1 tasks db2 u. do_start_workspace 0 RpcDone ex_life_db ex_stopped = (Ok (), db1)
    \<and> stop_workspace (30 * NANOS) True db1 w1 = (Ok tasks, db2)
    \<and> usages db2 = [u] \<and> sint (us_total_cost u) = 60"
proof -
  obtain db1 where s: "do_start_workspace 0 RpcDone ex_life_db ex_stopped = (Ok (), db1)" using ex_start by blast
  note e = do_start_effect [OF ex_life(4) [folded ex_life(6)] ex_life(7) s]
  obtain w1 where w1: "row_of db1 5 = Some w1" "\<not> ws_is_compose w1" "ws_usage w1 = Some 1"
    using e(3) ex_life by (auto simp: ex_life_db_def empty_db_def)
  have "usage_of db1 1 \<noteq> None" by (simp add: usage_of_def e(1) ex_life_db_def empty_db_def opened_def)
  then obtain tasks db2 where st: "stop_workspace (30 * NANOS) True db1 w1 = (Ok tasks, db2)"
    using stop_goes_through [OF w1] by blast
  have rate: "sint (mt_cost_per_second ex_machine) = 2" "usages ex_life_db = []"
    by (simp_all add: ex_machine_def ex_life_db_def empty_db_def)
  from run_billed_exactly [where w = ex_stopped, OF ex_life(1) _ _ ex_life(7) s _ st] w1(1) ex_life rate
  have "\<exists>u. usages db2 = [u] \<and> sint (us_total_cost u) = 60" by (auto simp: NANOS_def num_seconds_def)
  with s st show ?thesis by blast
qed

theorem double_start_leaks_usage_witness:
  "\<exists>db1 db2 w2 tasks db3. do_start_workspace 0 RpcDone ex_life_db ex_stopped = (Ok (), db1)
    \<and> do_start_workspace 1 RpcDone db1 ex_stopped = (Ok (), db2) \<and> stop_workspace 9 True db2 w2 = (Ok tasks, db3)
    \<and> (\<exists>u \<in> set (usages db3). us_end u = None)"
proof -
  obtain db1 where s1: "do_start_workspace 0 RpcDone ex_life_db ex_stopped = (Ok (), db1)" using ex_start by blast
  note e1 = do_start_effect [OF ex_life(4) [folded ex_life(6)] ex_life(7) s1]
  have mt: "get_machine_type db1 (ws_machine_type ex_stopped) = Some ex_machine" using e1(4) ex_life by simp
  obtain db2 where s2: "do_start_workspace 1 RpcDone db1 ex_stopped = (Ok (), db2)" using do_start_Done [OF mt ex_life(7)] by blast
  note e2 = do_start_effect [OF mt ex_life(7) s2]
  obtain w2 where w2: "row_of db2 5 = Some w2" "\<not> ws_is_compose w2" "ws_usage w2 = Some 2"
    using e1(2,3) e2(3) ex_life by (auto simp: ex_life_db_def empty_db_def)
  have "usage_of db2 2 \<noteq> None" by (simp add: usage_of_def e1(1,2) e2(1) ex_life_db_def empty_db_def opened_def)
  then obtain tasks db3 where st: "stop_workspace 9 True db2 w2 = (Ok tasks, db3)"
    using stop_goes_through [OF w2] by blast
  have "row_of ex_life_db (ws_id ex_stopped) = Some ex_stopped" "row_of db2 (ws_id ex_stopped) = Some w2"
    using w2(1) ex_life by simp_all
  from double_start_leaks_usage [OF ex_life(1) this(1) ex_life(3) ex_life(4) [folded ex_life(6)] ex_life(7) s1 s2 this(2) st]
  have "\<exists>u \<in> set (usages db3). us_end u = None" by blast
  with s1 s2 st show ?thesis by blast
qed

theorem failed_rebuild_billed_until_deleted_witness:
  "\<exists>n ws db1 db2 w2 tasks db3. rebuild_workspace ex_env 0 ex_life_db ex_stopped = Ok (n, ws, db1) \<and> db2 = rebuild_failed 10 db1 ws n
    \<and> delete_workspace 99 db2 w2 = Ok (tasks, db3) \<and> map_option us_end (usage_of db3 n) = Some (Some 99)"
proof -
  obtain ws db1 where r: "rebuild_workspace ex_env 0 ex_life_db ex_stopped = Ok (1, ws, db1)"
    and db1: "db1 = update_workspace (ex_life_db\<lparr>usages := [opened 0 ex_life_db ex_stopped ex_machine], next_usage := 2\<rparr>) 5
        (\<lambda>r. r\<lparr>ws_status := Building, ws_usage := Some 1, ws_last_inactivity := None, ws_updated := Some 0\<rparr>)"
    and ws: "ws_id ws = 5"
    by (auto simp: rebuild_workspace_def ex_env_def is_building_def check_organization_limit_def check_start_workspace_quota_def
        quota_passed_def limit_def internal_def ok_or_def Let_def updated_row_def get_organization_def get_machine_type_def
        new_usage_def opened_def ex_life_db_def empty_db_def ex_stopped_def ex_org_def ex_machine_def update_workspace_def)
  have "find (\<lambda>u. us_id u = 1) (usages db1) = Some (opened 0 ex_life_db ex_stopped ex_machine)"
    by (simp add: db1 opened_def ex_life_db_def empty_db_def)
  from end_usage_row [OF this, of 10] obtain d where d: "end_usage db1 1 10 = Ok d" by blast
  define db2 where "db2 = rebuild_failed 10 db1 ws 1"
  have rows: "workspaces d = workspaces db1" using end_usage_find [OF d] by blast
  have db2': "db2 = update_workspace d 5 (\<lambda>r. r\<lparr>ws_status := Failed, ws_updated := Some 10\<rparr>)"
    by (simp add: db2_def rebuild_failed_def d [unfolded One_nat_def] ws)
  obtain w2 where w2: "row_of db2 5 = Some w2" "ws_id w2 = 5" "ws_status w2 = Failed" "\<not> ws_is_compose w2" "ws_usage w2 = Some 1"
    by (auto simp: db2' row_of_def update_workspace_def rows db1 ex_life_db_def empty_db_def ex_stopped_def)
  have "usage_of db2 1 \<noteq> None" using end_usage_find [OF d] by (auto simp: db2' usage_of_def)
  then obtain d' where d': "end_usage db2 1 99 = Ok d'" by (auto simp: end_usage_def usage_of_def Let_def)
  have "workspaces d' = workspaces db2" using end_usage_find [OF d'] by blast
  with w2 have "\<exists>tasks db3. delete_workspace 99 db2 w2 = Ok (tasks, db3)"
    by (simp add: delete_workspace_def is_building_def close_usage_def d' [unfolded One_nat_def] internal_def Let_def updated_row_def row_of_def
        update_workspace_def find_update_rows ok_or_def)
  then obtain tasks db3 where del: "delete_workspace 99 db2 w2 = Ok (tasks, db3)" by blast
  from failed_rebuild_billed_until_deleted [OF r d db2_def _ del] w2(1) ex_life(5)
  have "map_option us_end (usage_of db3 1) = Some (Some 99)" by simp
  with r db2_def del show ?thesis by blast
qed

theorem new_workspace_leaves_prebuild_unprotected_witness:
  "\<exists>ws db' db''. create_workspace_model ex_env 0 30 ex_life_db ex_org 2 (Some (4, ''main'', ''c0'')) ex_machine = Ok (ws, db')
    \<and> delete_prebuild db' ex_prebuild = Ok db''"
proof -
  obtain ws db' where c: "create_workspace_model ex_env 0 30 ex_life_db ex_org 2 (Some (4, ''main'', ''c0'')) ex_machine = Ok (ws, db')"
    using ex_create_workspace by blast
  from new_workspace_leaves_prebuild_unprotected [OF c, of ex_prebuild]
  have "\<exists>db''. delete_prebuild db' ex_prebuild = Ok db''"
    by (simp add: get_prebuild_by_branch_and_commit_with_lock_def ex_life_db_def ex_prebuild_def ex_stopped_def)
  with c show ?thesis by blast
qed

theorem built_workspace_protects_prebuild_witness:
  "delete_prebuild (create_workspace_from_output 0 ex_life_db ex_stopped (Some (pb_id ex_prebuild)) False ex_machine []) ex_prebuild
    = Err (BadRequest ''You can't delete a prebuild with depending workspaces'')"
  by (rule built_workspace_protects_prebuild [where w = ex_stopped]) (simp_all add: ex_life, simp_all add: ex_stopped_def ex_prebuild_def)

end
