(* ===== verification/Generation_Registry.thy ===== *)
theory Generation_Registry
  imports Lapdev_Prelude
begin

text \<open>
  Tables of live connections. Several parts of the server keep, for every cluster or user, the connections that
  are open at the moment: the data plane tunnels of clusters (\<^verbatim>\<open>crates/kube/src/tunnel.rs\<close>), the tunnels of
  CLIs (\<^verbatim>\<open>crates/api/src/devbox_tunnels.rs\<close>), the RPC connections of kube-managers
  (\<^verbatim>\<open>crates/kube/src/server.rs\<close>, dispatched to in \<^verbatim>\<open>crates/api/src/kube_controller/mod.rs\<close>) and those of
  sidecars. All give a connection a generation number when it registers and remove it by that number.

  A \<^verbatim>\<open>BTreeMap\<close> is the list of its entries in ascending order of keys. The counters are natural numbers; they
  would need \<open>2 ^ 64\<close> registrations to wrap around. Waiting for a connection to close is the caller's.
\<close>

section \<open>Ordered maps\<close>

fun btree_insert :: "'k :: linorder \<Rightarrow> 'v \<Rightarrow> ('k \<times> 'v) list \<Rightarrow> ('k \<times> 'v) list" where
  "btree_insert k v [] = [(k, v)]"
| "btree_insert k v ((k', v') # es) =
     (if k < k' then (k, v) # (k', v') # es
      else if k = k' then (k, v) # es
      else (k', v') # btree_insert k v es)"

definition btree_remove :: "'k \<Rightarrow> ('k \<times> 'v) list \<Rightarrow> ('k \<times> 'v) list" where
  "btree_remove k es = filter (\<lambda>(k', _). k' \<noteq> k) es"

lemma btree_insert_last: "\<forall>(k', _) \<in> set es. k' < k \<Longrightarrow> btree_insert k v es = es @ [(k, v)]"
  by (induction es) auto

lemma btree_remove_absent: "k \<notin> fst ` set es \<Longrightarrow> btree_remove k es = es"
  by (force simp: btree_remove_def filter_id_conv)

lemma btree_remove_map_of: "map_of es k = None \<Longrightarrow> btree_remove k es = es"
  by (intro btree_remove_absent) (simp add: map_of_eq_None_iff)

lemma btree_remove_Nil [simp]: "btree_remove k [] = []"
  by (simp add: btree_remove_def)

lemma map_of_btree_insert: "map_of (btree_insert k v es) k' = (if k' = k then Some v else map_of es k')"
  by (induction es) auto

section \<open>What a table of connections promises\<close>

datatype ('k, 'c) connection_event = Registered 'k 'c | Removed 'k nat

text \<open>
  The connections that were registered and not removed, in the order of registration, each with the number it
  was given.
\<close>

definition live_step :: "('k, 'c) connection_event \<Rightarrow> ('k \<times> nat \<times> 'c) list \<times> nat \<Rightarrow> ('k \<times> nat \<times> 'c) list \<times> nat" where
  "live_step e = (\<lambda>(cs, n). case e of
     Registered k c \<Rightarrow> (cs @ [(k, n, c)], Suc n)
   | Removed k g \<Rightarrow> (filter (\<lambda>(k', g', _). \<not> (k' = k \<and> g' = g)) cs, n))"

definition live_connections :: "nat \<Rightarrow> ('k, 'c) connection_event list \<Rightarrow> ('k \<times> nat \<times> 'c) list" where
  "live_connections n es = fst (fold live_step es ([], n))"

definition connections_of :: "'k \<Rightarrow> ('k \<times> nat \<times> 'c) list \<Rightarrow> (nat \<times> 'c) list" where
  "connections_of k cs = map snd (filter (\<lambda>(k', _). k' = k) cs)"

definition apply_event ::
    "('r \<Rightarrow> 'k \<Rightarrow> 'c \<Rightarrow> 'r) \<Rightarrow> ('r \<Rightarrow> 'k \<Rightarrow> nat \<Rightarrow> 'r) \<Rightarrow> ('k, 'c) connection_event \<Rightarrow> 'r \<Rightarrow> 'r" where
  "apply_event register remove e r = (case e of Registered k c \<Rightarrow> register r k c | Removed k g \<Rightarrow> remove r k g)"

locale connection_table =
  fixes register :: "'r \<Rightarrow> 'k \<Rightarrow> 'c \<Rightarrow> 'r"
    and remove :: "'r \<Rightarrow> 'k \<Rightarrow> nat \<Rightarrow> 'r"
    and held :: "'r \<Rightarrow> 'k \<Rightarrow> (nat \<times> 'c) list"
    and counter :: "'r \<Rightarrow> nat"
  assumes held_register: "held (register r k c) j = (if j = k then btree_insert (counter r) c (held r k) else held r j)"
    and counter_register: "counter (register r k c) = Suc (counter r)"
    and held_remove: "held (remove r k g) j = (if j = k then btree_remove g (held r k) else held r j)"
    and counter_remove: "counter (remove r k g) = counter r"
begin

definition agrees :: "'r \<Rightarrow> ('k \<times> nat \<times> 'c) list \<times> nat \<Rightarrow> bool" where
  "agrees r = (\<lambda>(cs, n). counter r = n \<and> (\<forall>(k, g, c) \<in> set cs. g < n) \<and> (\<forall>k. held r k = connections_of k cs))"

lemma agrees_step: "agrees r s \<Longrightarrow> agrees (apply_event register remove e r) (live_step e s)"
proof -
  assume "agrees r s"
  then obtain cs n where s: "s = (cs, n)" and n: "counter r = n" "\<forall>(k, g, c) \<in> set cs. g < n"
    and held: "\<And>k. held r k = connections_of k cs"
    by (cases s) (auto simp: agrees_def)
  show ?thesis
  proof (cases e)
    case (Registered k c)
    have "\<forall>(g, _) \<in> set (connections_of k cs). g < n" using n(2) by (auto simp: connections_of_def)
    then have "btree_insert n c (held r k) = held r k @ [(n, c)]" by (intro btree_insert_last) (simp add: held)
    with n held Registered s show ?thesis
      by (auto simp: agrees_def apply_event_def live_step_def held_register counter_register connections_of_def less_Suc_eq)
  next
    case (Removed k g)
    have "btree_remove g (connections_of k cs) = connections_of k (filter (\<lambda>(k', g', _). \<not> (k' = k \<and> g' = g)) cs)"
      by (induction cs) (auto simp: connections_of_def btree_remove_def)
    moreover have "connections_of j (filter (\<lambda>(k', g', _). \<not> (k' = k \<and> g' = g)) cs) = connections_of j cs" if "j \<noteq> k" for j
      using that by (induction cs) (auto simp: connections_of_def)
    ultimately show ?thesis
      using n held Removed s by (auto simp: agrees_def apply_event_def live_step_def held_remove counter_remove)
  qed
qed

lemma agrees_history: "agrees r s \<Longrightarrow> agrees (fold (apply_event register remove) es r) (fold live_step es s)"
  by (induction es arbitrary: r s) (simp_all add: agrees_step)

lemma held_history:
  assumes "\<And>k. held r k = []"
  shows "held (fold (apply_event register remove) es r) k = connections_of k (live_connections (counter r) es)"
proof -
  have "agrees r ([], counter r)" using assms by (simp add: agrees_def connections_of_def)
  then have "agrees (fold (apply_event register remove) es r) (fold live_step es ([], counter r))" by (rule agrees_history)
  then show ?thesis by (auto simp: agrees_def live_connections_def split: prod.splits)
qed

end

text \<open>The newest connection that has not been closed.\<close>

definition newest_open :: "('c \<Rightarrow> bool) \<Rightarrow> (nat \<times> 'c) list \<Rightarrow> 'c option" where
  "newest_open is_closed es = find (\<lambda>c. \<not> is_closed c) (rev (map snd es))"

section \<open>Tunnels of clusters\<close>

record tunnel_metrics =
  active_connections :: "32 word"
  total_connections :: "64 word"
  bytes_transferred :: "64 word"
  connection_errors :: "64 word"

definition no_metrics :: tunnel_metrics where
  "no_metrics = \<lparr>active_connections = 0, total_connections = 0, bytes_transferred = 0, connection_errors = 0\<rparr>"

record 'c tunnel_registry =
  tr_metrics :: "uuid \<rightharpoonup> tunnel_metrics"
  tr_clients :: "uuid \<rightharpoonup> (nat \<times> 'c) list"
  tr_counter :: nat

definition new_tunnel_registry :: "'c tunnel_registry" where
  "new_tunnel_registry = \<lparr>tr_metrics = Map.empty, tr_clients = Map.empty, tr_counter = 1\<rparr>"

definition saturating_add :: "64 word \<Rightarrow> 64 word \<Rightarrow> 64 word" where
  "saturating_add a b = (if unat a + unat b < 2 ^ 64 then a + b else - 1)"

definition entry_or :: "'v \<Rightarrow> 'v option \<Rightarrow> 'v" where
  "entry_or d e = (case e of Some v \<Rightarrow> v | None \<Rightarrow> d)"

definition update_metrics ::
    "'c tunnel_registry \<Rightarrow> uuid \<Rightarrow> 32 word \<Rightarrow> 64 word \<Rightarrow> 64 word \<Rightarrow> 64 word \<Rightarrow> 'c tunnel_registry" where
  "update_metrics r cluster active bytes count errors =
     (let m = entry_or no_metrics (tr_metrics r cluster)
      in r\<lparr>tr_metrics := (tr_metrics r)(cluster \<mapsto>
            \<lparr>active_connections = active, total_connections = saturating_add (total_connections m) count,
             bytes_transferred = saturating_add (bytes_transferred m) bytes,
             connection_errors = saturating_add (connection_errors m) errors\<rparr>)\<rparr>)"

definition register_client :: "'c tunnel_registry \<Rightarrow> uuid \<Rightarrow> 'c \<Rightarrow> nat \<times> 'c tunnel_registry" where
  "register_client r cluster client =
     (let generation = tr_counter r;
          es = entry_or [] (tr_clients r cluster)
      in (generation,
          r\<lparr>tr_counter := Suc generation,
            tr_metrics := (tr_metrics r)(cluster \<mapsto> entry_or no_metrics (tr_metrics r cluster)),
            tr_clients := (tr_clients r)(cluster \<mapsto> btree_insert generation client es)\<rparr>))"

definition remove_client :: "'c tunnel_registry \<Rightarrow> uuid \<Rightarrow> nat \<Rightarrow> 'c tunnel_registry" where
  "remove_client r cluster generation =
     (case tr_clients r cluster of
        None \<Rightarrow> r
      | Some es \<Rightarrow>
          (if map_of es generation = None then r
           else if btree_remove generation es = []
           then r\<lparr>tr_clients := (tr_clients r)(cluster := None), tr_metrics := (tr_metrics r)(cluster := None)\<rparr>
           else r\<lparr>tr_clients := (tr_clients r)(cluster \<mapsto> btree_remove generation es)\<rparr>))"

definition get_client :: "('c \<Rightarrow> bool) \<Rightarrow> 'c tunnel_registry \<Rightarrow> uuid \<Rightarrow> 'c option" where
  "get_client is_closed r cluster = Option.bind (tr_clients r cluster) (newest_open is_closed)"

definition tunnels_of :: "'c tunnel_registry \<Rightarrow> uuid \<Rightarrow> (nat \<times> 'c) list" where
  "tunnels_of r cluster = entry_or [] (tr_clients r cluster)"

lemma get_client_tunnels: "get_client is_closed r k = newest_open is_closed (tunnels_of r k)"
  by (simp add: get_client_def tunnels_of_def entry_or_def newest_open_def split: option.splits)

lemma tunnel_table:
  "tunnels_of (snd (register_client r k c)) j = (if j = k then btree_insert (tr_counter r) c (tunnels_of r k) else tunnels_of r j)"
  "tr_counter (snd (register_client r k c)) = Suc (tr_counter r)"
  "tunnels_of (remove_client r k g) j = (if j = k then btree_remove g (tunnels_of r k) else tunnels_of r j)"
  "tr_counter (remove_client r k g) = tr_counter r"
  by (auto simp: register_client_def remove_client_def tunnels_of_def entry_or_def Let_def btree_remove_map_of split: option.splits)

interpretation tunnels: connection_table "\<lambda>r k c. snd (register_client r k c)" remove_client tunnels_of tr_counter
  by unfold_locales (rule tunnel_table)+

section \<open>Tunnels of CLIs\<close>

record 'c devbox_tunnels =
  dt_sessions :: "uuid \<rightharpoonup> (nat \<times> 'c) list"
  dt_counter :: nat

definition new_devbox_tunnels :: "'c devbox_tunnels" where
  "new_devbox_tunnels = \<lparr>dt_sessions = Map.empty, dt_counter = 1\<rparr>"

definition register_cli :: "'c devbox_tunnels \<Rightarrow> uuid \<Rightarrow> 'c \<Rightarrow> nat \<times> 'c devbox_tunnels" where
  "register_cli r user client =
     (let generation = dt_counter r
      in (generation,
          r\<lparr>dt_counter := Suc generation,
            dt_sessions := (dt_sessions r)(user \<mapsto> btree_insert generation client (entry_or [] (dt_sessions r user)))\<rparr>))"

text \<open>What the task started by \<^verbatim>\<open>register_cli\<close> does when the connection has closed.\<close>

definition cli_closed :: "'c devbox_tunnels \<Rightarrow> uuid \<Rightarrow> nat \<Rightarrow> 'c devbox_tunnels" where
  "cli_closed r user generation =
     (case dt_sessions r user of
        None \<Rightarrow> r
      | Some es \<Rightarrow>
          (if map_of es generation = None then r
           else if btree_remove generation es = [] then r\<lparr>dt_sessions := (dt_sessions r)(user := None)\<rparr>
           else r\<lparr>dt_sessions := (dt_sessions r)(user \<mapsto> btree_remove generation es)\<rparr>))"

definition cli_for_sidecar :: "('c \<Rightarrow> bool) \<Rightarrow> 'c devbox_tunnels \<Rightarrow> uuid \<Rightarrow> 'c option" where
  "cli_for_sidecar is_closed r user = Option.bind (dt_sessions r user) (newest_open is_closed)"

definition clis_of :: "'c devbox_tunnels \<Rightarrow> uuid \<Rightarrow> (nat \<times> 'c) list" where
  "clis_of r user = entry_or [] (dt_sessions r user)"

lemma cli_for_sidecar_clis: "cli_for_sidecar is_closed r k = newest_open is_closed (clis_of r k)"
  by (simp add: cli_for_sidecar_def clis_of_def entry_or_def newest_open_def split: option.splits)

lemma cli_table:
  "clis_of (snd (register_cli r k c)) j = (if j = k then btree_insert (dt_counter r) c (clis_of r k) else clis_of r j)"
  "dt_counter (snd (register_cli r k c)) = Suc (dt_counter r)"
  "clis_of (cli_closed r k g) j = (if j = k then btree_remove g (clis_of r k) else clis_of r j)"
  "dt_counter (cli_closed r k g) = dt_counter r"
  by (auto simp: register_cli_def cli_closed_def clis_of_def entry_or_def Let_def btree_remove_map_of split: option.splits)

interpretation clis: connection_table "\<lambda>r k c. snd (register_cli r k c)" cli_closed clis_of dt_counter
  by unfold_locales (rule cli_table)+

section \<open>Kube-managers\<close>

record 's cluster_servers =
  cs_servers :: "uuid \<rightharpoonup> (nat \<times> 's) list"
  cs_counter :: nat

definition server_register :: "'s cluster_servers \<Rightarrow> uuid \<Rightarrow> 's \<Rightarrow> nat \<times> 's cluster_servers" where
  "server_register r cluster server =
     (let generation = cs_counter r
      in (generation,
          r\<lparr>cs_counter := Suc generation,
            cs_servers := (cs_servers r)(cluster \<mapsto> btree_insert generation server (entry_or [] (cs_servers r cluster)))\<rparr>))"

definition server_unregister :: "'s cluster_servers \<Rightarrow> uuid \<Rightarrow> nat option \<Rightarrow> 's cluster_servers" where
  "server_unregister r cluster generation =
     (case generation of
        None \<Rightarrow> r
      | Some g \<Rightarrow>
          (case cs_servers r cluster of
             None \<Rightarrow> r
           | Some es \<Rightarrow>
               (if btree_remove g es = [] then r\<lparr>cs_servers := (cs_servers r)(cluster := None)\<rparr>
                else r\<lparr>cs_servers := (cs_servers r)(cluster \<mapsto> btree_remove g es)\<rparr>)))"

text \<open>The calls of the API to a cluster: the connections in order, until one succeeds.\<close>

fun try_servers :: "('s \<Rightarrow> 'w \<Rightarrow> (string + unit) \<times> 'w) \<Rightarrow> string \<Rightarrow> 's list \<Rightarrow> string option \<Rightarrow> 'w \<Rightarrow> (string + unit) \<times> 'w" where
  "try_servers call failed [] last_err w = (Err (entry_or failed last_err), w)"
| "try_servers call failed (s # ss) last_err w =
     (case call s w of
        (Inr _, w') \<Rightarrow> (Ok (), w')
      | (Inl err, w') \<Rightarrow> try_servers call failed ss (Some err) w')"

definition dispatch_to_cluster ::
    "('s \<Rightarrow> 'w \<Rightarrow> (string + unit) \<times> 'w) \<Rightarrow> string \<Rightarrow> 's cluster_servers \<Rightarrow> uuid \<Rightarrow> 'w \<Rightarrow> (string + unit) \<times> 'w" where
  "dispatch_to_cluster call failed r cluster w =
     (case cs_servers r cluster of
        None \<Rightarrow> (Err ''No connected KubeManager instances for cluster'', w)
      | Some es \<Rightarrow> try_servers call failed (map snd es) None w)"

definition servers_of :: "'s cluster_servers \<Rightarrow> uuid \<Rightarrow> (nat \<times> 's) list" where
  "servers_of r cluster = entry_or [] (cs_servers r cluster)"

lemma server_table:
  "servers_of (snd (server_register r k c)) j = (if j = k then btree_insert (cs_counter r) c (servers_of r k) else servers_of r j)"
  "cs_counter (snd (server_register r k c)) = Suc (cs_counter r)"
  "servers_of (server_unregister r k (Some g)) j = (if j = k then btree_remove g (servers_of r k) else servers_of r j)"
  "cs_counter (server_unregister r k (Some g)) = cs_counter r"
  by (auto simp: server_register_def server_unregister_def servers_of_def entry_or_def Let_def split: option.splits)

interpretation servers: connection_table "\<lambda>r k c. snd (server_register r k c)" "\<lambda>r k g. server_unregister r k (Some g)"
    servers_of cs_counter
  by unfold_locales (rule server_table)+

lemma try_servers_Ok: "fst (call s w) = Ok () \<Longrightarrow> try_servers call failed (s # ss) last_err w = (Ok (), snd (call s w))"
  by (cases "call s w") auto

section \<open>Properties\<close>

text \<open>
  C34: After any history of registrations and removals, a connection to a cluster uses the tunnel that was
  registered last among those of the cluster that are neither removed nor closed: an old connection that is
  removed late never takes a newer one with it, and no other cluster's tunnel is ever returned.
\<close>

theorem cluster_tunnel_is_newest:
  "get_client is_closed (fold (apply_event (\<lambda>r k c. snd (register_client r k c)) remove_client) es new_tunnel_registry) cluster =
     find (\<lambda>c. \<not> is_closed c) (rev (map (\<lambda>(_, _, c). c)
       (filter (\<lambda>(k, _, _). k = cluster) (live_connections 1 es))))"
proof -
  have "tunnels_of new_tunnel_registry k = []" "tr_counter (new_tunnel_registry :: 'a tunnel_registry) = 1" for k
    by (simp_all add: tunnels_of_def entry_or_def new_tunnel_registry_def)
  from tunnels.held_history [of "new_tunnel_registry :: 'a tunnel_registry", OF this(1), of es cluster]
  have "tunnels_of (fold (apply_event (\<lambda>r k c. snd (register_client r k c)) remove_client) es new_tunnel_registry) cluster = connections_of cluster (live_connections 1 es)"
    by (simp add: new_tunnel_registry_def)
  then show ?thesis
    by (simp add: get_client_tunnels newest_open_def connections_of_def comp_def case_prod_unfold)
qed

text \<open>The same for the tunnel of a CLI that a sidecar is attached to.\<close>

lemma sidecar_gets_newest_cli:
  "cli_for_sidecar is_closed (fold (apply_event (\<lambda>r k c. snd (register_cli r k c)) cli_closed) es new_devbox_tunnels) user =
     find (\<lambda>c. \<not> is_closed c) (rev (map (\<lambda>(_, _, c). c)
       (filter (\<lambda>(k, _, _). k = user) (live_connections 1 es))))"
proof -
  have "clis_of new_devbox_tunnels k = []" for k by (simp add: clis_of_def entry_or_def new_devbox_tunnels_def)
  from clis.held_history [of "new_devbox_tunnels :: 'a devbox_tunnels", OF this, of es user]
  have "clis_of (fold (apply_event (\<lambda>r k c. snd (register_cli r k c)) cli_closed) es new_devbox_tunnels) user = connections_of user (live_connections 1 es)"
    by (simp add: new_devbox_tunnels_def)
  then show ?thesis
    by (simp add: cli_for_sidecar_clis newest_open_def connections_of_def comp_def case_prod_unfold)
qed

end
