(* ===== verification/Devbox_Sessions.thy ===== *)
theory Devbox_Sessions
  imports Preview_Url Generation_Registry
begin

text \<open>
  Devbox sessions on the API server: the login of a CLI (\<^verbatim>\<open>crates/api/src/cli_auth.rs\<close>,
  \<^verbatim>\<open>devbox_auth.rs\<close>), its control connection and tunnels (\<^verbatim>\<open>devbox.rs\<close>), what the dashboard does to it
  (\<^verbatim>\<open>hrpc_service.rs\<close>), and the rows behind all that (\<^verbatim>\<open>crates/db/src/api.rs\<close>).

  Encryption of tokens, their hash and random ids are arguments. A handler returns its answer, the new state and
  the work it leaves to background tasks (\<open>devbox_task\<close>), which \<open>Devbox_Intercepts\<close> carries out. Failures of the
  database connection are not modelled. Times are integers.
\<close>

section \<open>Rows\<close>

record devbox_session =
  ss_id :: uuid
  ss_user_id :: uuid
  ss_token_hash :: string
  ss_token_prefix :: string
  ss_device_name :: string
  ss_active_environment :: "uuid option"
  ss_created_at :: int
  ss_expires_at :: int
  ss_last_used_at :: int
  ss_revoked_at :: "int option"

record port_mapping =
  pm_workload_port :: u16
  pm_local_port :: u16
  pm_protocol :: string

record workload_intercept =
  ic_id :: uuid
  ic_user_id :: uuid
  ic_environment_id :: uuid
  ic_workload_id :: uuid
  ic_port_mappings :: "port_mapping list"
  ic_created_at :: int
  ic_stopped_at :: "int option"

record devbox_environment = kube_environment +
  env_auth_token :: string

record environment_workload =
  wl_id :: uuid
  wl_deleted_at :: "nat option"
  wl_environment_id :: uuid
  wl_base_workload_id :: "uuid option"
  wl_name :: string

record devbox_db =
  dv_sessions :: "devbox_session list"
  dv_intercepts :: "workload_intercept list"
  dv_environments :: "devbox_environment list"
  dv_workloads :: "environment_workload list"
  dv_clusters :: "uuid list"
  dv_users :: "uuid list"
  dv_members :: "organization_member list"

definition dv_get_environment :: "devbox_db \<Rightarrow> uuid \<Rightarrow> devbox_environment option" where
  "dv_get_environment db i = find (\<lambda>e. env_id e = i \<and> live (env_deleted_at e)) (dv_environments db)"

definition get_environment_workload :: "devbox_db \<Rightarrow> uuid \<Rightarrow> environment_workload option" where
  "get_environment_workload db i = find (\<lambda>w. wl_id w = i \<and> live (wl_deleted_at w)) (dv_workloads db)"

section \<open>Sessions\<close>

definition update_session :: "(devbox_session \<Rightarrow> devbox_session) \<Rightarrow> uuid \<Rightarrow> devbox_db \<Rightarrow> devbox_db" where
  "update_session f i db = db\<lparr>dv_sessions := map (\<lambda>s. if ss_id s = i then f s else s) (dv_sessions db)\<rparr>"

definition user_session :: "devbox_db \<Rightarrow> uuid \<Rightarrow> devbox_session option" where
  "user_session db user =
     (let rows = sort_key ss_created_at (filter (\<lambda>s. ss_user_id s = user) (dv_sessions db))
      in if rows = [] then None else Some (last rows))"

definition create_or_update_devbox_session ::
    "(string \<Rightarrow> string) \<Rightarrow> uuid \<Rightarrow> int \<Rightarrow> uuid \<Rightarrow> string \<Rightarrow> string \<Rightarrow> int \<Rightarrow> devbox_db \<Rightarrow> devbox_db" where
  "create_or_update_devbox_session hash new_id now user token device expires db =
     (case user_session db user of
        Some existing \<Rightarrow>
          update_session (\<lambda>s. s\<lparr>ss_token_hash := hash token, ss_token_prefix := take 12 token, ss_device_name := device,
            ss_expires_at := expires, ss_last_used_at := now, ss_revoked_at := None\<rparr>) (ss_id existing) db
      | None \<Rightarrow>
          db\<lparr>dv_sessions := dv_sessions db @
            [\<lparr>ss_id = new_id, ss_user_id = user, ss_token_hash = hash token, ss_token_prefix = take 12 token,
              ss_device_name = device, ss_active_environment = None, ss_created_at = now, ss_expires_at = expires,
              ss_last_used_at = now, ss_revoked_at = None\<rparr>]\<rparr>)"

definition get_devbox_session_by_token_hash :: "(string \<Rightarrow> string) \<Rightarrow> devbox_db \<Rightarrow> string \<Rightarrow> devbox_session option" where
  "get_devbox_session_by_token_hash hash db token =
     find (\<lambda>s. ss_token_hash s = hash token \<and> ss_revoked_at s = None) (dv_sessions db)"

definition get_active_devbox_session :: "devbox_db \<Rightarrow> uuid \<Rightarrow> devbox_session option" where
  "get_active_devbox_session db user = find (\<lambda>s. ss_user_id s = user \<and> ss_revoked_at s = None) (dv_sessions db)"

definition get_devbox_session_by_id :: "devbox_db \<Rightarrow> uuid \<Rightarrow> devbox_session option" where
  "get_devbox_session_by_id db i = find (\<lambda>s. ss_id s = i) (dv_sessions db)"

text \<open>All updates of the active session of a user have the same form.\<close>

definition update_active_session :: "(devbox_session \<Rightarrow> devbox_session) \<Rightarrow> uuid \<Rightarrow> devbox_db \<Rightarrow> devbox_db" where
  "update_active_session f user db =
     (case get_active_devbox_session db user of None \<Rightarrow> db | Some existing \<Rightarrow> update_session f (ss_id existing) db)"

definition revoke_active_devbox_session :: "int \<Rightarrow> uuid \<Rightarrow> devbox_db \<Rightarrow> devbox_db" where
  "revoke_active_devbox_session now = update_active_session (\<lambda>s. s\<lparr>ss_revoked_at := Some now\<rparr>)"

definition update_devbox_session_last_used :: "int \<Rightarrow> uuid \<Rightarrow> devbox_db \<Rightarrow> devbox_db" where
  "update_devbox_session_last_used now = update_active_session (\<lambda>s. s\<lparr>ss_last_used_at := now\<rparr>)"

definition update_devbox_session_device_name :: "string \<Rightarrow> uuid \<Rightarrow> devbox_db \<Rightarrow> devbox_db" where
  "update_devbox_session_device_name device = update_active_session (\<lambda>s. s\<lparr>ss_device_name := device\<rparr>)"

definition update_devbox_session_active_environment :: "uuid option \<Rightarrow> uuid \<Rightarrow> devbox_db \<Rightarrow> devbox_db" where
  "update_devbox_session_active_environment env = update_active_session (\<lambda>s. s\<lparr>ss_active_environment := env\<rparr>)"

definition revoke_devbox_session_by_id :: "int \<Rightarrow> uuid \<Rightarrow> devbox_db \<Rightarrow> devbox_db" where
  "revoke_devbox_session_by_id now i db =
     (case get_devbox_session_by_id db i of
        None \<Rightarrow> db
      | Some _ \<Rightarrow> update_session (\<lambda>s. s\<lparr>ss_revoked_at := Some now\<rparr>) i db)"

section \<open>Intercepts\<close>

definition create_workload_intercept ::
    "uuid \<Rightarrow> int \<Rightarrow> uuid \<Rightarrow> uuid \<Rightarrow> uuid \<Rightarrow> port_mapping list \<Rightarrow> devbox_db \<Rightarrow> workload_intercept \<times> devbox_db" where
  "create_workload_intercept new_id now user env workload mappings db =
     (let mine = filter (\<lambda>i. ic_user_id i = user \<and> ic_workload_id i = workload) (dv_intercepts db);
          reuse = (\<lambda>model.
            (let row = model\<lparr>ic_environment_id := env, ic_port_mappings := mappings, ic_stopped_at := None\<rparr>
             in (row, db\<lparr>dv_intercepts := map (\<lambda>i. if ic_id i = ic_id model then row else i) (dv_intercepts db)\<rparr>)))
      in case find (\<lambda>i. ic_stopped_at i = None) mine of
           Some model \<Rightarrow> reuse model
         | None \<Rightarrow>
             (let stopped = sort_key (\<lambda>i. the (ic_stopped_at i)) (filter (\<lambda>i. ic_stopped_at i \<noteq> None) mine)
              in if stopped \<noteq> [] then reuse (last stopped)
                 else
                   (let row = \<lparr>ic_id = new_id, ic_user_id = user, ic_environment_id = env, ic_workload_id = workload,
                          ic_port_mappings = mappings, ic_created_at = now, ic_stopped_at = None\<rparr>
                    in (row, db\<lparr>dv_intercepts := dv_intercepts db @ [row]\<rparr>))))"

definition db_stop_workload_intercept :: "int \<Rightarrow> uuid \<Rightarrow> devbox_db \<Rightarrow> devbox_db" where
  "db_stop_workload_intercept now i db =
     db\<lparr>dv_intercepts := map (\<lambda>r. if ic_id r = i then r\<lparr>ic_stopped_at := Some now\<rparr> else r) (dv_intercepts db)\<rparr>"

definition get_workload_intercept :: "devbox_db \<Rightarrow> uuid \<Rightarrow> workload_intercept option" where
  "get_workload_intercept db i = find (\<lambda>r. ic_id r = i) (dv_intercepts db)"

definition get_active_intercepts_for_environment :: "devbox_db \<Rightarrow> uuid \<Rightarrow> workload_intercept list" where
  "get_active_intercepts_for_environment db env =
     filter (\<lambda>r. ic_environment_id r = env \<and> ic_stopped_at r = None) (dv_intercepts db)"

definition list_workload_intercepts_for_environment :: "devbox_db \<Rightarrow> uuid \<Rightarrow> workload_intercept list" where
  "list_workload_intercepts_for_environment db env =
     rev (sort_key ic_created_at (filter (\<lambda>r. ic_environment_id r = env) (dv_intercepts db)))"

section \<open>State of the API server\<close>

record session_handle =
  sh_session_id :: uuid
  sh_device_name :: string
  sh_client :: nat

record pending_cli_auth =
  pa_token :: string
  pa_expires_at :: int

record core_state =
  co_db :: devbox_db
  co_active :: "uuid \<rightharpoonup> (uuid \<times> session_handle) list"
  co_pending :: "uuid \<rightharpoonup> pending_cli_auth"

datatype cli_notice = SessionDisplaced string | EnvironmentChanged uuid

datatype devbox_task =
    TellCli nat cli_notice
  | PushRoutes uuid uuid
  | ClearEnvironmentRoutes uuid
  | PushInterceptRoute devbox_environment workload_intercept
  | ClearInterceptRoute devbox_environment workload_intercept

datatype devbox_error = Unauthenticated | DevboxError string

section \<open>Login of a CLI\<close>

record cli_claims =
  cl_user_id :: "uuid option"
  cl_organization_id :: "uuid option"
  cl_session_type :: "string option"
  cl_device_name :: "string option"
  cl_session_id :: "uuid option"
  cl_exp :: "int option"

record devbox_context =
  cx_user :: uuid
  cx_organization :: uuid
  cx_session_id :: uuid
  cx_device_name :: string
  cx_claims :: cli_claims

definition generate_cli_token ::
    "(cli_claims \<Rightarrow> string) \<Rightarrow> int \<Rightarrow> uuid \<Rightarrow> uuid \<Rightarrow> uuid \<Rightarrow> string \<Rightarrow> core_state \<Rightarrow> core_state" where
  "generate_cli_token encrypt now user organization session device st =
     (let claims = \<lparr>cl_user_id = Some user, cl_organization_id = Some organization, cl_session_type = Some ''cli'',
            cl_device_name = Some device, cl_session_id = Some session, cl_exp = Some (now + 86400 * 30)\<rparr>
      in st\<lparr>co_pending := (co_pending st)(session \<mapsto> \<lparr>pa_token = encrypt claims, pa_expires_at = now + 300\<rparr>)\<rparr>)"

text \<open>The poll reads under one lock and removes under another.\<close>

definition cli_token_read :: "int \<Rightarrow> uuid \<Rightarrow> core_state \<Rightarrow> string option" where
  "cli_token_read now session st =
     (case co_pending st session of
        None \<Rightarrow> None
      | Some auth \<Rightarrow> if now < pa_expires_at auth then Some (pa_token auth) else None)"

definition cli_token_remove :: "uuid \<Rightarrow> core_state \<Rightarrow> core_state" where
  "cli_token_remove session st = st\<lparr>co_pending := (co_pending st)(session := None)\<rparr>"

definition cli_token_poll :: "int \<Rightarrow> uuid \<Rightarrow> core_state \<Rightarrow> string option \<times> core_state" where
  "cli_token_poll now session st =
     (case cli_token_read now session st of
        None \<Rightarrow> (None, st)
      | Some token \<Rightarrow> (Some token, cli_token_remove session st))"

definition bearer_token :: "string option \<Rightarrow> devbox_error + string" where
  "bearer_token header =
     (case header of
        None \<Rightarrow> Err Unauthenticated
      | Some h \<Rightarrow> if starts_with h ''Bearer '' then Ok (drop 7 h) else Err Unauthenticated)"

definition authenticate_bearer :: "(string \<Rightarrow> cli_claims option) \<Rightarrow> devbox_db \<Rightarrow> string \<Rightarrow> devbox_error + devbox_context" where
  "authenticate_bearer decrypt db token =
     and_then (ok_or Unauthenticated (decrypt token)) (\<lambda>claims.
     and_then (ok_or Unauthenticated (cl_user_id claims)) (\<lambda>user.
     and_then (ok_or Unauthenticated (cl_organization_id claims)) (\<lambda>organization.
     if entry_or [] (cl_session_type claims) \<noteq> ''cli'' then Err Unauthenticated
     else
       and_then (ok_or Unauthenticated (cl_device_name claims)) (\<lambda>device.
       and_then (ok_or Unauthenticated (cl_session_id claims)) (\<lambda>session.
       if user \<notin> set (dv_users db) then Err Unauthenticated
       else Ok \<lparr>cx_user = user, cx_organization = organization, cx_session_id = session, cx_device_name = device,
              cx_claims = claims\<rparr>)))))"

section \<open>The control connection\<close>

definition active_handles :: "core_state \<Rightarrow> uuid \<Rightarrow> (uuid \<times> session_handle) list" where
  "active_handles st user = entry_or [] (co_active st user)"

definition devbox_rpc_websocket ::
    "(string \<Rightarrow> cli_claims option) \<Rightarrow> (string \<Rightarrow> string) \<Rightarrow> uuid \<Rightarrow> int \<Rightarrow> string option \<Rightarrow> core_state
     \<Rightarrow> devbox_error + devbox_context \<times> core_state \<times> devbox_task list" where
  "devbox_rpc_websocket decrypt hash new_id now header st =
     and_then (bearer_token header) (\<lambda>token.
     and_then (authenticate_bearer decrypt (co_db st) token) (\<lambda>ctx.
     let expires = entry_or (now + 86400 * 30) (cl_exp (cx_claims ctx));
         tasks = map (\<lambda>(_, h). TellCli (sh_client h) (SessionDisplaced (cx_device_name ctx))) (active_handles st (cx_user ctx));
         db = create_or_update_devbox_session hash new_id now (cx_user ctx) token (cx_device_name ctx) expires (co_db st)
     in Ok (ctx, st\<lparr>co_db := db\<rparr>, tasks)))"

definition devbox_rpc_started :: "devbox_context \<Rightarrow> uuid \<Rightarrow> nat \<Rightarrow> core_state \<Rightarrow> core_state" where
  "devbox_rpc_started ctx connection_id client st =
     st\<lparr>co_active := (co_active st)(cx_user ctx \<mapsto> btree_insert connection_id
        \<lparr>sh_session_id = cx_session_id ctx, sh_device_name = cx_device_name ctx, sh_client = client\<rparr> (active_handles st (cx_user ctx)))\<rparr>"

definition remove_handle :: "uuid \<Rightarrow> uuid \<Rightarrow> core_state \<Rightarrow> core_state" where
  "remove_handle user connection_id st =
     (case co_active st user of
        None \<Rightarrow> st
      | Some entries \<Rightarrow>
          (let rest = btree_remove connection_id entries
           in st\<lparr>co_active := (co_active st)(user := if rest = [] then None else Some rest)\<rparr>))"

definition devbox_rpc_ended :: "int \<Rightarrow> uuid \<Rightarrow> uuid \<Rightarrow> core_state \<Rightarrow> core_state \<times> devbox_task list" where
  "devbox_rpc_ended now user connection_id st =
     (let st' = remove_handle user connection_id st;
          tasks = (case Option.bind (get_active_devbox_session (co_db st') user) ss_active_environment of
                     Some env \<Rightarrow> [ClearEnvironmentRoutes env] | None \<Rightarrow> [])
      in (st'\<lparr>co_db := revoke_active_devbox_session now user (co_db st')\<rparr>, tasks))"

definition whoami :: "uuid \<Rightarrow> core_state \<Rightarrow> string + devbox_session \<times> devbox_task list" where
  "whoami user st =
     (if user \<notin> set (dv_users (co_db st)) then Err ''User not found''
      else
        and_then (ok_or ''Session not found'' (get_active_devbox_session (co_db st) user)) (\<lambda>session.
        Ok (session, case ss_active_environment session of Some env \<Rightarrow> [PushRoutes user env] | None \<Rightarrow> [])))"

definition get_active_environment :: "uuid \<Rightarrow> core_state \<Rightarrow> string + devbox_environment option" where
  "get_active_environment user st =
     and_then (ok_or ''Session not found'' (get_active_devbox_session (co_db st) user)) (\<lambda>session.
     case ss_active_environment session of
       None \<Rightarrow> Ok None
     | Some i \<Rightarrow>
         and_then (ok_or ''Environment not found'' (dv_get_environment (co_db st) i)) (\<lambda>env.
         if env_cluster_id env \<notin> set (dv_clusters (co_db st)) then Err ''Cluster not found'' else Ok (Some env)))"

definition update_device_name :: "uuid \<Rightarrow> uuid \<Rightarrow> string \<Rightarrow> core_state \<Rightarrow> core_state" where
  "update_device_name user session device st =
     (let rename = (\<lambda>entries. case map_of (map (\<lambda>(c, h). (sh_session_id h, c)) entries) session of
            None \<Rightarrow> entries
          | Some first \<Rightarrow> map (\<lambda>(c, h). (c, if c = first then h\<lparr>sh_device_name := device\<rparr> else h)) entries)
      in st\<lparr>co_db := update_devbox_session_device_name device user (co_db st),
            co_active := (co_active st)(user := map_option rename (co_active st user))\<rparr>)"

definition switch_tasks :: "uuid \<Rightarrow> uuid \<Rightarrow> uuid option \<Rightarrow> devbox_task list" where
  "switch_tasks user env previous =
     PushRoutes user env #
       (case previous of Some prev \<Rightarrow> if prev \<noteq> env then [ClearEnvironmentRoutes prev] else [] | None \<Rightarrow> [])"

text \<open>
  The answer is an error also when the cluster is missing, after the environment has been stored: the state is
  returned beside the answer.
\<close>

definition rpc_set_active_environment ::
    "uuid \<Rightarrow> nat \<Rightarrow> uuid \<Rightarrow> core_state \<Rightarrow> (string + unit) \<times> core_state \<times> devbox_task list" where
  "rpc_set_active_environment user client i st =
     (let previous = Option.bind (get_active_devbox_session (co_db st) user) ss_active_environment
      in case dv_get_environment (co_db st) i of
           None \<Rightarrow> (Err ''Environment not found'', st, [])
         | Some env \<Rightarrow>
             if env_is_shared env then (Err ''Shared environments cannot be used as active devbox environments'', st, [])
             else
               (let st' = st\<lparr>co_db := update_devbox_session_active_environment (Some i) user (co_db st)\<rparr>
                in if env_cluster_id env \<notin> set (dv_clusters (co_db st)) then (Err ''Cluster not found'', st', [])
                   else (Ok (), st', TellCli client (EnvironmentChanged i) # switch_tasks user i previous)))"

definition rpc_list_workload_intercepts ::
    "uuid \<Rightarrow> uuid \<Rightarrow> core_state \<Rightarrow> string + (workload_intercept \<times> environment_workload \<times> string) list" where
  "rpc_list_workload_intercepts user env st =
     and_then (ok_or ''Session not found'' (get_active_devbox_session (co_db st) user)) (\<lambda>session.
     let intercepts = get_active_intercepts_for_environment (co_db st) env
     in if list_all (\<lambda>i. get_environment_workload (co_db st) (ic_workload_id i) \<noteq> None) intercepts
        then Ok (map (\<lambda>i. (i, the (get_environment_workload (co_db st) (ic_workload_id i)), ss_device_name session)) intercepts)
        else Err ''Workload not found'')"

section \<open>Tunnels\<close>

definition tunnel_session ::
    "(string \<Rightarrow> string) \<Rightarrow> int \<Rightarrow> uuid \<Rightarrow> string option \<Rightarrow> core_state \<Rightarrow> devbox_error + devbox_session \<times> core_state" where
  "tunnel_session hash now requested_user header st =
     and_then (bearer_token header) (\<lambda>token.
     and_then (ok_or Unauthenticated (get_devbox_session_by_token_hash hash (co_db st) token)) (\<lambda>session.
     if ss_user_id session \<noteq> requested_user then Err Unauthenticated
     else Ok (session, st\<lparr>co_db := update_devbox_session_last_used now (ss_user_id session) (co_db st)\<rparr>)))"

text \<open>The user whose intercepted connections the CLI will get.\<close>

definition devbox_intercept_tunnel_websocket ::
    "(string \<Rightarrow> string) \<Rightarrow> int \<Rightarrow> uuid \<Rightarrow> string option \<Rightarrow> core_state \<Rightarrow> devbox_error + uuid \<times> core_state" where
  "devbox_intercept_tunnel_websocket hash now requested_user header st =
     and_then (tunnel_session hash now requested_user header st) (\<lambda>(session, st'). Ok (ss_user_id session, st'))"

text \<open>The cluster in which the CLI may open connections.\<close>

definition devbox_client_tunnel_websocket ::
    "(string \<Rightarrow> string) \<Rightarrow> int \<Rightarrow> uuid \<Rightarrow> string option \<Rightarrow> core_state \<Rightarrow> devbox_error + uuid option \<times> core_state" where
  "devbox_client_tunnel_websocket hash now requested_user header st =
     and_then (tunnel_session hash now requested_user header st) (\<lambda>(session, st').
     Ok (map_option env_cluster_id (Option.bind (ss_active_environment session) (dv_get_environment (co_db st'))), st'))"

definition client_tunnel_target :: "('c \<Rightarrow> bool) \<Rightarrow> 'c tunnel_registry \<Rightarrow> uuid option \<Rightarrow> string + 'c" where
  "client_tunnel_target is_closed registry cluster =
     (case cluster of
        None \<Rightarrow> Err ''active environment is not set''
      | Some i \<Rightarrow>
          (case get_client is_closed registry i of
             Some c \<Rightarrow> if is_closed c then Err ''cluster tunnel is closed'' else Ok c
           | None \<Rightarrow> Err ''cluster tunnel unavailable''))"

definition environment_of_token :: "devbox_db \<Rightarrow> uuid \<Rightarrow> string option \<Rightarrow> devbox_error + devbox_environment" where
  "environment_of_token db i header =
     and_then (ok_or Unauthenticated header) (\<lambda>token.
     and_then (ok_or Unauthenticated (dv_get_environment db i)) (\<lambda>env.
     if token \<noteq> env_auth_token env then Err Unauthenticated else Ok env))"

text \<open>A sidecar that opens the tunnel of a devbox is attached to the newest open CLI tunnel of the owner.\<close>

definition sidecar_tunnel_websocket ::
    "('c \<Rightarrow> bool) \<Rightarrow> 'c devbox_tunnels \<Rightarrow> uuid \<Rightarrow> string option \<Rightarrow> devbox_db \<Rightarrow> devbox_error + 'c" where
  "sidecar_tunnel_websocket is_closed tunnels i header db =
     and_then (environment_of_token db i header) (\<lambda>env.
     ok_or (DevboxError ''no active CLI tunnel'') (cli_for_sidecar is_closed tunnels (env_user_id env)))"

definition devbox_proxy_tunnel_websocket ::
    "('c \<Rightarrow> bool) \<Rightarrow> 'c tunnel_registry \<Rightarrow> uuid \<Rightarrow> string option \<Rightarrow> devbox_db \<Rightarrow> devbox_error + 'c option" where
  "devbox_proxy_tunnel_websocket is_closed registry i header db =
     and_then (environment_of_token db i header) (\<lambda>env.
     Ok (case get_client is_closed registry (env_cluster_id env) of
           Some c \<Rightarrow> if is_closed c then None else Some c
         | None \<Rightarrow> None))"

section \<open>The dashboard\<close>

definition ensure_environment_access :: "devbox_db \<Rightarrow> uuid \<Rightarrow> devbox_environment \<Rightarrow> string + unit" where
  "ensure_environment_access db user env =
     (if env_user_id env = user then Ok ()
      else if env_is_shared env
      then (if list_ex (\<lambda>m. mem_user_id m = user \<and> mem_organization_id m = env_organization_id env \<and> live (mem_deleted_at m))
              (dv_members db) then Ok () else Err ''Unauthorized'')
      else Err ''Unauthorized'')"

text \<open>\<open>cookie_user\<close> is the user the browser's cookie authenticates.\<close>

definition hrpc_resolve_active_devbox_session ::
    "(string \<Rightarrow> cli_claims option) \<Rightarrow> (string \<Rightarrow> string) \<Rightarrow> int \<Rightarrow> string option \<Rightarrow> uuid option \<Rightarrow> core_state
     \<Rightarrow> string + (uuid \<times> devbox_session) \<times> core_state" where
  "hrpc_resolve_active_devbox_session decrypt hash now header cookie_user st =
     (let used = (\<lambda>user session. ((user, session), st\<lparr>co_db := update_devbox_session_last_used now (ss_user_id session) (co_db st)\<rparr>))
      in case bearer_token header of
           Inr token \<Rightarrow>
             (case authenticate_bearer decrypt (co_db st) token of
                Inl _ \<Rightarrow> Err ''Unauthenticated''
              | Inr ctx \<Rightarrow>
                  and_then (ok_or ''Active session not found'' (get_devbox_session_by_token_hash hash (co_db st) token)) (\<lambda>session.
                  Ok (used (cx_user ctx) session)))
         | Inl _ \<Rightarrow>
             and_then (ok_or ''Unauthenticated'' cookie_user) (\<lambda>user.
             and_then (ok_or ''No active devbox session'' (get_active_devbox_session (co_db st) user)) (\<lambda>session.
             Ok (used user session))))"

definition devbox_session_get_active_environment :: "devbox_session \<Rightarrow> core_state \<Rightarrow> string + devbox_environment option" where
  "devbox_session_get_active_environment session st =
     (case Option.bind (ss_active_environment session) (dv_get_environment (co_db st)) of
        None \<Rightarrow> Ok None
      | Some env \<Rightarrow> if env_cluster_id env \<notin> set (dv_clusters (co_db st)) then Err ''Cluster not found'' else Ok (Some env))"

definition devbox_session_set_active_environment ::
    "uuid \<times> devbox_session \<Rightarrow> uuid \<Rightarrow> core_state \<Rightarrow> (string + unit) \<times> core_state \<times> devbox_task list" where
  "devbox_session_set_active_environment = (\<lambda>(user, session) i st.
     case dv_get_environment (co_db st) i of
       None \<Rightarrow> (Err ''Environment not found'', st, [])
     | Some env \<Rightarrow>
         if env_is_shared env then (Err ''Shared environments cannot be used as active devbox environments'', st, [])
         else
           (case ensure_environment_access (co_db st) user env of
              Inl e \<Rightarrow> (Err e, st, [])
            | Inr _ \<Rightarrow>
                (let st' = st\<lparr>co_db := update_devbox_session_active_environment (Some i) (ss_user_id session) (co_db st)\<rparr>;
                     notice = (case active_handles st user of
                         [] \<Rightarrow> [] | entries \<Rightarrow> [TellCli (sh_client (snd (last entries))) (EnvironmentChanged i)])
                 in if env_cluster_id env \<notin> set (dv_clusters (co_db st)) then (Err ''Cluster not found'', st', [])
                    else (Ok (), st', notice @ switch_tasks user i (ss_active_environment session)))))"

definition devbox_session_revoke_session ::
    "int \<Rightarrow> uuid \<Rightarrow> uuid \<Rightarrow> core_state \<Rightarrow> (string + unit) \<times> core_state \<times> devbox_task list" where
  "devbox_session_revoke_session now user session_id st =
     (case get_devbox_session_by_id (co_db st) session_id of
        None \<Rightarrow> (Err ''Session not found'', st, [])
      | Some session \<Rightarrow>
          if ss_user_id session \<noteq> user then (Err ''Unauthorized'', st, [])
          else if ss_revoked_at session \<noteq> None then (Ok (), st, [])
          else
            (let st' = st\<lparr>co_db := revoke_devbox_session_by_id now session_id (co_db st)\<rparr>
             in case find (\<lambda>(_, h). sh_session_id h = session_id) (active_handles st' user) of
                  None \<Rightarrow> (Ok (), st', [])
                | Some (connection_id, h) \<Rightarrow>
                    (Ok (), remove_handle user connection_id st',
                     [TellCli (sh_client h) (SessionDisplaced ''Session revoked by dashboard'')])))"

definition devbox_intercept_list ::
    "uuid option \<Rightarrow> uuid \<Rightarrow> core_state \<Rightarrow> string + (workload_intercept \<times> environment_workload) list" where
  "devbox_intercept_list cookie_user i st =
     and_then (ok_or ''Environment not found'' (dv_get_environment (co_db st) i)) (\<lambda>env.
     and_then (ok_or ''Unauthenticated'' cookie_user) (\<lambda>user.
     if \<not> list_ex (\<lambda>m. mem_user_id m = user \<and> mem_organization_id m = env_organization_id env \<and> live (mem_deleted_at m))
           (dv_members (co_db st)) then Err ''Unauthorized''
     else
       and_then (ensure_environment_access (co_db st) user env) (\<lambda>_.
       let intercepts = list_workload_intercepts_for_environment (co_db st) i
       in if list_all (\<lambda>r. get_environment_workload (co_db st) (ic_workload_id r) \<noteq> None) intercepts
          then Ok (map (\<lambda>r. (r, the (get_environment_workload (co_db st) (ic_workload_id r)))) intercepts)
          else Err ''Workload not found'')))"

text \<open>An override names a port of the workload and, unless it is the same, the port on the developer's machine.\<close>

definition actual_mapping :: "u16 \<times> u16 option \<Rightarrow> port_mapping" where
  "actual_mapping = (\<lambda>(workload_port, local_port).
     \<lparr>pm_workload_port = workload_port, pm_local_port = entry_or workload_port local_port, pm_protocol = ''TCP''\<rparr>)"

definition devbox_intercept_start ::
    "uuid \<Rightarrow> int \<Rightarrow> uuid \<Rightarrow> uuid \<Rightarrow> (u16 \<times> u16 option) list \<Rightarrow> core_state \<Rightarrow> string + uuid \<times> core_state \<times> devbox_task list" where
  "devbox_intercept_start new_id now user workload_id overrides st =
     and_then (ok_or ''Workload not found'' (get_environment_workload (co_db st) workload_id)) (\<lambda>workload.
     and_then (ok_or ''Environment not found'' (dv_get_environment (co_db st) (wl_environment_id workload))) (\<lambda>env.
     if env_is_shared env then Err ''Shared environments cannot start Devbox intercepts''
     else
       and_then (ensure_environment_access (co_db st) user env) (\<lambda>_.
       let (intercept, db) = create_workload_intercept new_id now user (env_id env) workload_id (map actual_mapping overrides) (co_db st)
       in Ok (ic_id intercept, st\<lparr>co_db := db\<rparr>,
              if co_active st user \<noteq> None then [PushInterceptRoute env intercept] else []))))"

definition devbox_intercept_stop ::
    "int \<Rightarrow> uuid \<Rightarrow> uuid \<Rightarrow> core_state \<Rightarrow> string + core_state \<times> devbox_task list" where
  "devbox_intercept_stop now user intercept_id st =
     and_then (ok_or ''Intercept not found'' (get_workload_intercept (co_db st) intercept_id)) (\<lambda>intercept.
     if ic_user_id intercept \<noteq> user then Err ''Unauthorized''
     else
       (let st' = st\<lparr>co_db := db_stop_workload_intercept now intercept_id (co_db st)\<rparr>
        in Ok (st',
             if co_active st user = None then []
             else case dv_get_environment (co_db st') (ic_environment_id intercept) of
                    Some env \<Rightarrow> [ClearInterceptRoute env intercept] | None \<Rightarrow> [])))"

text \<open>The same operation offered over the CLI's RPC.\<close>

definition rpc_start_workload_intercept ::
    "uuid \<Rightarrow> int \<Rightarrow> uuid \<Rightarrow> uuid \<Rightarrow> (u16 \<times> u16 option) list \<Rightarrow> core_state \<Rightarrow> string + uuid \<times> core_state \<times> devbox_task list" where
  "rpc_start_workload_intercept new_id now user workload_id overrides st =
     and_then (ok_or ''Workload not found'' (get_environment_workload (co_db st) workload_id)) (\<lambda>workload.
     and_then (ok_or ''Environment not found'' (dv_get_environment (co_db st) (wl_environment_id workload))) (\<lambda>env.
     if env_is_shared env then Err ''Shared environments cannot start Devbox intercepts''
     else if env_user_id env \<noteq> user then Err ''Unauthorized: You don't have access to this environment''
     else
       (let (intercept, db) = create_workload_intercept new_id now user (env_id env) workload_id (map actual_mapping overrides) (co_db st)
        in Ok (ic_id intercept, st\<lparr>co_db := db\<rparr>,
               if co_active st user \<noteq> None then [PushInterceptRoute env intercept] else []))))"

lemma intercept_start_same:
  "devbox_intercept_start new_id now user w overrides st = Ok r \<longleftrightarrow> rpc_start_workload_intercept new_id now user w overrides st = Ok r"
proof (cases "get_environment_workload (co_db st) w")
  case (Some workload)
  show ?thesis
  proof (cases "dv_get_environment (co_db st) (wl_environment_id workload)")
    case (Some env)
    with \<open>get_environment_workload (co_db st) w = Some workload\<close> show ?thesis
      by (simp add: devbox_intercept_start_def rpc_start_workload_intercept_def ensure_environment_access_def)
  qed (simp add: devbox_intercept_start_def rpc_start_workload_intercept_def Some)
qed (simp add: devbox_intercept_start_def rpc_start_workload_intercept_def)

section \<open>Well-formed tables\<close>

text \<open>
  One session row for each user; at most one active intercept of a user for a workload; an intercept belongs to
  the owner of the environment of its workload, which is not shared.
\<close>

definition sessions_wf :: "devbox_db \<Rightarrow> bool" where
  "sessions_wf db \<longleftrightarrow> distinct (map ss_id (dv_sessions db)) \<and> distinct (map ss_user_id (dv_sessions db))"

definition intercept_owned :: "devbox_db \<Rightarrow> workload_intercept \<Rightarrow> bool" where
  "intercept_owned db i \<longleftrightarrow>
     (\<exists>w \<in> set (dv_workloads db). wl_id w = ic_workload_id i \<and> wl_environment_id w = ic_environment_id i)
     \<and> (\<exists>e \<in> set (dv_environments db). env_id e = ic_environment_id i \<and> env_user_id e = ic_user_id i \<and> \<not> env_is_shared e)"

definition active_key :: "workload_intercept \<Rightarrow> uuid \<times> uuid" where
  "active_key i = (ic_user_id i, ic_workload_id i)"

definition intercepts_wf :: "devbox_db \<Rightarrow> bool" where
  "intercepts_wf db \<longleftrightarrow> distinct (map ic_id (dv_intercepts db))
     \<and> distinct (map active_key (filter (\<lambda>i. ic_stopped_at i = None) (dv_intercepts db)))
     \<and> list_all (intercept_owned db) (dv_intercepts db)"

definition devbox_wf :: "devbox_db \<Rightarrow> bool" where
  "devbox_wf db \<longleftrightarrow> sessions_wf db \<and> intercepts_wf db"

definition keeps_owner :: "(devbox_session \<Rightarrow> devbox_session) \<Rightarrow> bool" where
  "keeps_owner f \<longleftrightarrow> (\<forall>s. ss_id (f s) = ss_id s \<and> ss_user_id (f s) = ss_user_id s)"

named_theorems devbox_frames \<open>which tables an operation leaves alone\<close>

lemma update_session_frames [devbox_frames]:
  "dv_intercepts (update_session f i db) = dv_intercepts db" "dv_environments (update_session f i db) = dv_environments db"
  "dv_workloads (update_session f i db) = dv_workloads db" "dv_clusters (update_session f i db) = dv_clusters db"
  "dv_users (update_session f i db) = dv_users db" "dv_members (update_session f i db) = dv_members db"
  by (simp_all add: update_session_def)

lemma update_active_session_frames [devbox_frames]:
  "dv_intercepts (update_active_session f u db) = dv_intercepts db" "dv_environments (update_active_session f u db) = dv_environments db"
  "dv_workloads (update_active_session f u db) = dv_workloads db" "dv_clusters (update_active_session f u db) = dv_clusters db"
  "dv_users (update_active_session f u db) = dv_users db" "dv_members (update_active_session f u db) = dv_members db"
  by (simp_all add: update_active_session_def devbox_frames split: option.splits)

lemma create_or_update_frames [devbox_frames]:
  "dv_intercepts (create_or_update_devbox_session hash n now u t d e db) = dv_intercepts db"
  "dv_environments (create_or_update_devbox_session hash n now u t d e db) = dv_environments db"
  "dv_workloads (create_or_update_devbox_session hash n now u t d e db) = dv_workloads db"
  by (simp_all add: create_or_update_devbox_session_def devbox_frames split: option.splits)

lemma intercepts_wf_cong:
  "dv_intercepts db' = dv_intercepts db \<Longrightarrow> dv_environments db' = dv_environments db \<Longrightarrow> dv_workloads db' = dv_workloads db
    \<Longrightarrow> intercepts_wf db' = intercepts_wf db"
  by (simp add: intercepts_wf_def intercept_owned_def [abs_def])

lemma sessions_wf_update: "keeps_owner f \<Longrightarrow> sessions_wf db \<Longrightarrow> sessions_wf (update_session f i db)"
  by (auto simp: sessions_wf_def update_session_def keeps_owner_def comp_def if_distrib [of ss_id] if_distrib [of ss_user_id] cong: if_cong)

lemma devbox_wf_update_active: "keeps_owner f \<Longrightarrow> devbox_wf db \<Longrightarrow> devbox_wf (update_active_session f u db)"
  by (auto simp: devbox_wf_def update_active_session_def sessions_wf_update intercepts_wf_cong [of "update_session f i db" db for i]
      devbox_frames split: option.splits)

lemma keeps_owner_updates [simp]:
  "keeps_owner (\<lambda>s. s\<lparr>ss_revoked_at := r\<rparr>)" "keeps_owner (\<lambda>s. s\<lparr>ss_last_used_at := t\<rparr>)"
  "keeps_owner (\<lambda>s. s\<lparr>ss_device_name := d\<rparr>)" "keeps_owner (\<lambda>s. s\<lparr>ss_active_environment := e\<rparr>)"
  "keeps_owner (\<lambda>s. s\<lparr>ss_token_hash := h, ss_token_prefix := p, ss_device_name := d, ss_expires_at := x, ss_last_used_at := t,
     ss_revoked_at := r\<rparr>)"
  by (simp_all add: keeps_owner_def)

lemma sort_key_Nil [simp]: "sort_key f xs = [] \<longleftrightarrow> xs = []"
  by (metis length_0_conv length_sort)

lemma user_session_None: "user_session db u = None \<longleftrightarrow> u \<notin> ss_user_id ` set (dv_sessions db)"
  by (auto simp: user_session_def Let_def filter_empty_conv)

lemma user_session_Some:
  assumes "user_session db u = Some s"
  shows "s \<in> set (dv_sessions db)" and "ss_user_id s = u"
proof -
  let ?rows = "sort_key ss_created_at (filter (\<lambda>s. ss_user_id s = u) (dv_sessions db))"
  have "?rows \<noteq> []" "s = last ?rows" using assms by (auto simp: user_session_def Let_def split: if_splits)
  moreover from this(1) have "last ?rows \<in> set ?rows" by (rule last_in_set)
  ultimately show "s \<in> set (dv_sessions db)" "ss_user_id s = u" by auto
qed

lemma devbox_wf_login:
  assumes "devbox_wf db" and "new_id \<notin> ss_id ` set (dv_sessions db)"
  shows "devbox_wf (create_or_update_devbox_session hash new_id now u token device expires db)"
proof -
  have "sessions_wf (create_or_update_devbox_session hash new_id now u token device expires db)"
  proof (cases "user_session db u")
    case None
    then have "u \<notin> ss_user_id ` set (dv_sessions db)" by (simp add: user_session_None)
    with assms None show ?thesis
      by (simp add: create_or_update_devbox_session_def sessions_wf_def devbox_wf_def)
  next
    case (Some s)
    with assms show ?thesis
      by (simp add: create_or_update_devbox_session_def sessions_wf_update devbox_wf_def)
  qed
  with assms(1) show ?thesis
    by (simp add: devbox_wf_def intercepts_wf_cong [of "create_or_update_devbox_session hash new_id now u token device expires db" db] devbox_frames)
qed

lemma devbox_wf_revoke: "devbox_wf db \<Longrightarrow> devbox_wf (revoke_devbox_session_by_id now i db)"
  by (auto simp: devbox_wf_def revoke_devbox_session_by_id_def sessions_wf_update
      intercepts_wf_cong [of "update_session f i db" db for f i] devbox_frames split: option.splits)

text \<open>Rows of intercepts.\<close>

abbreviation running :: "workload_intercept \<Rightarrow> bool" where
  "running i \<equiv> ic_stopped_at i = None"

lemma replace_by_id:
  assumes "distinct (map ic_id xs)" and "model \<in> set xs"
  obtains ys zs where "xs = ys @ model # zs"
    and "map (\<lambda>i. if ic_id i = ic_id model then row else i) xs = ys @ row # zs"
proof -
  from assms(2) obtain ys zs where xs: "xs = ys @ model # zs" by (auto dest: split_list)
  with assms(1) have "\<forall>i \<in> set ys \<union> set zs. ic_id i \<noteq> ic_id model" by auto (metis image_eqI)+
  then have "map (\<lambda>i. if ic_id i = ic_id model then row else i) ys = ys" "map (\<lambda>i. if ic_id i = ic_id model then row else i) zs = zs"
    by (simp_all add: map_idI)
  with xs show ?thesis by (intro that [of ys zs]) simp_all
qed

lemma intercepts_wf_list: "intercepts_wf (db\<lparr>dv_intercepts := xs\<rparr>) \<longleftrightarrow>
    distinct (map ic_id xs) \<and> distinct (map active_key (filter running xs)) \<and> list_all (intercept_owned db) xs"
  by (simp add: intercepts_wf_def intercept_owned_def [abs_def])

lemma intercepts_wf_reuse:
  assumes wf: "intercepts_wf db" and model: "model \<in> set (dv_intercepts db)"
    and row: "ic_id row = ic_id model" "active_key row = active_key model" "intercept_owned db row"
    and new: "\<forall>i \<in> set (dv_intercepts db). running i \<longrightarrow> active_key i = active_key model \<longrightarrow> i = model"
  shows "intercepts_wf (db\<lparr>dv_intercepts := map (\<lambda>i. if ic_id i = ic_id model then row else i) (dv_intercepts db)\<rparr>)"
proof -
  from wf model obtain ys zs where xs: "dv_intercepts db = ys @ model # zs"
    and upd: "map (\<lambda>i. if ic_id i = ic_id model then row else i) (dv_intercepts db) = ys @ row # zs"
    unfolding intercepts_wf_def by (blast elim: replace_by_id)
  have "\<forall>i \<in> set ys \<union> set zs. running i \<longrightarrow> active_key i \<noteq> active_key row"
  proof (intro ballI impI notI)
    fix i assume i: "i \<in> set ys \<union> set zs" "running i" "active_key i = active_key row"
    with new row(2) xs have "i = model" by auto
    with i(1) wf xs show False by (auto simp: intercepts_wf_def)
  qed
  then have "active_key row \<notin> active_key ` set (filter running ys)" "active_key row \<notin> active_key ` set (filter running zs)"
    by force+
  moreover have "distinct (map ic_id (ys @ model # zs))" "distinct (map active_key (filter running (ys @ model # zs)))"
    "list_all (intercept_owned db) (ys @ model # zs)"
    using wf by (simp_all only: intercepts_wf_def xs)
  ultimately show ?thesis
    unfolding upd intercepts_wf_list using row(1,3) by (auto split: if_splits)
qed

lemma create_workload_intercept_wf:
  assumes wf: "intercepts_wf db" and fresh: "new_id \<notin> ic_id ` set (dv_intercepts db)"
    and w: "w \<in> set (dv_workloads db)" "wl_id w = workload" "wl_environment_id w = env"
    and e: "e \<in> set (dv_environments db)" "env_id e = env" "env_user_id e = user" "\<not> env_is_shared e"
    and run: "create_workload_intercept new_id now user env workload mappings db = (row, db')"
  shows "intercepts_wf db' \<and> running row \<and> ic_user_id row = user \<and> ic_workload_id row = workload
    \<and> ic_environment_id row = env \<and> ic_port_mappings row = mappings \<and> dv_sessions db' = dv_sessions db"
proof -
  let ?mine = "filter (\<lambda>i. ic_user_id i = user \<and> ic_workload_id i = workload) (dv_intercepts db)"
  let ?stopped = "sort_key (\<lambda>i. the (ic_stopped_at i)) (filter (\<lambda>i. ic_stopped_at i \<noteq> None) ?mine)"
  let ?row = "\<lambda>model. model\<lparr>ic_environment_id := env, ic_port_mappings := mappings, ic_stopped_at := None\<rparr>"
  have owned: "intercept_owned db r" if "ic_user_id r = user" "ic_workload_id r = workload" "ic_environment_id r = env" for r
    using that w e unfolding intercept_owned_def by blast
  have distinct_keys: "distinct (map active_key (filter running (dv_intercepts db)))" using wf by (simp add: intercepts_wf_def)
  have reuse: "intercepts_wf (db\<lparr>dv_intercepts := map (\<lambda>i. if ic_id i = ic_id model then ?row model else i) (dv_intercepts db)\<rparr>)"
    if "model \<in> set ?mine" "\<forall>i \<in> set ?mine. running i \<longrightarrow> i = model" for model
    using that by (intro intercepts_wf_reuse [OF wf]) (auto simp: active_key_def owned)
  show ?thesis
  proof (cases "find running ?mine")
    case (Some model)
    then have model: "model \<in> set ?mine" "running model" using nth_mem by (fastforce simp: find_Some_iff)+
    have "i = model" if "i \<in> set ?mine" "running i" for i
    proof -
      have "active_key i = active_key model" "i \<in> set (filter running (dv_intercepts db))" "model \<in> set (filter running (dv_intercepts db))"
        using that model by (auto simp: active_key_def)
      with distinct_keys show ?thesis by (auto simp: distinct_map dest: inj_onD)
    qed
    with reuse [of model] model(1) Some run show ?thesis by (auto simp: create_workload_intercept_def Let_def)
  next
    case None
    then have none: "\<forall>i \<in> set ?mine. \<not> running i" by (simp add: find_None_iff)
    show ?thesis
    proof (cases "?stopped = []")
      case True
      let ?new = "\<lparr>ic_id = new_id, ic_user_id = user, ic_environment_id = env, ic_workload_id = workload,
        ic_port_mappings = mappings, ic_created_at = now, ic_stopped_at = None\<rparr>"
      from True None run have eq: "row = ?new" "db' = db\<lparr>dv_intercepts := dv_intercepts db @ [?new]\<rparr>"
        by (auto simp: create_workload_intercept_def Let_def)
      have "active_key ?new \<notin> active_key ` set (filter running (dv_intercepts db))"
        using none by (auto simp: active_key_def)
      with wf fresh owned [of ?new] have "intercepts_wf db'"
        unfolding eq intercepts_wf_list by (simp add: intercepts_wf_def)
      then show ?thesis by (simp add: eq)
    next
      case False
      then have "last ?stopped \<in> set ?stopped" by (rule last_in_set)
      then obtain model where model: "model = last ?stopped" "model \<in> set ?mine" by auto
      have "row = ?row model"
        "db' = db\<lparr>dv_intercepts := map (\<lambda>i. if ic_id i = ic_id model then ?row model else i) (dv_intercepts db)\<rparr>"
        using run False None unfolding create_workload_intercept_def Let_def model(1) by simp_all
      with reuse [OF model(2)] none model(2) show ?thesis by simp
    qed
  qed
qed

lemma stop_workload_intercept_wf:
  assumes wf: "intercepts_wf db"
  shows "intercepts_wf (db_stop_workload_intercept now i db)"
proof -
  let ?stop = "\<lambda>r. if ic_id r = i then r\<lparr>ic_stopped_at := Some now\<rparr> else r"
  have "map active_key (filter running (map ?stop xs)) = map active_key (filter (\<lambda>r. running r \<and> ic_id r \<noteq> i) xs)"
    and "map ic_id (map ?stop xs) = map ic_id xs"
    and "list_all (intercept_owned db) (map ?stop xs) = list_all (intercept_owned db) xs" for xs
    by (induction xs) (auto simp: intercept_owned_def)
  moreover have "distinct (map active_key (filter (\<lambda>r. running r \<and> ic_id r \<noteq> i) (dv_intercepts db)))"
    using wf distinct_map_filter [of active_key "filter running (dv_intercepts db)" "\<lambda>r. ic_id r \<noteq> i"]
    by (simp add: intercepts_wf_def conj_commute)
  ultimately show ?thesis
    using wf unfolding db_stop_workload_intercept_def intercepts_wf_list by (simp only: intercepts_wf_def)
qed

section \<open>Histories\<close>

inductive devbox_step ::
    "(string \<Rightarrow> cli_claims option) \<Rightarrow> (string \<Rightarrow> string) \<Rightarrow> core_state \<Rightarrow> core_state \<Rightarrow> bool" for decrypt hash where
  token_made: "devbox_step decrypt hash st (generate_cli_token encrypt now user organization session device st)"
| token_polled: "devbox_step decrypt hash st (snd (cli_token_poll now session st))"
| logged_in: "devbox_rpc_websocket decrypt hash new_id now header st = Ok (ctx, st', tasks)
    \<Longrightarrow> new_id \<notin> ss_id ` set (dv_sessions (co_db st)) \<Longrightarrow> devbox_step decrypt hash st st'"
| started: "devbox_step decrypt hash st (devbox_rpc_started ctx c client st)"
| ended: "devbox_rpc_ended now user c st = (st', tasks) \<Longrightarrow> devbox_step decrypt hash st st'"
| renamed: "devbox_step decrypt hash st (update_device_name user session device st)"
| switched: "rpc_set_active_environment user client i st = (res, st', tasks) \<Longrightarrow> devbox_step decrypt hash st st'"
| resolved: "hrpc_resolve_active_devbox_session decrypt hash now header cookie st = Ok (us, st') \<Longrightarrow> devbox_step decrypt hash st st'"
| switched_by_dashboard: "devbox_session_set_active_environment us i st = (res, st', tasks) \<Longrightarrow> devbox_step decrypt hash st st'"
| revoked: "devbox_session_revoke_session now user session_id st = (res, st', tasks) \<Longrightarrow> devbox_step decrypt hash st st'"
| tunnel: "tunnel_session hash now user header st = Ok (session, st') \<Longrightarrow> devbox_step decrypt hash st st'"
| intercepted: "devbox_intercept_start new_id now user w overrides st = Ok (i, st', tasks)
    \<Longrightarrow> new_id \<notin> ic_id ` set (dv_intercepts (co_db st)) \<Longrightarrow> devbox_step decrypt hash st st'"
| released: "devbox_intercept_stop now user i st = Ok (st', tasks) \<Longrightarrow> devbox_step decrypt hash st st'"

inductive_cases devbox_stepE: "devbox_step decrypt hash st st'"

lemma dv_get_environment_in:
  "dv_get_environment db i = Some e \<Longrightarrow> e \<in> set (dv_environments db) \<and> env_id e = i"
  using nth_mem by (fastforce simp: dv_get_environment_def find_Some_iff)

lemma get_environment_workload_in:
  "get_environment_workload db i = Some w \<Longrightarrow> w \<in> set (dv_workloads db) \<and> wl_id w = i"
  using nth_mem by (fastforce simp: get_environment_workload_def find_Some_iff)

lemma co_db_remove_handle [simp]: "co_db (remove_handle u c st) = co_db st"
  by (simp add: remove_handle_def Let_def split: option.splits)

lemma intercept_start_effect:
  assumes wf: "intercepts_wf (co_db st)" and fresh: "new_id \<notin> ic_id ` set (dv_intercepts (co_db st))"
    and run: "devbox_intercept_start new_id now user workload overrides st = Ok (i, st', tasks)"
  obtains w env row db where "get_environment_workload (co_db st) workload = Some w"
    and "dv_get_environment (co_db st) (wl_environment_id w) = Some env" and "env_user_id env = user" and "\<not> env_is_shared env"
    and "create_workload_intercept new_id now user (env_id env) workload (map actual_mapping overrides) (co_db st) = (row, db)"
    and "i = ic_id row" and "st' = st\<lparr>co_db := db\<rparr>"
    and "tasks = (if co_active st user \<noteq> None then [PushInterceptRoute env row] else [])"
    and "intercepts_wf db" and "running row" and "ic_user_id row = user" and "ic_workload_id row = workload"
    and "ic_environment_id row = env_id env" and "ic_port_mappings row = map actual_mapping overrides"
    and "dv_sessions db = dv_sessions (co_db st)"
proof -
  from run obtain w env where w: "get_environment_workload (co_db st) workload = Some w"
    and env: "dv_get_environment (co_db st) (wl_environment_id w) = Some env"
    by (auto simp: devbox_intercept_start_def and_then_eq_Ok ok_or_eq_Ok split: if_splits)
  with run have owner: "env_user_id env = user" "\<not> env_is_shared env"
    by (auto simp: devbox_intercept_start_def ensure_environment_access_def split: if_splits)
  obtain row db where c: "create_workload_intercept new_id now user (env_id env) workload (map actual_mapping overrides) (co_db st) = (row, db)"
    by force
  with run w env owner have eq: "i = ic_id row" "st' = st\<lparr>co_db := db\<rparr>"
    "tasks = (if co_active st user \<noteq> None then [PushInterceptRoute env row] else [])"
    by (auto simp: devbox_intercept_start_def ensure_environment_access_def)
  have "env_id env = wl_environment_id w" using dv_get_environment_in [OF env] by simp
  then have row: "intercepts_wf db \<and> running row \<and> ic_user_id row = user \<and> ic_workload_id row = workload
      \<and> ic_environment_id row = env_id env \<and> ic_port_mappings row = map actual_mapping overrides
      \<and> dv_sessions db = dv_sessions (co_db st)"
    using get_environment_workload_in [OF w] dv_get_environment_in [OF env] owner
    by (intro create_workload_intercept_wf [OF wf fresh _ _ _ _ _ _ _ c, of w env]) simp_all
  show ?thesis by (rule that [OF w env owner c eq]) (use row in simp_all)
qed

lemma devbox_wf_step:
  assumes "devbox_step decrypt hash st st'" and wf: "devbox_wf (co_db st)"
  shows "devbox_wf (co_db st')"
  using assms(1)
proof cases
  case (logged_in new_id now header ctx tasks)
  then show ?thesis
    using devbox_wf_login [OF wf, of new_id] by (auto simp: devbox_rpc_websocket_def and_then_eq_Ok Let_def)
next
  case (intercepted new_id now user w overrides i tasks)
  from wf have "intercepts_wf (co_db st)" by (simp add: devbox_wf_def)
  then obtain db where "st' = st\<lparr>co_db := db\<rparr>" "intercepts_wf db" "dv_sessions db = dv_sessions (co_db st)"
    by (rule intercept_start_effect [OF _ intercepted(2,1)]) (rule that, assumption+)
  with wf show ?thesis by (simp add: devbox_wf_def sessions_wf_def)
next
  case (released now user i tasks)
  then have "co_db st' = db_stop_workload_intercept now i (co_db st)"
    by (auto simp: devbox_intercept_stop_def and_then_eq_Ok Let_def split: if_splits)
  with wf stop_workload_intercept_wf [of "co_db st" now i] show ?thesis
    by (simp add: devbox_wf_def sessions_wf_def db_stop_workload_intercept_def)
next
  case revoked
  with wf show ?thesis
    by (auto simp: devbox_session_revoke_session_def devbox_wf_revoke Let_def split: option.splits if_splits prod.splits)
next
  case switched
  with wf show ?thesis
    by (auto simp: rpc_set_active_environment_def update_devbox_session_active_environment_def devbox_wf_update_active Let_def
        split: option.splits if_splits)
next
  case switched_by_dashboard
  with wf show ?thesis
    by (auto simp: devbox_session_set_active_environment_def update_devbox_session_active_environment_def devbox_wf_update_active Let_def
        split: option.splits if_splits sum.splits prod.splits)
next
  case resolved
  with wf show ?thesis
    by (auto simp: hrpc_resolve_active_devbox_session_def update_devbox_session_last_used_def devbox_wf_update_active Let_def and_then_eq_Ok
        split: sum.splits)
qed (use wf in \<open>auto simp: generate_cli_token_def cli_token_poll_def cli_token_remove_def devbox_rpc_started_def devbox_rpc_ended_def
    update_device_name_def tunnel_session_def and_then_eq_Ok revoke_active_devbox_session_def update_devbox_session_device_name_def
    update_devbox_session_last_used_def devbox_wf_update_active Let_def split: option.splits if_splits\<close>)

text \<open>
  C8: In every history of logins, connections, tunnels, dashboard requests and intercepts each user has one
  session row, no workload is intercepted twice by a user at the same time, and an intercept belongs to the owner of
  the environment of its workload, which is not shared.
\<close>

theorem devbox_rows_well_formed:
  assumes "rtranclp (devbox_step decrypt hash) st st'" and "devbox_wf (co_db st)"
  shows "devbox_wf (co_db st')"
  using assms by (induction rule: rtranclp_induct) (auto intro: devbox_wf_step)

section \<open>Sessions of a user\<close>

text \<open>The header a CLI sends.\<close>

definition bearer :: "string \<Rightarrow> string" where
  "bearer token = ''Bearer '' @ token"

lemma bearer_token_bearer [simp]: "bearer_token (Some (bearer token)) = Ok token"
proof -
  have "starts_with (bearer token) ''Bearer ''" unfolding bearer_def by (rule starts_with_append)
  moreover have "drop 7 (bearer token) = token" by (simp add: bearer_def)
  ultimately show ?thesis by (simp add: bearer_token_def)
qed

lemma find_map_same: "(\<And>x. P (g x) = P x) \<Longrightarrow> find P (map g xs) = map_option g (find P xs)"
  by (induction xs) auto

lemma find_in: "find P xs = Some x \<Longrightarrow> x \<in> set xs \<and> P x"
  by (induction xs) (auto split: if_splits)

lemma session_row_unique:
  "sessions_wf db \<Longrightarrow> s \<in> set (dv_sessions db) \<Longrightarrow> s' \<in> set (dv_sessions db) \<Longrightarrow> ss_user_id s = ss_user_id s' \<or> ss_id s = ss_id s' \<Longrightarrow> s = s'"
  by (auto simp: sessions_wf_def distinct_map dest: inj_onD)

lemma login_rows:
  assumes "sessions_wf db" and "db' = create_or_update_devbox_session hash new_id now u token device expires db"
  shows "s \<in> set (dv_sessions db') \<Longrightarrow> ss_user_id s = u \<Longrightarrow> ss_token_hash s = hash token \<and> ss_revoked_at s = None"
    and "s \<in> set (dv_sessions db') \<Longrightarrow> ss_user_id s \<noteq> u \<Longrightarrow> s \<in> set (dv_sessions db)"
    and "\<exists>s \<in> set (dv_sessions db'). ss_user_id s = u"
proof -
  have *: "(s \<in> set (dv_sessions db') \<longrightarrow> ss_user_id s = u \<longrightarrow> ss_token_hash s = hash token \<and> ss_revoked_at s = None)
    \<and> (s \<in> set (dv_sessions db') \<longrightarrow> ss_user_id s \<noteq> u \<longrightarrow> s \<in> set (dv_sessions db))
    \<and> (\<exists>s \<in> set (dv_sessions db'). ss_user_id s = u)" for s
  proof (cases "user_session db u")
    case None
    then have "u \<notin> ss_user_id ` set (dv_sessions db)" by (simp add: user_session_None)
    with None show ?thesis by (auto simp: assms(2) create_or_update_devbox_session_def)
  next
    case (Some r)
    note r = user_session_Some [OF Some]
    let ?f = "\<lambda>s. s\<lparr>ss_token_hash := hash token, ss_token_prefix := take 12 token, ss_device_name := device,
        ss_expires_at := expires, ss_last_used_at := now, ss_revoked_at := None\<rparr>"
    have sessions: "dv_sessions db' = map (\<lambda>s. if ss_id s = ss_id r then ?f s else s) (dv_sessions db)"
      by (simp add: assms(2) create_or_update_devbox_session_def Some update_session_def)
    have same: "r' = r" if "r' \<in> set (dv_sessions db)" "ss_user_id r' = u \<or> ss_id r' = ss_id r" for r'
      using session_row_unique [OF assms(1) that(1) r(1)] that(2) r(2) by auto
    define x where "x = ?f r"
    have x: "x \<in> set (dv_sessions db')" "ss_user_id x = u" "ss_token_hash x = hash token" "ss_revoked_at x = None"
      using r by (force simp: sessions x_def)+
    moreover have "s = x \<or> s \<in> set (dv_sessions db) \<and> ss_user_id s \<noteq> u" if "s \<in> set (dv_sessions db')"
    proof -
      from that obtain s0 where "s0 \<in> set (dv_sessions db)" "s = (if ss_id s0 = ss_id r then ?f s0 else s0)"
        by (auto simp: sessions)
      with same [of s0] show ?thesis by (auto simp: x_def)
    qed
    ultimately show ?thesis by blast
  qed
  then show "s \<in> set (dv_sessions db') \<Longrightarrow> ss_user_id s = u \<Longrightarrow> ss_token_hash s = hash token \<and> ss_revoked_at s = None"
    and "s \<in> set (dv_sessions db') \<Longrightarrow> ss_user_id s \<noteq> u \<Longrightarrow> s \<in> set (dv_sessions db)"
    and "\<exists>s \<in> set (dv_sessions db'). ss_user_id s = u" by blast+
qed

text \<open>A tunnel for a user opens exactly with the token of the user's active session, if no other session has it.\<close>

lemma tunnel_session_iff:
  assumes "\<And>s. s \<in> set (dv_sessions (co_db st)) \<Longrightarrow> ss_token_hash s = hash token \<Longrightarrow> ss_revoked_at s = None \<Longrightarrow> ss_user_id s = u"
  shows "(\<exists>session st'. tunnel_session hash now u (Some (bearer token)) st = Ok (session, st'))
    \<longleftrightarrow> (\<exists>s \<in> set (dv_sessions (co_db st)). ss_user_id s = u \<and> ss_token_hash s = hash token \<and> ss_revoked_at s = None)"
proof (cases "get_devbox_session_by_token_hash hash (co_db st) token")
  case None
  then have "\<forall>s \<in> set (dv_sessions (co_db st)). \<not> (ss_token_hash s = hash token \<and> ss_revoked_at s = None)"
    by (auto simp: get_devbox_session_by_token_hash_def find_None_iff)
  with None show ?thesis by (auto simp: tunnel_session_def)
next
  case (Some s)
  then have "s \<in> set (dv_sessions (co_db st))" "ss_token_hash s = hash token" "ss_revoked_at s = None"
    by (auto simp: get_devbox_session_by_token_hash_def dest: find_in)
  with assms [of s] Some show ?thesis by (auto simp: tunnel_session_def)
qed

lemma tunnel_session_refused:
  assumes "\<And>s. s \<in> set (dv_sessions (co_db st)) \<Longrightarrow> ss_user_id s = u \<Longrightarrow> ss_token_hash s \<noteq> hash token \<or> ss_revoked_at s \<noteq> None"
  shows "tunnel_session hash now u (Some (bearer token)) st = Err Unauthenticated"
proof (cases "get_devbox_session_by_token_hash hash (co_db st) token")
  case None
  then show ?thesis by (simp add: tunnel_session_def)
next
  case (Some s)
  then have "s \<in> set (dv_sessions (co_db st))" "ss_token_hash s = hash token" "ss_revoked_at s = None"
    by (auto simp: get_devbox_session_by_token_hash_def dest: find_in)
  with assms [of s] Some show ?thesis by (auto simp: tunnel_session_def)
qed

lemma login_state:
  assumes "devbox_rpc_websocket decrypt hash new_id now (Some (bearer token)) st = Ok (ctx, st', tasks)"
  shows "\<exists>expires. co_db st' = create_or_update_devbox_session hash new_id now (cx_user ctx) token (cx_device_name ctx) expires (co_db st)"
    and "co_active st' = co_active st"
    and "tasks = map (\<lambda>(_, h). TellCli (sh_client h) (SessionDisplaced (cx_device_name ctx))) (active_handles st (cx_user ctx))"
  using assms by (auto simp: devbox_rpc_websocket_def and_then_eq_Ok Let_def)

text \<open>
  C9: One device at a time: after a login with a new token the CLIs that were connected are told so, the new token
  opens the user's tunnels, and an older token does not.
\<close>

theorem new_login_replaces_token:
  assumes "devbox_wf (co_db st)"
    and login: "devbox_rpc_websocket decrypt hash new_id now (Some (bearer token)) st = Ok (ctx, st', tasks)"
    and "hash old \<noteq> hash token"
    and "\<And>s. s \<in> set (dv_sessions (co_db st)) \<Longrightarrow> ss_token_hash s = hash token \<Longrightarrow> ss_user_id s = cx_user ctx"
  shows "tunnel_session hash later (cx_user ctx) (Some (bearer old)) st' = Err Unauthenticated
    \<and> (\<exists>session st''. tunnel_session hash later (cx_user ctx) (Some (bearer token)) st' = Ok (session, st''))
    \<and> (\<forall>(c, h) \<in> set (active_handles st (cx_user ctx)). TellCli (sh_client h) (SessionDisplaced (cx_device_name ctx)) \<in> set tasks)"
proof -
  obtain expires where db: "co_db st' = create_or_update_devbox_session hash new_id now (cx_user ctx) token (cx_device_name ctx) expires (co_db st)"
    using login_state(1) [OF login] by blast
  have wf: "sessions_wf (co_db st)" using assms(1) by (simp add: devbox_wf_def)
  note rows = login_rows [OF wf db]
  have "tunnel_session hash later (cx_user ctx) (Some (bearer old)) st' = Err Unauthenticated"
    using rows(1) assms(3) by (intro tunnel_session_refused) auto
  moreover have "\<exists>session st''. tunnel_session hash later (cx_user ctx) (Some (bearer token)) st' = Ok (session, st'')"
  proof (subst tunnel_session_iff)
    show "ss_user_id s = cx_user ctx" if "s \<in> set (dv_sessions (co_db st'))" "ss_token_hash s = hash token" for s
      using rows(2) [OF that(1)] assms(4) that(2) by blast
  qed (use rows(1,3) in blast)
  ultimately show ?thesis by (auto simp: login_state(3) [OF login] rev_image_eqI)
qed

text \<open>
  When the connection that was displaced ends, it revokes the session of the one that displaced it: the new
  connection stays in the table, but its token no longer opens a tunnel, and the routes of the environment that is
  active are cleared.
\<close>

theorem displaced_connection_revokes_new_session:
  assumes "devbox_wf (co_db st)" and fresh: "new_id \<notin> ss_id ` set (dv_sessions (co_db st))"
    and login: "devbox_rpc_websocket decrypt hash new_id now (Some (bearer token)) st = Ok (ctx, st1, tasks)"
    and st2: "st2 = devbox_rpc_started ctx c client st1" and other: "old_c \<noteq> c"
    and ended: "devbox_rpc_ended later (cx_user ctx) old_c st2 = (st3, tasks')"
  shows "(\<exists>h. (c, h) \<in> set (active_handles st3 (cx_user ctx)) \<and> sh_client h = client)
    \<and> tunnel_session hash later' (cx_user ctx) (Some (bearer token)) st3 = Err Unauthenticated
    \<and> tasks' = (case Option.bind (get_active_devbox_session (co_db st1) (cx_user ctx)) ss_active_environment of
          Some env \<Rightarrow> [ClearEnvironmentRoutes env] | None \<Rightarrow> [])"
proof -
  let ?u = "cx_user ctx" and ?revoke = "\<lambda>s. s\<lparr>ss_revoked_at := Some later\<rparr>"
  obtain expires where db: "co_db st1 = create_or_update_devbox_session hash new_id now ?u token (cx_device_name ctx) expires (co_db st)"
    using login_state(1) [OF login] by blast
  have wf: "sessions_wf (co_db st)" using assms(1) by (simp add: devbox_wf_def)
  note rows = login_rows [OF wf db]
  have wf1: "sessions_wf (co_db st1)" using devbox_wf_login [OF assms(1) fresh] by (simp add: db devbox_wf_def)
  have db3: "co_db st3 = revoke_active_devbox_session later ?u (co_db st1)"
    using ended by (auto simp: devbox_rpc_ended_def Let_def st2 devbox_rpc_started_def)
  obtain r where r: "get_active_devbox_session (co_db st1) ?u = Some r"
    using rows(1,3) by (cases "get_active_devbox_session (co_db st1) ?u") (auto simp: get_active_devbox_session_def find_None_iff)
  then have r': "r \<in> set (dv_sessions (co_db st1))" "ss_user_id r = ?u" by (auto simp: get_active_devbox_session_def dest: find_in)
  have sessions: "dv_sessions (co_db st3) = map (\<lambda>s. if ss_id s = ss_id r then ?revoke s else s) (dv_sessions (co_db st1))"
    by (simp add: db3 revoke_active_devbox_session_def update_active_session_def r update_session_def)
  have "ss_revoked_at s \<noteq> None" if "s \<in> set (dv_sessions (co_db st3))" "ss_user_id s = ?u" for s
  proof -
    from that(1) obtain s0 where s0: "s0 \<in> set (dv_sessions (co_db st1))" "s = (if ss_id s0 = ss_id r then ?revoke s0 else s0)"
      by (auto simp: sessions)
    then have "ss_user_id s0 = ?u" using that(2) by (auto split: if_splits)
    then have "s0 = r" using session_row_unique [OF wf1 s0(1) r'(1)] r'(2) by simp
    with s0 show ?thesis by simp
  qed
  then have "tunnel_session hash later' ?u (Some (bearer token)) st3 = Err Unauthenticated"
    by (intro tunnel_session_refused) auto
  moreover have "\<exists>h. (c, h) \<in> set (active_handles st3 ?u) \<and> sh_client h = client"
  proof -
    define h where "h = \<lparr>sh_session_id = cx_session_id ctx, sh_device_name = cx_device_name ctx, sh_client = client\<rparr>"
    define rest where "rest = btree_remove old_c (btree_insert c h (active_handles st1 ?u))"
    have "map_of (btree_insert c h (active_handles st1 ?u)) c = Some h" by (simp add: map_of_btree_insert)
    then have "(c, h) \<in> set rest" using other by (auto simp: rest_def btree_remove_def dest: map_of_SomeD)
    moreover from this have "active_handles st3 ?u = rest"
      using ended by (auto simp: devbox_rpc_ended_def Let_def st2 devbox_rpc_started_def remove_handle_def active_handles_def
          entry_or_def rest_def h_def)
    ultimately show ?thesis by (intro exI [of _ h]) (simp add: h_def)
  qed
  moreover have "tasks' = (case Option.bind (get_active_devbox_session (co_db st1) ?u) ss_active_environment of
      Some env \<Rightarrow> [ClearEnvironmentRoutes env] | None \<Rightarrow> [])"
    using ended by (auto simp: devbox_rpc_ended_def Let_def st2 devbox_rpc_started_def)
  ultimately show ?thesis by simp
qed

text \<open>The active session and its updates.\<close>

lemma get_active_by_row:
  assumes "sessions_wf db" and "s \<in> set (dv_sessions db)"
  shows "get_active_devbox_session db (ss_user_id s) = (if ss_revoked_at s = None then Some s else None)"
proof (cases "get_active_devbox_session db (ss_user_id s)")
  case None
  with assms(2) show ?thesis by (auto simp: get_active_devbox_session_def find_None_iff)
next
  case (Some r)
  then have "r \<in> set (dv_sessions db)" "ss_user_id r = ss_user_id s" "ss_revoked_at r = None"
    by (auto simp: get_active_devbox_session_def dest: find_in)
  with session_row_unique [OF assms(1) _ assms(2)] Some show ?thesis by auto
qed

lemma update_session_row:
  "s \<in> set (dv_sessions db) \<Longrightarrow> f s \<in> set (dv_sessions (update_session f (ss_id s) db))"
  by (force simp: update_session_def)

text \<open>
  C36: Revoking a session from the dashboard does not lock its CLI out: the control connection stays, and the same
  token logs in again, which makes the session active again. (Connections carry the id of the login, not that of the
  session row.)
\<close>

theorem revoked_token_logs_in_again:
  assumes "devbox_wf (co_db st)" and "authenticate_bearer decrypt (co_db st) token = Ok ctx"
    and row: "get_devbox_session_by_id (co_db st) i = Some s" and s: "ss_user_id s = cx_user ctx" "ss_revoked_at s = None"
    and handles: "\<forall>(c, h) \<in> set (active_handles st (cx_user ctx)). sh_session_id h \<noteq> i"
  shows "\<exists>st1 st2 tasks. devbox_session_revoke_session now (cx_user ctx) i st = (Ok (), st1, [])
    \<and> get_active_devbox_session (co_db st1) (cx_user ctx) = None \<and> co_active st1 = co_active st
    \<and> devbox_rpc_websocket decrypt hash new_id later (Some (bearer token)) st1 = Ok (ctx, st2, tasks)
    \<and> (\<exists>s'. get_active_devbox_session (co_db st2) (cx_user ctx) = Some s' \<and> ss_id s' = i)"
proof -
  let ?u = "cx_user ctx" and ?revoke = "\<lambda>s. s\<lparr>ss_revoked_at := Some now\<rparr>"
  let ?db1 = "update_session ?revoke i (co_db st)"
  let ?st1 = "st\<lparr>co_db := ?db1\<rparr>"
  from row have s_in: "s \<in> set (dv_sessions (co_db st))" "ss_id s = i"
    by (auto simp: get_devbox_session_by_id_def dest: find_in)
  have "find (\<lambda>(_, h). sh_session_id h = i) (active_handles ?st1 ?u) = None"
    using handles by (auto simp: find_None_iff active_handles_def)
  then have revoke: "devbox_session_revoke_session now ?u i st = (Ok (), ?st1, [])"
    using row s by (simp add: devbox_session_revoke_session_def revoke_devbox_session_by_id_def)
  have wf1: "sessions_wf ?db1" using assms(1) by (simp add: devbox_wf_def sessions_wf_update)
  have s1: "?revoke s \<in> set (dv_sessions ?db1)" using update_session_row [OF s_in(1), of ?revoke] s_in(2) by simp
  have none: "get_active_devbox_session ?db1 ?u = None" using get_active_by_row [OF wf1 s1] s(1) by simp
  define expires where "expires = entry_or (later + 86400 * 30) (cl_exp (cx_claims ctx))"
  have "authenticate_bearer decrypt ?db1 token = authenticate_bearer decrypt (co_db st) token"
    unfolding authenticate_bearer_def devbox_frames by (rule refl)
  with assms(2) have login: "devbox_rpc_websocket decrypt hash new_id later (Some (bearer token)) ?st1 =
      Ok (ctx, ?st1\<lparr>co_db := create_or_update_devbox_session hash new_id later ?u token (cx_device_name ctx) expires ?db1\<rparr>,
        map (\<lambda>(_, h). TellCli (sh_client h) (SessionDisplaced (cx_device_name ctx))) (active_handles ?st1 ?u))"
    by (simp add: devbox_rpc_websocket_def Let_def expires_def)
  let ?db2 = "create_or_update_devbox_session hash new_id later ?u token (cx_device_name ctx) expires ?db1"
  obtain r where r: "user_session ?db1 ?u = Some r"
    using user_session_None [of ?db1 ?u] s1 s(1) by (cases "user_session ?db1 ?u") (force simp: image_iff)+
  have "r = ?revoke s" using session_row_unique [OF wf1 user_session_Some(1) [OF r] s1] user_session_Some(2) [OF r] s(1) by simp
  let ?f = "\<lambda>s. s\<lparr>ss_token_hash := hash token, ss_token_prefix := take 12 token, ss_device_name := cx_device_name ctx,
      ss_expires_at := expires, ss_last_used_at := later, ss_revoked_at := None\<rparr>"
  have db2: "?db2 = update_session ?f (ss_id r) ?db1" by (simp add: create_or_update_devbox_session_def r)
  have "?f r \<in> set (dv_sessions ?db2)" unfolding db2 by (rule update_session_row [OF user_session_Some(1) [OF r]])
  moreover have "sessions_wf ?db2" unfolding db2 by (rule sessions_wf_update [OF _ wf1]) simp
  ultimately have "get_active_devbox_session ?db2 ?u = Some (?f r)"
    using get_active_by_row [of ?db2 "?f r"] user_session_Some(2) [OF r] by simp
  moreover have "ss_id (?f r) = i" using \<open>r = ?revoke s\<close> s_in(2) by simp
  ultimately have "\<exists>s'. get_active_devbox_session ?db2 ?u = Some s' \<and> ss_id s' = i" by blast
  then have "\<exists>s'. get_active_devbox_session (co_db (?st1\<lparr>co_db := ?db2\<rparr>)) ?u = Some s' \<and> ss_id s' = i" by simp
  moreover have "get_active_devbox_session (co_db ?st1) ?u = None" "co_active ?st1 = co_active st" using none by simp_all
  ultimately show ?thesis using revoke login by blast
qed

text \<open>
  C35: Over its control connection a CLI can make any environment that is not shared its active one, whoever owns
  it, and its client tunnel then leads into the cluster of that environment. The dashboard's operation of the same
  name refuses.
\<close>

theorem foreign_environment_reachable:
  assumes wf: "devbox_wf (co_db st)" and env: "dv_get_environment (co_db st) i = Some env" "\<not> env_is_shared env"
    and cluster: "env_cluster_id env \<in> set (dv_clusters (co_db st))"
    and session: "get_devbox_session_by_token_hash hash (co_db st) token = Some s"
  shows "\<exists>st1 tasks st2. rpc_set_active_environment (ss_user_id s) client i st = (Ok (), st1, tasks)
    \<and> devbox_client_tunnel_websocket hash now (ss_user_id s) (Some (bearer token)) st1 = Ok (Some (env_cluster_id env), st2)
    \<and> (env_user_id env \<noteq> ss_user_id s \<longrightarrow>
         devbox_session_set_active_environment (ss_user_id s, s) i st = (Err ''Unauthorized'', st, []))"
proof -
  let ?f = "\<lambda>s. s\<lparr>ss_active_environment := Some i\<rparr>" and ?u = "ss_user_id s"
  have s: "s \<in> set (dv_sessions (co_db st))" "ss_revoked_at s = None"
    using session by (auto simp: get_devbox_session_by_token_hash_def dest: find_in)
  have active: "get_active_devbox_session (co_db st) ?u = Some s"
    using get_active_by_row [OF _ s(1)] wf s(2) by (simp add: devbox_wf_def)
  let ?db1 = "update_session ?f (ss_id s) (co_db st)"
  have db1: "update_devbox_session_active_environment (Some i) ?u (co_db st) = ?db1"
    by (simp add: update_devbox_session_active_environment_def update_active_session_def active)
  have "get_devbox_session_by_token_hash hash ?db1 token = map_option (\<lambda>r. if ss_id r = ss_id s then ?f r else r)
      (get_devbox_session_by_token_hash hash (co_db st) token)"
    unfolding get_devbox_session_by_token_hash_def update_session_def by (simp add: find_map_same)
  then have found: "get_devbox_session_by_token_hash hash ?db1 token = Some (?f s)" by (simp add: session)
  have "dv_get_environment (update_active_session f u db) j = dv_get_environment db j"
    "dv_get_environment (update_session f k db) j = dv_get_environment db j" for f u db j k
    by (simp_all add: dv_get_environment_def devbox_frames)
  with found env have "\<exists>st2. devbox_client_tunnel_websocket hash now ?u (Some (bearer token)) (st\<lparr>co_db := ?db1\<rparr>)
      = Ok (Some (env_cluster_id env), st2)"
    by (simp add: devbox_client_tunnel_websocket_def tunnel_session_def update_devbox_session_last_used_def)
  moreover have "\<exists>tasks. rpc_set_active_environment ?u client i st = (Ok (), st\<lparr>co_db := ?db1\<rparr>, tasks)"
    using env cluster by (simp add: rpc_set_active_environment_def db1 Let_def)
  moreover have "env_user_id env \<noteq> ?u \<Longrightarrow> devbox_session_set_active_environment (?u, s) i st = (Err ''Unauthorized'', st, [])"
    using env by (simp add: devbox_session_set_active_environment_def ensure_environment_access_def)
  ultimately show ?thesis by blast
qed

section \<open>Witnesses\<close>

definition ex_devbox_environment :: "uuid \<Rightarrow> uuid option \<Rightarrow> devbox_environment" where
  "ex_devbox_environment i base =
     \<lparr>env_id = i, env_deleted_at = None, env_organization_id = 9, env_user_id = 7, env_cluster_id = 70, env_namespace = ''dev'',
      env_is_shared = False, env_base_environment_id = base, env_auth_token = ''secret''\<rparr>"

definition ex_devbox_db :: devbox_db where
  "ex_devbox_db = \<lparr>dv_sessions =
      [\<lparr>ss_id = 50, ss_user_id = 7, ss_token_hash = ''t1'', ss_token_prefix = ''t1'', ss_device_name = ''laptop'',
        ss_active_environment = Some 1, ss_created_at = 0, ss_expires_at = 100, ss_last_used_at = 0, ss_revoked_at = None\<rparr>,
       \<lparr>ss_id = 51, ss_user_id = 8, ss_token_hash = ''t8'', ss_token_prefix = ''t8'', ss_device_name = ''pc'',
        ss_active_environment = None, ss_created_at = 0, ss_expires_at = 100, ss_last_used_at = 0, ss_revoked_at = None\<rparr>],
     dv_intercepts = [], dv_environments = [ex_devbox_environment 1 None, ex_devbox_environment 2 (Some 3)],
     dv_workloads = [\<lparr>wl_id = 12, wl_deleted_at = None, wl_environment_id = 1, wl_base_workload_id = None, wl_name = ''web''\<rparr>],
     dv_clusters = [70], dv_users = [7, 8], dv_members = []\<rparr>"

definition ex_core :: core_state where
  "ex_core = \<lparr>co_db = ex_devbox_db, co_active = [7 \<mapsto> [(30, \<lparr>sh_session_id = 40, sh_device_name = ''laptop'', sh_client = 5\<rparr>)]],
     co_pending = Map.empty\<rparr>"

definition ex_decrypt :: "string \<Rightarrow> cli_claims option" where
  "ex_decrypt token = Some \<lparr>cl_user_id = Some 7, cl_organization_id = Some 9, cl_session_type = Some ''cli'',
     cl_device_name = Some ''desktop'', cl_session_id = Some 41, cl_exp = None\<rparr>"

lemma ex_devbox_wf: "devbox_wf ex_devbox_db"
  by (simp add: devbox_wf_def sessions_wf_def intercepts_wf_def ex_devbox_db_def)

lemma ex_login: "\<exists>ctx st' tasks. devbox_rpc_websocket ex_decrypt (\<lambda>t. t) 52 10 (Some (bearer ''t2'')) ex_core = Ok (ctx, st', tasks)
    \<and> cx_user ctx = 7"
  by (simp add: devbox_rpc_websocket_def authenticate_bearer_def ex_decrypt_def entry_or_def ex_core_def ex_devbox_db_def Let_def)

theorem devbox_rows_well_formed_witness:
  "\<exists>ctx st' tasks. devbox_rpc_websocket ex_decrypt (\<lambda>t. t) 52 10 (Some (bearer ''t2'')) ex_core = Ok (ctx, st', tasks) \<and> devbox_wf (co_db st')"
proof -
  obtain ctx st' tasks where login: "devbox_rpc_websocket ex_decrypt (\<lambda>t. t) 52 10 (Some (bearer ''t2'')) ex_core = Ok (ctx, st', tasks)"
    using ex_login by blast
  have "devbox_step ex_decrypt (\<lambda>t. t) ex_core st'" by (rule devbox_step.logged_in [OF login]) (simp add: ex_core_def ex_devbox_db_def)
  then have "rtranclp (devbox_step ex_decrypt (\<lambda>t. t)) ex_core st'" by (rule r_into_rtranclp)
  from devbox_rows_well_formed [OF this] ex_devbox_wf login show ?thesis by (auto simp: ex_core_def)
qed

theorem new_login_replaces_token_witness:
  "\<exists>ctx st' tasks. devbox_rpc_websocket ex_decrypt (\<lambda>t. t) 52 10 (Some (bearer ''t2'')) ex_core = Ok (ctx, st', tasks)
    \<and> tunnel_session (\<lambda>t. t) 11 7 (Some (bearer ''t1'')) st' = Err Unauthenticated"
proof -
  obtain ctx st' tasks where login: "devbox_rpc_websocket ex_decrypt (\<lambda>t. t) 52 10 (Some (bearer ''t2'')) ex_core = Ok (ctx, st', tasks)"
    and u: "cx_user ctx = 7" using ex_login by blast
  have "devbox_wf (co_db ex_core)" using ex_devbox_wf by (simp add: ex_core_def)
  moreover have "s \<in> set (dv_sessions (co_db ex_core)) \<Longrightarrow> ss_token_hash s = ''t2'' \<Longrightarrow> ss_user_id s = cx_user ctx" for s
    by (auto simp: ex_core_def ex_devbox_db_def)
  ultimately show ?thesis using new_login_replaces_token [OF _ login, of "''t1''" 11] login u by auto
qed

theorem displaced_connection_revokes_new_session_witness:
  "\<exists>st2 st3 tasks'. devbox_rpc_ended 12 7 30 st2 = (st3, tasks') \<and> active_handles st3 7 \<noteq> []
    \<and> tunnel_session (\<lambda>t. t) 13 7 (Some (bearer ''t2'')) st3 = Err Unauthenticated"
proof -
  obtain ctx st1 tasks where login: "devbox_rpc_websocket ex_decrypt (\<lambda>t. t) 52 10 (Some (bearer ''t2'')) ex_core = Ok (ctx, st1, tasks)"
    and u: "cx_user ctx = 7" using ex_login by blast
  obtain st3 tasks' where ended: "devbox_rpc_ended 12 (cx_user ctx) 30 (devbox_rpc_started ctx 31 6 st1) = (st3, tasks')" by force
  have "devbox_wf (co_db ex_core)" "(52 :: uuid) \<notin> ss_id ` set (dv_sessions (co_db ex_core))"
    using ex_devbox_wf by (simp_all add: ex_core_def ex_devbox_db_def)
  from displaced_connection_revokes_new_session [OF this login refl _ ended, of 13]
  have "active_handles st3 7 \<noteq> []" "tunnel_session (\<lambda>t. t) 13 7 (Some (bearer ''t2'')) st3 = Err Unauthenticated"
    unfolding u by force+
  with ended u show ?thesis by auto
qed

theorem revoked_token_logs_in_again_witness:
  "\<exists>st1 st2 ctx tasks. devbox_session_revoke_session 10 7 50 ex_core = (Ok (), st1, [])
    \<and> devbox_rpc_websocket ex_decrypt (\<lambda>t. t) 52 11 (Some (bearer ''t1'')) st1 = Ok (ctx, st2, tasks)
    \<and> get_active_devbox_session (co_db st2) 7 \<noteq> None"
proof -
  obtain ctx where ctx: "authenticate_bearer ex_decrypt (co_db ex_core) ''t1'' = Ok ctx" "cx_user ctx = 7"
    by (simp add: authenticate_bearer_def ex_decrypt_def entry_or_def ex_core_def ex_devbox_db_def)
  have "devbox_wf (co_db ex_core)" using ex_devbox_wf by (simp add: ex_core_def)
  moreover obtain s where "get_devbox_session_by_id (co_db ex_core) 50 = Some s" "ss_user_id s = cx_user ctx" "ss_revoked_at s = None"
    using ctx(2) by (simp add: get_devbox_session_by_id_def ex_core_def ex_devbox_db_def)
  moreover have "\<forall>(c, h) \<in> set (active_handles ex_core (cx_user ctx)). sh_session_id h \<noteq> 50"
    using ctx(2) by (simp add: active_handles_def ex_core_def entry_or_def)
  ultimately show ?thesis
    using revoked_token_logs_in_again [of ex_core ex_decrypt "''t1''" ctx 50 s 10 "\<lambda>t. t" 52 11] ctx by auto
qed

theorem foreign_environment_reachable_witness:
  "\<exists>st1 tasks st2. rpc_set_active_environment 8 6 1 ex_core = (Ok (), st1, tasks)
    \<and> devbox_client_tunnel_websocket (\<lambda>t. t) 10 8 (Some (bearer ''t8'')) st1 = Ok (Some 70, st2)"
proof -
  obtain s where s: "get_devbox_session_by_token_hash (\<lambda>t. t) (co_db ex_core) ''t8'' = Some s" "ss_user_id s = 8"
    by (simp add: get_devbox_session_by_token_hash_def ex_core_def ex_devbox_db_def)
  have "devbox_wf (co_db ex_core)" using ex_devbox_wf by (simp add: ex_core_def)
  moreover have "dv_get_environment (co_db ex_core) 1 = Some (ex_devbox_environment 1 None)"
    by (simp add: dv_get_environment_def ex_core_def ex_devbox_db_def ex_devbox_environment_def live_def)
  ultimately show ?thesis
    using foreign_environment_reachable [of ex_core 1 "ex_devbox_environment 1 None" "\<lambda>t. t" "''t8''" s 6 10] s
    by (auto simp: ex_devbox_environment_def ex_core_def ex_devbox_db_def)
qed

end
