(* ===== verification/Sidecar_Manager.thy ===== *)
theory Sidecar_Manager
  imports Sidecar_Server Generation_Registry
begin

text \<open>
  The kube-manager's side of the sidecars, \<^verbatim>\<open>crates/kube-manager/src/sidecar_proxy_manager.rs\<close> and
  \<^verbatim>\<open>sidecar_proxy_manager_rpc.rs\<close>: which sidecar connections are open, the devbox routes last asked for (the
  snapshots), and the calls that carry them to the sidecars. The sidecars are those of \<open>Sidecar_Server\<close>; a
  connection is a number, \<open>sidecars\<close> gives the process behind it.

  A call over a connection is delivered, or lost before or after it took effect (\<open>link\<close>). Hash maps are walked
  in the order \<open>order\<close> of their keys. What the API answers when it is asked for branch routes is the argument
  \<open>api\<close>. Texts of errors are given without the ids in them.
\<close>

section \<open>State\<close>

type_synonym sidecars = "nat \<Rightarrow> sidecar"

type_synonym key_order = "uuid set \<Rightarrow> uuid list"

definition visits :: "key_order \<Rightarrow> bool" where
  "visits order \<longleftrightarrow> (\<forall>S. distinct (order S) \<and> set (order S) = S)"

datatype link_state = Delivered | Lost bool

type_synonym link = "nat \<Rightarrow> rpc \<Rightarrow> link_state"

definition call_sidecar :: "key_order \<Rightarrow> link \<Rightarrow> nat \<Rightarrow> rpc \<Rightarrow> sidecars \<Rightarrow> (string + unit) \<times> sidecars" where
  "call_sidecar order link c r w =
     (let done = w(c := apply_rpc order (w c) r)
      in case link c r of
           Delivered \<Rightarrow> (Ok (), done)
         | Lost applied \<Rightarrow> (Err ''RPC error'', if applied then done else w))"

record sidecar_manager =
  sm_proxies :: "uuid \<rightharpoonup> (uuid \<rightharpoonup> (nat \<times> nat) list)"
  sm_counter :: nat
  sm_cluster_client :: bool
  sm_snapshots :: "uuid \<rightharpoonup> (uuid \<rightharpoonup> devbox_route_config)"

definition new_manager :: sidecar_manager where
  "new_manager = \<lparr>sm_proxies = Map.empty, sm_counter = 1, sm_cluster_client = False, sm_snapshots = Map.empty\<rparr>"

section \<open>Connections\<close>

definition register_sidecar :: "sidecar_manager \<Rightarrow> uuid \<Rightarrow> uuid \<Rightarrow> nat \<Rightarrow> nat \<times> sidecar_manager" where
  "register_sidecar m env workload client =
     (let generation = sm_counter m;
          workloads = entry_or Map.empty (sm_proxies m env);
          es = entry_or [] (workloads workload)
      in (generation,
          m\<lparr>sm_counter := Suc generation,
            sm_proxies := (sm_proxies m)(env \<mapsto> workloads(workload \<mapsto> btree_insert generation client es))\<rparr>))"

definition remove_sidecar :: "sidecar_manager \<Rightarrow> uuid \<Rightarrow> uuid \<Rightarrow> nat \<Rightarrow> sidecar_manager" where
  "remove_sidecar m env workload generation =
     (case sm_proxies m env of
        None \<Rightarrow> m
      | Some workloads \<Rightarrow>
          (case workloads workload of
             None \<Rightarrow> m
           | Some es \<Rightarrow>
               (let removed = map_of es generation \<noteq> None;
                    es' = btree_remove generation es;
                    workloads' = workloads(workload := if es' = [] then None else Some es')
                in m\<lparr>sm_proxies := (sm_proxies m)(env := if removed \<and> workloads' = Map.empty then None else Some workloads')\<rparr>)))"

definition latest_clients_for_environment :: "sidecar_manager \<Rightarrow> uuid \<Rightarrow> (uuid \<rightharpoonup> nat) option" where
  "latest_clients_for_environment m env =
     map_option (\<lambda>workloads w. Option.bind (workloads w) (\<lambda>es. if es = [] then None else Some (snd (last es))))
       (sm_proxies m env)"

definition record_sidecar_heartbeat :: "sidecar_manager \<Rightarrow> uuid \<Rightarrow> uuid \<Rightarrow> bool" where
  "record_sidecar_heartbeat m env workload =
     (case Option.bind (sm_proxies m env) (\<lambda>workloads. workloads workload) of None \<Rightarrow> False | Some es \<Rightarrow> es \<noteq> [])"

section \<open>Branch routes\<close>

fun push_service_routes ::
    "key_order \<Rightarrow> link \<Rightarrow> (uuid \<Rightarrow> string + proxy_branch_route_config list) \<Rightarrow> (uuid \<times> nat) list \<Rightarrow> sidecars
     \<Rightarrow> (string + unit) \<times> sidecars" where
  "push_service_routes order link api [] w = (Ok (), w)"
| "push_service_routes order link api ((workload, client) # cs) w =
     (case api workload of
        Inl err \<Rightarrow> (Err err, w)
      | Inr routes \<Rightarrow>
          (case call_sidecar order link client (SetServiceRoutes routes) w of
             (Inl _, w') \<Rightarrow> (Err ''Failed to push service routes to workload'', w')
           | (Inr _, w') \<Rightarrow> push_service_routes order link api cs w'))"

definition connection_list :: "key_order \<Rightarrow> (uuid \<rightharpoonup> nat) \<Rightarrow> (uuid \<times> nat) list" where
  "connection_list order connections = map (\<lambda>w. (w, the (connections w))) (order (dom connections))"

definition set_service_routes_if_registered ::
    "key_order \<Rightarrow> link \<Rightarrow> (uuid \<Rightarrow> string + proxy_branch_route_config list) \<Rightarrow> sidecar_manager \<Rightarrow> uuid \<Rightarrow> sidecars
     \<Rightarrow> (string + unit) \<times> sidecars" where
  "set_service_routes_if_registered order link api m env w =
     (case latest_clients_for_environment m env of
        None \<Rightarrow> (Ok (), w)
      | Some connections \<Rightarrow>
          (if \<not> sm_cluster_client m then (Ok (), w)
           else push_service_routes order link api (connection_list order connections) w))"

definition client_for :: "sidecar_manager \<Rightarrow> uuid \<Rightarrow> uuid \<Rightarrow> nat option" where
  "client_for m env workload = Option.bind (latest_clients_for_environment m env) (\<lambda>cs. cs workload)"

definition manager_upsert_branch_service_route ::
    "key_order \<Rightarrow> link \<Rightarrow> sidecar_manager \<Rightarrow> uuid \<Rightarrow> uuid \<Rightarrow> proxy_branch_route_config \<Rightarrow> sidecars \<Rightarrow> (string + unit) \<times> sidecars" where
  "manager_upsert_branch_service_route order link m env workload route w =
     (case client_for m env workload of
        None \<Rightarrow> (Ok (), w)
      | Some client \<Rightarrow>
          (case call_sidecar order link client (UpsertBranchServiceRoute route) w of
             (Inl _, w') \<Rightarrow> (Err ''Failed to update branch service route for workload'', w')
           | (Inr _, w') \<Rightarrow> (Ok (), w')))"

definition manager_remove_branch_service_route ::
    "key_order \<Rightarrow> link \<Rightarrow> sidecar_manager \<Rightarrow> uuid \<Rightarrow> uuid \<Rightarrow> uuid \<Rightarrow> sidecars \<Rightarrow> (string + unit) \<times> sidecars" where
  "manager_remove_branch_service_route order link m env workload branch w =
     (case client_for m env workload of
        None \<Rightarrow> (Ok (), w)
      | Some client \<Rightarrow>
          (case call_sidecar order link client (RemoveBranchServiceRoute branch) w of
             (Inl _, w') \<Rightarrow> (Err ''Failed to remove branch service route for workload'', w')
           | (Inr _, w') \<Rightarrow> (Ok (), w')))"

section \<open>Devbox routes\<close>

definition snapshot_of :: "sidecar_manager \<Rightarrow> uuid \<Rightarrow> uuid \<rightharpoonup> devbox_route_config" where
  "snapshot_of m env = entry_or Map.empty (sm_snapshots m env)"

definition upsert_devbox_route_snapshot :: "sidecar_manager \<Rightarrow> uuid \<Rightarrow> devbox_route_config \<Rightarrow> sidecar_manager" where
  "upsert_devbox_route_snapshot m env route =
     m\<lparr>sm_snapshots := (sm_snapshots m)(env \<mapsto> (snapshot_of m env)(cfg_workload_id route \<mapsto> route))\<rparr>"

definition set_or_remove :: "(uuid \<rightharpoonup> 'a) \<Rightarrow> (uuid \<rightharpoonup> 'a) option" where
  "set_or_remove routes = (if routes = Map.empty then None else Some routes)"

definition remove_devbox_route_snapshot ::
    "sidecar_manager \<Rightarrow> uuid \<Rightarrow> uuid \<Rightarrow> uuid option \<Rightarrow> bool \<times> sidecar_manager" where
  "remove_devbox_route_snapshot m env workload branch =
     (case sm_snapshots m env of
        None \<Rightarrow> (False, m)
      | Some routes \<Rightarrow>
          (let should_remove = (case routes workload of None \<Rightarrow> False | Some r \<Rightarrow> cfg_branch_environment_id r = branch);
               routes' = (if should_remove then routes(workload := None) else routes)
           in (should_remove, m\<lparr>sm_snapshots := (sm_snapshots m)(env := set_or_remove routes')\<rparr>)))"

definition kept_by_prune :: "uuid option \<Rightarrow> devbox_route_config \<Rightarrow> bool" where
  "kept_by_prune branch r =
     (case branch of
        Some b \<Rightarrow> cfg_branch_environment_id r \<noteq> Some b
      | None \<Rightarrow> cfg_branch_environment_id r \<noteq> None)"

definition prune_devbox_route_snapshot :: "sidecar_manager \<Rightarrow> uuid \<Rightarrow> uuid option \<Rightarrow> sidecar_manager" where
  "prune_devbox_route_snapshot m env branch =
     (case sm_snapshots m env of
        None \<Rightarrow> m
      | Some routes \<Rightarrow>
          (let routes' = (\<lambda>w. case routes w of None \<Rightarrow> None | Some r \<Rightarrow> if kept_by_prune branch r then Some r else None)
           in m\<lparr>sm_snapshots := (sm_snapshots m)(env := set_or_remove routes')\<rparr>))"

fun push_devbox_routes ::
    "key_order \<Rightarrow> link \<Rightarrow> (uuid \<rightharpoonup> devbox_route_config) \<Rightarrow> (uuid \<rightharpoonup> devbox_route_config) \<Rightarrow> (uuid \<times> nat) list \<Rightarrow> sidecars
     \<Rightarrow> (string + unit) \<times> sidecars" where
  "push_devbox_routes order link previous routes [] w = (Ok (), w)"
| "push_devbox_routes order link previous routes ((workload, client) # cs) w =
     (case routes workload of
        Some route \<Rightarrow>
          (case call_sidecar order link client (SetDevboxRoute route) w of
             (Inl _, w') \<Rightarrow> (Err ''Failed to send devbox routes to sidecar'', w')
           | (Inr _, w') \<Rightarrow> push_devbox_routes order link previous (routes(workload := None)) cs w')
      | None \<Rightarrow>
          (case call_sidecar order link client
                  (StopDevbox (Option.bind (previous workload) cfg_branch_environment_id)) w of
             (Inl _, w') \<Rightarrow> (Err ''Failed to clear devbox routes for workload'', w')
           | (Inr _, w') \<Rightarrow> push_devbox_routes order link previous routes cs w'))"

definition manager_set_devbox_routes ::
    "key_order \<Rightarrow> link \<Rightarrow> sidecar_manager \<Rightarrow> uuid \<Rightarrow> (uuid \<rightharpoonup> devbox_route_config) \<Rightarrow> sidecars
     \<Rightarrow> (string + unit) \<times> sidecar_manager \<times> sidecars" where
  "manager_set_devbox_routes order link m env routes w =
     (let previous = snapshot_of m env;
          m' = m\<lparr>sm_snapshots := (sm_snapshots m)(env \<mapsto> routes)\<rparr>
      in case latest_clients_for_environment m' env of
           None \<Rightarrow> (Ok (), m', w)
         | Some connections \<Rightarrow>
             (case push_devbox_routes order link previous routes (connection_list order connections) w of
                (res, w') \<Rightarrow> (res, m', w')))"

definition manager_set_devbox_route ::
    "key_order \<Rightarrow> link \<Rightarrow> sidecar_manager \<Rightarrow> uuid \<Rightarrow> devbox_route_config \<Rightarrow> sidecars
     \<Rightarrow> (string + unit) \<times> sidecar_manager \<times> sidecars" where
  "manager_set_devbox_route order link m env route w =
     (let m' = upsert_devbox_route_snapshot m env route
      in case client_for m' env (cfg_workload_id route) of
           None \<Rightarrow> (Ok (), m', w)
         | Some client \<Rightarrow>
             (case call_sidecar order link client (SetDevboxRoute route) w of
                (Inl _, w') \<Rightarrow> (Err ''Failed to send devbox route to workload'', m', w')
              | (Inr _, w') \<Rightarrow> (Ok (), m', w')))"

definition manager_remove_devbox_route ::
    "key_order \<Rightarrow> link \<Rightarrow> sidecar_manager \<Rightarrow> uuid \<Rightarrow> uuid \<Rightarrow> uuid option \<Rightarrow> sidecars
     \<Rightarrow> (string + unit) \<times> sidecar_manager \<times> sidecars" where
  "manager_remove_devbox_route order link m env workload branch w =
     (case remove_devbox_route_snapshot m env workload branch of
        (removed, m') \<Rightarrow>
          (if \<not> removed then (Ok (), m', w)
           else
             (case client_for m' env workload of
                None \<Rightarrow> (Ok (), m', w)
              | Some client \<Rightarrow>
                  (case call_sidecar order link client (StopDevbox branch) w of
                     (Inl _, w') \<Rightarrow> (Err ''Failed to clear devbox route for workload'', m', w')
                   | (Inr _, w') \<Rightarrow> (Ok (), m', w')))))"

fun stop_all :: "key_order \<Rightarrow> link \<Rightarrow> uuid option \<Rightarrow> (uuid \<times> nat) list \<Rightarrow> sidecars \<Rightarrow> (string + unit) \<times> sidecars" where
  "stop_all order link branch [] w = (Ok (), w)"
| "stop_all order link branch ((_, client) # cs) w =
     (case call_sidecar order link client (StopDevbox branch) w of
        (Inl _, w') \<Rightarrow> (Err ''Failed to clear devbox routes for workload'', w')
      | (Inr _, w') \<Rightarrow> stop_all order link branch cs w')"

definition manager_clear_devbox_routes ::
    "key_order \<Rightarrow> link \<Rightarrow> sidecar_manager \<Rightarrow> uuid \<Rightarrow> uuid option \<Rightarrow> sidecars
     \<Rightarrow> (string + unit) \<times> sidecar_manager \<times> sidecars" where
  "manager_clear_devbox_routes order link m env branch w =
     (let m' = prune_devbox_route_snapshot m env branch
      in case latest_clients_for_environment m' env of
           None \<Rightarrow> (Ok (), m', w)
         | Some connections \<Rightarrow>
             (case stop_all order link branch (connection_list order connections) w of (res, w') \<Rightarrow> (res, m', w')))"

definition replay_devbox_route ::
    "key_order \<Rightarrow> link \<Rightarrow> sidecar_manager \<Rightarrow> uuid \<Rightarrow> uuid \<Rightarrow> sidecars \<Rightarrow> (string + unit) \<times> sidecars" where
  "replay_devbox_route order link m env workload w =
     (case snapshot_of m env workload of
        None \<Rightarrow> (Ok (), w)
      | Some route \<Rightarrow>
          (case client_for m env workload of
             None \<Rightarrow> (Ok (), w)
           | Some client \<Rightarrow>
               (case call_sidecar order link client (SetDevboxRoute route) w of
                  (Inl _, w') \<Rightarrow> (Err ''Failed to replay devbox route for workload'', w')
                | (Inr _, w') \<Rightarrow> (Ok (), w'))))"

section \<open>The connection of a sidecar\<close>

record proxy_connection =
  px_client :: nat
  px_generation :: "nat option"
  px_environment :: "uuid option"
  px_workload :: "uuid option"

definition register_sidecar_proxy ::
    "key_order \<Rightarrow> link \<Rightarrow> (uuid \<Rightarrow> string + proxy_branch_route_config list) \<Rightarrow> sidecar_manager \<Rightarrow> proxy_connection
     \<Rightarrow> uuid \<Rightarrow> uuid \<Rightarrow> sidecars \<Rightarrow> (string + unit) \<times> sidecar_manager \<times> proxy_connection \<times> sidecars" where
  "register_sidecar_proxy order link api m px workload env w =
     (case register_sidecar m env workload (px_client px) of
        (generation, m') \<Rightarrow>
          (let px' = px\<lparr>px_environment := Some env, px_workload := Some workload, px_generation := Some generation\<rparr>
           in case set_service_routes_if_registered order link api m' env w of
                (Inl e, w') \<Rightarrow> (Err e, m', px', w')
              | (Inr _, w') \<Rightarrow> (Ok (), m', px', snd (replay_devbox_route order link m' env workload w'))))"

definition handle_disconnect :: "sidecar_manager \<Rightarrow> proxy_connection \<Rightarrow> sidecar_manager" where
  "handle_disconnect m px =
     (case (px_environment px, px_workload px, px_generation px) of
        (Some env, Some workload, Some generation) \<Rightarrow> remove_sidecar m env workload generation
      | _ \<Rightarrow> m)"

definition proxy_heartbeat :: "sidecar_manager \<Rightarrow> uuid \<Rightarrow> uuid \<Rightarrow> string + unit" where
  "proxy_heartbeat m workload env =
     (if record_sidecar_heartbeat m env workload then Ok () else Err ''sidecar proxy not registered'')"

text \<open>A sidecar may ask for the direct address of a devbox of its own environment only; \<open>ask\<close> is the API.\<close>

definition proxy_request_direct_config ::
    "(uuid \<Rightarrow> string + 'cfg option) \<Rightarrow> sidecar_manager \<Rightarrow> proxy_connection \<Rightarrow> uuid \<Rightarrow> string + 'cfg option" where
  "proxy_request_direct_config ask m px env =
     (case px_environment px of
        None \<Rightarrow> Err ''sidecar proxy has not completed registration''
      | Some bound \<Rightarrow>
          (if bound \<noteq> env then Err ''environment mismatch for sidecar proxy''
           else if \<not> sm_cluster_client m then Err ''Cluster RPC client unavailable; cannot request direct config''
           else ask env))"

section \<open>Delivered calls\<close>

abbreviation delivered :: link where
  "delivered \<equiv> \<lambda>_ _. Delivered"

lemma call_delivered [simp]:
  "link c r = Delivered \<Longrightarrow> call_sidecar order link c r w = (Ok (), w(c := apply_rpc order (w c) r))"
  by (simp add: call_sidecar_def)

text \<open>All loops over connections: one call to each of different connections.\<close>

definition call_each :: "key_order \<Rightarrow> (uuid \<Rightarrow> rpc) \<Rightarrow> (uuid \<times> nat) list \<Rightarrow> sidecars \<Rightarrow> sidecars" where
  "call_each order msg = fold (\<lambda>(workload, c) w. w(c := apply_rpc order (w c) (msg workload)))"

lemma call_each_Cons [simp]:
  "call_each order msg [] w = w"
  "call_each order msg ((workload, c) # cs) w = call_each order msg cs (w(c := apply_rpc order (w c) (msg workload)))"
  by (simp_all add: call_each_def)

lemma call_each_other: "c \<notin> snd ` set cs \<Longrightarrow> call_each order msg cs w c = w c"
  by (induction cs arbitrary: w) auto

lemma call_each_at:
  "distinct (map fst cs) \<Longrightarrow> (workload, c) \<in> set cs \<Longrightarrow> \<forall>(v, c') \<in> set cs. c' = c \<longrightarrow> v = workload
    \<Longrightarrow> call_each order msg cs w c = apply_rpc order (w c) (msg workload)"
proof (induction cs arbitrary: w)
  case (Cons x cs)
  obtain v c' where x: "x = (v, c')" by force
  show ?case
  proof (cases "v = workload")
    case True
    with Cons.prems x have "c' = c" by (auto simp: rev_image_eqI)
    moreover from True Cons.prems x have "c \<notin> snd ` set cs" by (auto simp: rev_image_eqI)
    ultimately show ?thesis using True x by (simp add: call_each_other)
  next
    case False
    with Cons x show ?thesis by auto
  qed
qed simp

lemma call_each_cong:
  "(\<And>workload. workload \<in> fst ` set cs \<Longrightarrow> msg workload = msg' workload) \<Longrightarrow> call_each order msg cs w = call_each order msg' cs w"
  by (induction cs arbitrary: w) force+

lemma push_devbox_routes_delivered:
  "distinct (map fst cs) \<Longrightarrow> push_devbox_routes order delivered previous routes cs w =
     (Ok (), call_each order (\<lambda>workload. case routes workload of
        Some route \<Rightarrow> SetDevboxRoute route
      | None \<Rightarrow> StopDevbox (Option.bind (previous workload) cfg_branch_environment_id)) cs w)"
proof (induction cs arbitrary: routes w)
  case (Cons x cs)
  obtain workload c where x: "x = (workload, c)" by force
  show ?case
  proof (cases "routes workload")
    case None
    with Cons x show ?thesis by simp
  next
    case (Some route)
    have "call_each order (\<lambda>v. case (routes(workload := None)) v of Some route \<Rightarrow> SetDevboxRoute route
        | None \<Rightarrow> StopDevbox (Option.bind (previous v) cfg_branch_environment_id)) cs w'
      = call_each order (\<lambda>v. case routes v of Some route \<Rightarrow> SetDevboxRoute route
        | None \<Rightarrow> StopDevbox (Option.bind (previous v) cfg_branch_environment_id)) cs w'" for w'
      using Cons.prems x by (intro call_each_cong) (auto simp: rev_image_eqI)
    with Cons x Some show ?thesis by simp
  qed
qed simp

lemma stop_all_delivered: "stop_all order delivered branch cs w = (Ok (), call_each order (\<lambda>_. StopDevbox branch) cs w)"
  by (induction cs arbitrary: w) auto

lemma push_service_routes_Ok:
  assumes "push_service_routes order delivered api cs w = (Ok (), w')"
  shows "w' = call_each order (\<lambda>workload. SetServiceRoutes (projr (api workload))) cs w"
  using assms by (induction cs arbitrary: w) (auto split: sum.splits)

lemma push_service_routes_calls:
  "\<exists>cs'. set cs' \<subseteq> set cs \<and> snd (push_service_routes order delivered api cs w)
     = call_each order (\<lambda>workload. SetServiceRoutes (projr (api workload))) cs' w"
proof (induction cs arbitrary: w)
  case (Cons x cs)
  obtain workload c where x: "x = (workload, c)" by force
  show ?case
  proof (cases "api workload")
    case (Inl e)
    then show ?thesis by (intro exI [of _ "[]"]) (simp add: x)
  next
    case (Inr routes)
    obtain cs' where "set cs' \<subseteq> set cs"
      "snd (push_service_routes order delivered api cs (w(c := apply_rpc order (w c) (SetServiceRoutes routes))))
        = call_each order (\<lambda>workload. SetServiceRoutes (projr (api workload))) cs' (w(c := apply_rpc order (w c) (SetServiceRoutes routes)))"
      using Cons.IH by blast
    with Inr x show ?thesis by (intro exI [of _ "x # cs'"]) auto
  qed
qed simp

section \<open>What a call does to a sidecar\<close>

lemma apply_rpc_ids [simp]:
  "sc_workload_id (apply_rpc order sc r) = sc_workload_id sc" "sc_environment_id (apply_rpc order sc r) = sc_environment_id sc"
  by (cases r; simp add: set_service_routes_def set_devbox_route_def stop_devbox_def rpc_upsert_branch_service_route_def
      rpc_remove_branch_service_route_def Let_def split: sum.splits option.splits)+

lemma apply_rpc_default:
  "rt_default_route (sc_table (apply_rpc order sc r)) =
     (case r of
        SetDevboxRoute route \<Rightarrow>
          (if cfg_workload_id route = sc_workload_id sc \<and> cfg_branch_environment_id route = None
           then RouteDevbox (devbox_connection_from_config route (sc_environment_id sc)) else rt_default_route (sc_table sc))
      | StopDevbox None \<Rightarrow> RouteLocal
      | _ \<Rightarrow> rt_default_route (sc_table sc))"
  by (cases r) (auto simp: set_service_routes_def set_devbox_route_def stop_devbox_def rpc_upsert_branch_service_route_def
      rpc_remove_branch_service_route_def set_default_devbox_def clear_default_devbox_def fold_set_branch_devbox(2) table_simps Let_def
      split: option.splits)

definition is_default_call :: "rpc \<Rightarrow> bool" where
  "is_default_call r = (case r of
     SetDevboxRoute route \<Rightarrow> cfg_branch_environment_id route = None | StopDevbox branch \<Rightarrow> branch = None | _ \<Rightarrow> False)"

lemma apply_rpc_keeps_default:
  "\<not> is_default_call r \<Longrightarrow> rt_default_route (sc_table (apply_rpc order sc r)) = rt_default_route (sc_table sc)"
  by (auto simp: apply_rpc_default is_default_call_def split: rpc.splits option.splits)

lemma call_each_ids [simp]:
  "sc_workload_id (call_each order msg cs w c) = sc_workload_id (w c)"
  "sc_environment_id (call_each order msg cs w c) = sc_environment_id (w c)"
  by (induction cs arbitrary: w) auto

lemma call_each_keeps_default:
  "(\<And>workload. \<not> is_default_call (msg workload)) \<Longrightarrow>
     rt_default_route (sc_table (call_each order msg cs w c)) = rt_default_route (sc_table (w c))"
  by (induction cs arbitrary: w) (auto simp: apply_rpc_keeps_default)

section \<open>The route a devbox gets\<close>

definition devbox_decision :: "devbox_route_config \<Rightarrow> uuid \<Rightarrow> u16 \<Rightarrow> route_decision" where
  "devbox_decision route env port =
     (let c = devbox_connection_from_config route (entry_or env (cfg_branch_environment_id route));
          target = entry_or port (cfg_port_mappings route port)
      in case cfg_branch_environment_id route of
           Some b \<Rightarrow> BranchDevbox b c target
         | None \<Rightarrow> DefaultDevbox c target)"

lemma mapped_port: "resolve_target_port (devbox_connection_from_config route e) port = entry_or port (cfg_port_mappings route port)"
  by (simp add: resolve_target_port_def devbox_connection_from_config_def entry_or_def)

lemma set_devbox_route_decides:
  assumes "cfg_workload_id route = sc_workload_id sc"
    and "\<And>b. cfg_branch_environment_id route = Some b \<Longrightarrow> branch_routes (sc_table sc) b \<noteq> None"
  shows "resolve_http ks (sc_table (set_devbox_route sc route)) port (cfg_branch_environment_id route)
    = devbox_decision route (sc_environment_id sc) port"
  using assms
  by (auto simp: set_devbox_route_def set_branch_devbox_def set_default_devbox_def resolve_http_def devbox_decision_def
      mapped_port Let_def entry_or_def split: option.splits)

text \<open>
  A route that the manager is asked to set is in force on the sidecar of its workload, if that is connected,
  the call arrives, and the sidecar knows the branch: requests of the branch (or of everybody, for a route without
  a branch) go to the devbox on the mapped port. No other sidecar changes, and the route is remembered.
\<close>

theorem devbox_route_takes_effect:
  assumes "client_for m env (cfg_workload_id route) = Some c" and "link c (SetDevboxRoute route) = Delivered"
    and "sc_workload_id (w c) = cfg_workload_id route"
    and "\<And>b. cfg_branch_environment_id route = Some b \<Longrightarrow> branch_routes (sc_table (w c)) b \<noteq> None"
  shows "\<exists>m' w'. manager_set_devbox_route order link m env route w = (Ok (), m', w')
    \<and> snapshot_of m' env (cfg_workload_id route) = Some route
    \<and> resolve_http ks (sc_table (w' c)) port (cfg_branch_environment_id route)
        = devbox_decision route (sc_environment_id (w c)) port
    \<and> (\<forall>c'. c' \<noteq> c \<longrightarrow> w' c' = w c')"
proof -
  have "client_for (upsert_devbox_route_snapshot m env route) env (cfg_workload_id route) = Some c"
    using assms(1) by (simp add: client_for_def latest_clients_for_environment_def upsert_devbox_route_snapshot_def)
  then show ?thesis
    using assms(2-) set_devbox_route_decides [of route "w c" ks port]
    by (simp add: manager_set_devbox_route_def upsert_devbox_route_snapshot_def snapshot_of_def entry_or_def)
qed

section \<open>The sidecars that are connected\<close>

definition proxies_of :: "sidecar_manager \<Rightarrow> uuid \<times> uuid \<Rightarrow> (nat \<times> nat) list" where
  "proxies_of m = (\<lambda>(env, v). entry_or [] (Option.bind (sm_proxies m env) (\<lambda>workloads. workloads v)))"

lemma client_for_proxies: "client_for m env v = (if proxies_of m (env, v) = [] then None else Some (snd (last (proxies_of m (env, v)))))"
  by (cases "sm_proxies m env") (auto simp: client_for_def latest_clients_for_environment_def proxies_of_def entry_or_def split: option.splits)

lemma proxy_table:
  "proxies_of (snd (register_sidecar m (fst k) (snd k) c)) j
     = (if j = k then btree_insert (sm_counter m) c (proxies_of m k) else proxies_of m j)"
  "sm_counter (snd (register_sidecar m (fst k) (snd k) c)) = Suc (sm_counter m)"
  "proxies_of (remove_sidecar m (fst k) (snd k) g) j = (if j = k then btree_remove g (proxies_of m k) else proxies_of m j)"
  "sm_counter (remove_sidecar m (fst k) (snd k) g) = sm_counter m"
  by (auto simp: register_sidecar_def remove_sidecar_def proxies_of_def entry_or_def Let_def btree_remove_map_of fun_eq_iff
      split: option.splits prod.splits if_splits)

interpretation proxies: connection_table "\<lambda>m k c. snd (register_sidecar m (fst k) (snd k) c)"
    "\<lambda>m k g. remove_sidecar m (fst k) (snd k) g" proxies_of sm_counter
  by unfold_locales (rule proxy_table)+

section \<open>A sidecar that starts again\<close>

lemma replace_fold_known:
  "b \<in> fst ` set routes \<or> new b \<noteq> None \<Longrightarrow> snd (fold replace_step routes (old, new)) b \<noteq> None"
proof (induction routes arbitrary: old new)
  case (Cons x routes)
  obtain b' sr where x: "x = (b', sr)" by force
  obtain old' new' where step: "replace_step (b', sr) (old, new) = (old', new')" by force
  with Cons.prems replace_step_simps(2) [of b' sr old new] x have "b \<in> fst ` set routes \<or> new' b \<noteq> None" by auto
  with Cons.IH step x show ?case by simp
qed simp

lemma fold_set_branch_devbox_known:
  "branch_routes t b \<noteq> None \<Longrightarrow> branch_routes (fold (\<lambda>(b, c) t. snd (set_branch_devbox t b c)) os t) b \<noteq> None"
proof (induction os arbitrary: t)
  case (Cons x os)
  obtain b' c where x: "x = (b', c)" by force
  have "branch_routes (snd (set_branch_devbox t b' c)) b \<noteq> None"
    using Cons.prems by (auto simp: set_branch_devbox_def split: option.splits)
  with Cons.IH x show ?case by simp
qed simp

lemma set_service_routes_known:
  assumes "r \<in> set routes" and "brc_service_names r \<noteq> Map.empty"
  shows "branch_routes (sc_table (set_service_routes order sc routes)) (brc_branch_environment_id r) \<noteq> None"
proof -
  let ?updates = "map (\<lambda>r. (brc_branch_environment_id r, service_route_of r)) (filter (\<lambda>r. brc_service_names r \<noteq> Map.empty) routes)"
  have "brc_branch_environment_id r \<in> fst ` set ?updates" using assms by force
  then have "branch_routes (replace_branch_routes (sc_table sc) ?updates) (brc_branch_environment_id r) \<noteq> None"
    using replace_fold_known [OF disjI1, where routes = ?updates and new = Map.empty and old = "branch_routes (sc_table sc)"]
    by (simp add: replace_branch_routes_def)
  then show ?thesis
    by (simp add: set_service_routes_def Let_def fold_set_branch_devbox_known)
qed

lemma push_service_routes_answered:
  "\<forall>v \<in> fst ` set cs. \<exists>routes. api v = Inr routes \<Longrightarrow>
     push_service_routes order delivered api cs w
       = (Ok (), call_each order (\<lambda>workload. SetServiceRoutes (projr (api workload))) cs w)"
proof (induction cs arbitrary: w)
  case (Cons x cs)
  obtain v c where x: "x = (v, c)" by force
  with Cons.prems obtain routes where "api v = Inr routes" by auto
  with Cons x show ?case by simp
qed simp

lemma visits_list:
  assumes "visits order"
  shows "distinct (map fst (connection_list order cs))" and "set (connection_list order cs) = {(v, c). cs v = Some c}"
  using assms by (force simp: visits_def connection_list_def comp_def)+

definition newest_generation :: "sidecar_manager \<Rightarrow> bool" where
  "newest_generation m \<longleftrightarrow> (\<forall>k. \<forall>(g, _) \<in> set (proxies_of m k). g < sm_counter m)"

lemma register_sidecar_proxies:
  assumes "newest_generation m" and "register_sidecar m env workload c = (g, m')"
  shows "proxies_of m' k = (if k = (env, workload) then proxies_of m k @ [(sm_counter m, c)] else proxies_of m k)"
    and "sm_counter m' = Suc (sm_counter m)"
  using assms(1) proxy_table(1,2) [of m "(env, workload)" c] assms(2)
  by (auto simp: newest_generation_def btree_insert_last)

lemma register_sidecar_clients:
  "newest_generation m \<Longrightarrow> register_sidecar m env workload c = (g, m')
    \<Longrightarrow> client_for m' e v = (if e = env \<and> v = workload then Some c else client_for m e v)"
  by (simp add: client_for_proxies register_sidecar_proxies)

lemma register_sidecar_frame:
  assumes "register_sidecar m env workload c = (g, m')"
  shows "sm_snapshots m' = sm_snapshots m" and "sm_cluster_client m' = sm_cluster_client m"
    and "latest_clients_for_environment m' env \<noteq> None"
  using assms by (auto simp: register_sidecar_def Let_def latest_clients_for_environment_def)


section \<open>Manager and sidecars agree\<close>

text \<open>
  The manager with its sidecars, calls being delivered. An environment is \<open>personal\<close> when it is not shared: its
  routes have no branch. A sidecar process that connects is fresh; of several processes of one workload the older
  ones disconnect first. A process whose registration fails is disconnected.
\<close>

definition fresh_sidecar :: "uuid \<Rightarrow> uuid \<Rightarrow> sidecar \<Rightarrow> bool" where
  "fresh_sidecar env v sc \<longleftrightarrow> sc_environment_id sc = env \<and> sc_workload_id sc = v \<and> rt_default_route (sc_table sc) = RouteLocal"

definition unregistered :: "nat \<Rightarrow> proxy_connection" where
  "unregistered c = \<lparr>px_client = c, px_generation = None, px_environment = None, px_workload = None\<rparr>"

inductive manager_step :: "key_order \<Rightarrow> (uuid \<Rightarrow> bool) \<Rightarrow> sidecar_manager \<times> sidecars \<Rightarrow> sidecar_manager \<times> sidecars \<Rightarrow> bool"
  for order personal where
  set_route: "(personal env \<Longrightarrow> cfg_branch_environment_id r = None)
    \<Longrightarrow> manager_set_devbox_route order delivered m env r w = (res, m', w') \<Longrightarrow> manager_step order personal (m, w) (m', w')"
| set_routes: "(\<And>v r. routes v = Some r \<Longrightarrow> cfg_workload_id r = v \<and> (personal env \<longrightarrow> cfg_branch_environment_id r = None))
    \<Longrightarrow> manager_set_devbox_routes order delivered m env routes w = (res, m', w') \<Longrightarrow> manager_step order personal (m, w) (m', w')"
| remove_route: "(personal env \<Longrightarrow> branch = None)
    \<Longrightarrow> manager_remove_devbox_route order delivered m env v branch w = (res, m', w') \<Longrightarrow> manager_step order personal (m, w) (m', w')"
| clear_routes: "(personal env \<Longrightarrow> branch = None)
    \<Longrightarrow> manager_clear_devbox_routes order delivered m env branch w = (res, m', w') \<Longrightarrow> manager_step order personal (m, w) (m', w')"
| upsert_service: "manager_upsert_branch_service_route order delivered m env v br w = (res, w') \<Longrightarrow> manager_step order personal (m, w) (m, w')"
| remove_service: "manager_remove_branch_service_route order delivered m env v b w = (res, w') \<Longrightarrow> manager_step order personal (m, w) (m, w')"
| connect: "(\<And>k. c \<notin> snd ` set (proxies_of m k)) \<Longrightarrow> fresh_sidecar env v sc
    \<Longrightarrow> register_sidecar_proxy order delivered api m (unregistered c) v env (w(c := sc)) = (Inr u, m', px', w')
    \<Longrightarrow> manager_step order personal (m, w) (m', w')"
| connect_failed: "(\<And>k. c \<notin> snd ` set (proxies_of m k)) \<Longrightarrow> fresh_sidecar env v sc
    \<Longrightarrow> register_sidecar_proxy order delivered api m (unregistered c) v env (w(c := sc)) = (Inl e, m', px', w')
    \<Longrightarrow> manager_step order personal (m, w) (handle_disconnect m' px', w')"
| disconnect: "px_environment px = Some env \<Longrightarrow> px_workload px = Some v \<Longrightarrow> px_generation px = Some g
    \<Longrightarrow> length (proxies_of m (env, v)) = 1 \<or> g \<noteq> fst (last (proxies_of m (env, v)))
    \<Longrightarrow> manager_step order personal (m, w) (handle_disconnect m px, w)"
| cluster_client: "manager_step order personal (m, w) (m\<lparr>sm_cluster_client := b\<rparr>, w)"

inductive_cases manager_stepE: "manager_step order personal s s'"

definition wanted_default :: "sidecar_manager \<Rightarrow> uuid \<Rightarrow> uuid \<Rightarrow> default_route" where
  "wanted_default m env v =
     (case snapshot_of m env v of None \<Rightarrow> RouteLocal | Some r \<Rightarrow> RouteDevbox (devbox_connection_from_config r env))"

definition connected_ids :: "sidecar_manager \<Rightarrow> sidecars \<Rightarrow> bool" where
  "connected_ids m w \<longleftrightarrow> newest_generation m
     \<and> (\<forall>env v. \<forall>(g, c) \<in> set (proxies_of m (env, v)). sc_environment_id (w c) = env \<and> sc_workload_id (w c) = v)"

definition good_snapshots :: "(uuid \<Rightarrow> bool) \<Rightarrow> sidecar_manager \<Rightarrow> bool" where
  "good_snapshots personal m \<longleftrightarrow> (\<forall>env v r. snapshot_of m env v = Some r \<longrightarrow>
     cfg_workload_id r = v \<and> (personal env \<longrightarrow> cfg_branch_environment_id r = None))"

definition in_sync :: "(uuid \<Rightarrow> bool) \<Rightarrow> sidecar_manager \<Rightarrow> sidecars \<Rightarrow> bool" where
  "in_sync personal m w \<longleftrightarrow> (\<forall>env v c. personal env \<longrightarrow> client_for m env v = Some c \<longrightarrow>
     rt_default_route (sc_table (w c)) = wanted_default m env v)"

definition manager_inv :: "(uuid \<Rightarrow> bool) \<Rightarrow> sidecar_manager \<times> sidecars \<Rightarrow> bool" where
  "manager_inv personal = (\<lambda>(m, w). connected_ids m w \<and> good_snapshots personal m \<and> in_sync personal m w)"

lemma client_ids:
  assumes "connected_ids m w" and "client_for m env v = Some c"
  shows "sc_environment_id (w c) = env" and "sc_workload_id (w c) = v"
proof -
  have "last (proxies_of m (env, v)) \<in> set (proxies_of m (env, v))" "snd (last (proxies_of m (env, v))) = c"
    using assms(2) by (auto simp: client_for_proxies split: if_splits)
  then obtain g where "(g, c) \<in> set (proxies_of m (env, v))" by (metis prod.collapse)
  with assms(1) show "sc_environment_id (w c) = env" "sc_workload_id (w c) = v" by (fastforce simp: connected_ids_def)+
qed

lemma same_connections:
  assumes "sm_proxies m' = sm_proxies m"
  shows "proxies_of m' = proxies_of m" and "client_for m' = client_for m"
    and "latest_clients_for_environment m' = latest_clients_for_environment m"
  using assms by (simp_all add: fun_eq_iff proxies_of_def client_for_def latest_clients_for_environment_def)

lemma connected_ids_calls:
  assumes "connected_ids m w" and "sm_proxies m' = sm_proxies m" and "sm_counter m' = sm_counter m"
  shows "connected_ids m' (call_each order msg cs w)"
  using assms(1,3) by (simp add: connected_ids_def newest_generation_def same_connections(1) [OF assms(2)])

text \<open>Calls to clients of one environment keep the agreement if each has the effect the new snapshots ask for.\<close>

lemma manager_inv_calls:
  assumes "manager_inv personal (m, w)" and "sm_proxies m' = sm_proxies m" and "sm_counter m' = sm_counter m"
    and "good_snapshots personal m'"
    and cs: "distinct (map fst cs)" "\<forall>(v, c) \<in> set cs. client_for m env v = Some c"
    and other: "\<And>e. e \<noteq> env \<Longrightarrow> wanted_default m' e = wanted_default m e"
    and same: "\<And>v. personal env \<Longrightarrow> v \<notin> fst ` set cs \<Longrightarrow> client_for m env v \<noteq> None
      \<Longrightarrow> wanted_default m' env v = wanted_default m env v"
    and effect: "\<And>v c. personal env \<Longrightarrow> (v, c) \<in> set cs \<Longrightarrow> sc_environment_id (w c) = env \<Longrightarrow> sc_workload_id (w c) = v
      \<Longrightarrow> rt_default_route (sc_table (w c)) = wanted_default m env v
      \<Longrightarrow> rt_default_route (sc_table (apply_rpc order (w c) (msg v))) = wanted_default m' env v"
  shows "manager_inv personal (m', call_each order msg cs w)"
proof -
  let ?w' = "call_each order msg cs w"
  from assms(1) have ids: "connected_ids m w" and sync: "in_sync personal m w" by (simp_all add: manager_inv_def)
  have "rt_default_route (sc_table (?w' c)) = wanted_default m' e v" if p: "personal e" and c: "client_for m e v = Some c" for e v c
  proof -
    note e = client_ids [OF ids c]
    have before: "rt_default_route (sc_table (w c)) = wanted_default m e v" using sync p c by (simp add: in_sync_def)
    have ids_cs: "env = e \<and> v' = v" if "(v', c) \<in> set cs" for v'
      using cs(2) that client_ids [OF ids, of env v' c] e by auto
    show ?thesis
    proof (cases "e = env \<and> (v, c) \<in> set cs")
      case True
      with ids_cs have "?w' c = apply_rpc order (w c) (msg v)" by (intro call_each_at [OF cs(1)]) auto
      with True p e before effect show ?thesis by simp
    next
      case False
      with ids_cs have "c \<notin> snd ` set cs" by auto
      moreover have "v \<notin> fst ` set cs" if "e = env" using False that cs(2) c by force
      ultimately show ?thesis
        using before c p other [of e] same [of v] by (cases "e = env") (simp_all add: call_each_other)
    qed
  qed
  then show ?thesis
    using connected_ids_calls [OF ids assms(2,3)] assms(4)
    by (simp add: manager_inv_def in_sync_def same_connections(2) [OF assms(2)])
qed

lemma manager_inv_quiet:
  assumes "manager_inv personal (m, w)" and "\<And>v. \<not> is_default_call (msg v)"
  shows "manager_inv personal (m, call_each order msg cs w)"
  using assms connected_ids_calls [of m w m order msg cs]
  by (auto simp: manager_inv_def in_sync_def call_each_keeps_default)

text \<open>The connections an operation reaches, and each operation as one round of calls.\<close>

definition reached :: "sidecar_manager \<Rightarrow> uuid \<Rightarrow> uuid \<Rightarrow> (uuid \<times> nat) list" where
  "reached m env v = (case client_for m env v of None \<Rightarrow> [] | Some c \<Rightarrow> [(v, c)])"

definition reached_all :: "key_order \<Rightarrow> sidecar_manager \<Rightarrow> uuid \<Rightarrow> (uuid \<times> nat) list" where
  "reached_all order m env = (case latest_clients_for_environment m env of None \<Rightarrow> [] | Some cs \<Rightarrow> connection_list order cs)"

lemma reached_clients:
  "distinct (map fst (reached m env v))" "\<forall>(v', c) \<in> set (reached m env v). client_for m env v' = Some c"
  "u \<notin> fst ` set (reached m env v) \<Longrightarrow> client_for m env u \<noteq> None \<Longrightarrow> u \<noteq> v"
  "(u, c) \<in> set (reached m env v) \<Longrightarrow> u = v"
  by (auto simp: reached_def split: option.splits)

lemma reached_all_clients:
  assumes "visits order"
  shows "distinct (map fst (reached_all order m env))"
    and "\<forall>(v, c) \<in> set (reached_all order m env). client_for m env v = Some c"
    and "client_for m env v \<noteq> None \<Longrightarrow> v \<in> fst ` set (reached_all order m env)"
  by (cases "latest_clients_for_environment m env"; force simp: reached_all_def client_for_def visits_list [OF assms])+

lemma snapshots_frame [simp]:
  "sm_proxies (upsert_devbox_route_snapshot m env r) = sm_proxies m" "sm_counter (upsert_devbox_route_snapshot m env r) = sm_counter m"
  "sm_proxies (snd (remove_devbox_route_snapshot m env v b)) = sm_proxies m"
  "sm_counter (snd (remove_devbox_route_snapshot m env v b)) = sm_counter m"
  "sm_proxies (prune_devbox_route_snapshot m env b) = sm_proxies m" "sm_counter (prune_devbox_route_snapshot m env b) = sm_counter m"
  by (simp_all add: upsert_devbox_route_snapshot_def remove_devbox_route_snapshot_def prune_devbox_route_snapshot_def Let_def
      split: option.splits)

lemma set_devbox_route_calls:
  "manager_set_devbox_route order delivered m env r w = (Ok (), upsert_devbox_route_snapshot m env r,
     call_each order (\<lambda>_. SetDevboxRoute r) (reached m env (cfg_workload_id r)) w)"
  by (simp add: manager_set_devbox_route_def reached_def same_connections(2) [of "upsert_devbox_route_snapshot m env r" m] Let_def
      split: option.splits)

lemma set_devbox_routes_calls:
  assumes "visits order"
  shows "manager_set_devbox_routes order delivered m env routes w = (Ok (), m\<lparr>sm_snapshots := (sm_snapshots m)(env \<mapsto> routes)\<rparr>,
     call_each order (\<lambda>v. case routes v of Some r \<Rightarrow> SetDevboxRoute r
       | None \<Rightarrow> StopDevbox (Option.bind (snapshot_of m env v) cfg_branch_environment_id)) (reached_all order m env) w)"
  by (simp add: manager_set_devbox_routes_def reached_all_def Let_def push_devbox_routes_delivered visits_list [OF assms]
      same_connections(3) [of "m\<lparr>sm_snapshots := (sm_snapshots m)(env \<mapsto> routes)\<rparr>" m] split: option.splits)

lemma remove_devbox_route_calls:
  "manager_remove_devbox_route order delivered m env v branch w =
     (let (removed, m') = remove_devbox_route_snapshot m env v branch
      in (Ok (), m', if removed then call_each order (\<lambda>_. StopDevbox branch) (reached m env v) w else w))"
proof -
  obtain removed m' where r: "remove_devbox_route_snapshot m env v branch = (removed, m')" by force
  then have "sm_proxies m' = sm_proxies m" using snapshots_frame(3) [of m env v branch] by simp
  then show ?thesis
    using r by (simp add: manager_remove_devbox_route_def reached_def same_connections(2) [of m' m] split: option.splits)
qed

lemma clear_devbox_routes_calls:
  "manager_clear_devbox_routes order delivered m env branch w = (Ok (), prune_devbox_route_snapshot m env branch,
     call_each order (\<lambda>_. StopDevbox branch) (reached_all order m env) w)"
  by (simp add: manager_clear_devbox_routes_def reached_all_def Let_def stop_all_delivered
      same_connections(3) [of "prune_devbox_route_snapshot m env branch" m] split: option.splits)

lemma snapshots_after:
  "snapshot_of (upsert_devbox_route_snapshot m env r) e
     = (if e = env then (snapshot_of m env)(cfg_workload_id r \<mapsto> r) else snapshot_of m e)"
  "snapshot_of (m\<lparr>sm_snapshots := (sm_snapshots m)(env \<mapsto> routes)\<rparr>) e = (if e = env then routes else snapshot_of m e)"
  "snapshot_of (snd (remove_devbox_route_snapshot m env v b)) e
     = (if e = env \<and> fst (remove_devbox_route_snapshot m env v b) then (snapshot_of m env)(v := None) else snapshot_of m e)"
  "fst (remove_devbox_route_snapshot m env v b) \<longleftrightarrow> (\<exists>r. snapshot_of m env v = Some r \<and> cfg_branch_environment_id r = b)"
  "snapshot_of (prune_devbox_route_snapshot m env b) e
     = (if e = env then (\<lambda>v. case snapshot_of m env v of None \<Rightarrow> None | Some r \<Rightarrow> if kept_by_prune b r then Some r else None)
        else snapshot_of m e)"
  by (auto simp: snapshot_of_def upsert_devbox_route_snapshot_def remove_devbox_route_snapshot_def prune_devbox_route_snapshot_def
      set_or_remove_def entry_or_def Let_def fun_eq_iff split: option.splits)

lemmas default_after = apply_rpc_default [of _ _ "SetDevboxRoute r" for r, simplified]
  apply_rpc_default [of _ _ "StopDevbox branch" for branch, simplified]

lemmas sync_simps = wanted_default_def snapshots_after default_after

lemma inv_snapshots: "manager_inv personal (m, w) \<Longrightarrow> snapshot_of m env v = Some r
    \<Longrightarrow> cfg_workload_id r = v \<and> (personal env \<longrightarrow> cfg_branch_environment_id r = None)"
  by (simp add: manager_inv_def good_snapshots_def)

lemma inv_set_route:
  assumes inv: "manager_inv personal (m, w)" and "personal env \<Longrightarrow> cfg_branch_environment_id r = None"
    and run: "manager_set_devbox_route order delivered m env r w = (res, m', w')"
  shows "manager_inv personal (m', w')"
proof -
  have m': "m' = upsert_devbox_route_snapshot m env r" and w': "w' = call_each order (\<lambda>_. SetDevboxRoute r) (reached m env (cfg_workload_id r)) w"
    using run by (simp_all add: set_devbox_route_calls)
  have "good_snapshots personal m'"
    using inv_snapshots [OF inv] assms(2) by (auto simp: good_snapshots_def m' snapshots_after split: if_splits)
  then show ?thesis
    unfolding w' using assms(2)
    by (intro manager_inv_calls [OF inv, of _ _ env])
      (auto simp: m' sync_simps reached_clients(1,2) dest: reached_clients(3,4) intro!: ext)
qed

lemma inv_set_routes:
  assumes ord: "visits order" and inv: "manager_inv personal (m, w)"
    and routes: "\<And>v r. routes v = Some r \<Longrightarrow> cfg_workload_id r = v \<and> (personal env \<longrightarrow> cfg_branch_environment_id r = None)"
    and run: "manager_set_devbox_routes order delivered m env routes w = (res, m', w')"
  shows "manager_inv personal (m', w')"
proof -
  let ?msg = "\<lambda>v. case routes v of Some r \<Rightarrow> SetDevboxRoute r
    | None \<Rightarrow> StopDevbox (Option.bind (snapshot_of m env v) cfg_branch_environment_id)"
  have m': "m' = m\<lparr>sm_snapshots := (sm_snapshots m)(env \<mapsto> routes)\<rparr>" and w': "w' = call_each order ?msg (reached_all order m env) w"
    using run by (simp_all add: set_devbox_routes_calls [OF ord])
  have "good_snapshots personal m'"
    using inv_snapshots [OF inv] routes by (auto simp: good_snapshots_def m' snapshots_after split: if_splits)
  moreover have "Option.bind (snapshot_of m env v) cfg_branch_environment_id = None" if "personal env" for v
    using inv_snapshots [OF inv, of env v] that by (cases "snapshot_of m env v") auto
  ultimately show ?thesis
    unfolding w' using routes reached_all_clients(3) [OF ord, of m env]
    by (intro manager_inv_calls [OF inv, of _ _ env])
      (auto simp: m' sync_simps reached_all_clients(1,2) [OF ord] intro!: ext split: option.splits)
qed

lemma inv_remove_route:
  assumes inv: "manager_inv personal (m, w)" and branch: "personal env \<Longrightarrow> branch = None"
    and run: "manager_remove_devbox_route order delivered m env v branch w = (res, m', w')"
  shows "manager_inv personal (m', w')"
proof -
  have m': "m' = snd (remove_devbox_route_snapshot m env v branch)"
    and w': "w' = call_each order (\<lambda>_. StopDevbox branch)
      (if fst (remove_devbox_route_snapshot m env v branch) then reached m env v else []) w"
    using run by (auto simp: remove_devbox_route_calls Let_def split: prod.splits)
  have "good_snapshots personal m'"
    using inv_snapshots [OF inv] by (auto simp: good_snapshots_def m' snapshots_after(3) split: if_splits)
  then show ?thesis
    unfolding w' using branch
    by (intro manager_inv_calls [OF inv, of _ _ env])
      (auto simp: m' wanted_default_def snapshots_after(3) default_after reached_def intro!: ext split: if_splits option.splits)
qed

lemma inv_clear_routes:
  assumes ord: "visits order" and inv: "manager_inv personal (m, w)" and branch: "personal env \<Longrightarrow> branch = None"
    and run: "manager_clear_devbox_routes order delivered m env branch w = (res, m', w')"
  shows "manager_inv personal (m', w')"
proof -
  have m': "m' = prune_devbox_route_snapshot m env branch" and w': "w' = call_each order (\<lambda>_. StopDevbox branch) (reached_all order m env) w"
    using run by (simp_all add: clear_devbox_routes_calls)
  have "good_snapshots personal m'"
    using inv_snapshots [OF inv] by (auto simp: good_snapshots_def m' snapshots_after split: if_splits option.splits)
  then show ?thesis
    unfolding w' using branch inv_snapshots [OF inv, of env] reached_all_clients(3) [OF ord, of m env]
    by (intro manager_inv_calls [OF inv, of _ _ env])
      (auto simp: m' sync_simps kept_by_prune_def reached_all_clients(1,2) [OF ord] intro!: ext split: option.splits)
qed

text \<open>Calls about services, connections that come and go.\<close>

lemma service_calls:
  "manager_upsert_branch_service_route order delivered m env v br w
     = (Ok (), call_each order (\<lambda>_. UpsertBranchServiceRoute br) (reached m env v) w)"
  "manager_remove_branch_service_route order delivered m env v b w
     = (Ok (), call_each order (\<lambda>_. RemoveBranchServiceRoute b) (reached m env v) w)"
  by (simp_all add: manager_upsert_branch_service_route_def manager_remove_branch_service_route_def reached_def split: option.splits)

lemma inv_service_calls:
  assumes "manager_inv personal (m, w)"
  shows "manager_inv personal (m, snd (set_service_routes_if_registered order delivered api m' env w))"
proof (cases "latest_clients_for_environment m' env")
  case (Some cs)
  obtain cs' where "snd (push_service_routes order delivered api (connection_list order cs) w)
      = call_each order (\<lambda>workload. SetServiceRoutes (projr (api workload))) cs' w"
    using push_service_routes_calls by blast
  with Some show ?thesis
    using manager_inv_quiet [OF assms] by (simp add: set_service_routes_if_registered_def is_default_call_def assms)
qed (simp add: set_service_routes_if_registered_def assms)

lemma manager_inv_fewer:
  assumes inv: "manager_inv personal (m, w)" and snapshots: "sm_snapshots m' = sm_snapshots m"
    and counter: "sm_counter m \<le> sm_counter m'"
    and fewer: "\<And>k. set (proxies_of m' k) \<subseteq> set (proxies_of m k)"
    and clients: "\<And>e u. client_for m' e u \<in> {None, client_for m e u}"
  shows "manager_inv personal (m', w)"
proof -
  have snap: "snapshot_of m' = snapshot_of m" using snapshots by (simp add: fun_eq_iff snapshot_of_def)
  have "connected_ids m' w"
    using inv fewer counter unfolding manager_inv_def connected_ids_def newest_generation_def
    by (fastforce dest: subsetD)
  moreover have "client_for m e u = Some c" if "client_for m' e u = Some c" for e u c
    using clients [of e u] that by auto
  then have "in_sync personal m' w"
    using inv by (simp add: manager_inv_def in_sync_def wanted_default_def snap)
  ultimately show ?thesis
    using inv by (simp add: manager_inv_def good_snapshots_def snap)
qed

lemma manager_inv_new_process:
  assumes inv: "manager_inv personal (m, w)" and c: "\<And>k. c \<notin> snd ` set (proxies_of m k)"
  shows "manager_inv personal (m, w(c := sc))"
proof -
  have "c' \<noteq> c" if "client_for m e u = Some c'" for e u c'
    using that c last_in_set [of "proxies_of m (e, u)"] by (fastforce simp: client_for_proxies split: if_splits)
  moreover have "c' \<noteq> c" if "(g, c') \<in> set (proxies_of m k)" for g c' k using c [of k] that by (metis image_eqI snd_conv)
  ultimately show ?thesis
    using inv by (fastforce simp: manager_inv_def connected_ids_def in_sync_def)
qed

lemma manager_inv_cong:
  assumes "sm_proxies m' = sm_proxies m" and "sm_counter m' = sm_counter m" and "snapshot_of m' = snapshot_of m"
  shows "manager_inv personal (m', w) = manager_inv personal (m, w)"
  by (simp add: manager_inv_def connected_ids_def newest_generation_def good_snapshots_def in_sync_def wanted_default_def
      same_connections(1,2) [OF assms(1)] assms(2,3))

lemma inv_disconnect:
  assumes inv: "manager_inv personal (m, w)" and "px_environment px = Some env" and "px_workload px = Some v" and "px_generation px = Some g"
    and es: "length (proxies_of m (env, v)) = 1 \<or> g \<noteq> fst (last (proxies_of m (env, v)))"
  shows "manager_inv personal (handle_disconnect m px, w)"
proof -
  let ?m = "remove_sidecar m env v g"
  have proxies: "proxies_of ?m k = (if k = (env, v) then btree_remove g (proxies_of m k) else proxies_of m k)" for k
    using proxy_table(3) [of m "(env, v)" g k] by auto
  have last: "last (btree_remove g xs) = last xs" if "xs \<noteq> []" "g \<noteq> fst (last xs)" for xs :: "(nat \<times> nat) list"
    using that by (cases xs rule: rev_cases; simp add: btree_remove_def case_prod_unfold)+
  have "client_for ?m e u \<in> {None, client_for m e u}" for e u
  proof (cases "(e, u) = (env, v)")
    case True
    have "xs = [] \<or> last xs = last (proxies_of m (env, v))" if "xs = btree_remove g (proxies_of m (env, v))" for xs
      using es
    proof
      assume "length (proxies_of m (env, v)) = 1"
      then obtain x where "proxies_of m (env, v) = [x]" by (auto simp: length_Suc_conv)
      with that show ?thesis by (auto simp: btree_remove_def)
    next
      assume "g \<noteq> fst (last (proxies_of m (env, v)))"
      with that last(1) show ?thesis by (cases "proxies_of m (env, v) = []") auto
    qed
    with True show ?thesis by (auto simp: client_for_proxies proxies)
  qed (auto simp: client_for_proxies proxies)
  moreover have "set (proxies_of ?m k) \<subseteq> set (proxies_of m k)" for k by (auto simp: proxies btree_remove_def)
  moreover have "sm_snapshots ?m = sm_snapshots m" "sm_counter m \<le> sm_counter ?m"
    by (simp_all add: remove_sidecar_def Let_def split: option.splits)
  ultimately have "manager_inv personal (?m, w)" by (intro manager_inv_fewer [OF inv])
  with assms(2-4) show ?thesis by (simp add: handle_disconnect_def)
qed

text \<open>A fresh process agrees with a manager that has no route for its workload: the route is then replayed.\<close>

definition forget_route :: "sidecar_manager \<Rightarrow> uuid \<Rightarrow> uuid \<Rightarrow> sidecar_manager" where
  "forget_route m env v = m\<lparr>sm_snapshots := (sm_snapshots m)(env \<mapsto> (snapshot_of m env)(v := None))\<rparr>"

lemma forget_route_simps [simp]:
  "sm_proxies (forget_route m env v) = sm_proxies m" "sm_counter (forget_route m env v) = sm_counter m"
  "snapshot_of (forget_route m env v) e = (if e = env then (snapshot_of m env)(v := None) else snapshot_of m e)"
  by (simp_all add: forget_route_def snapshot_of_def entry_or_def)

lemma inv_register:
  assumes "manager_inv personal (m, w)" and "\<And>k. c \<notin> snd ` set (proxies_of m k)"
    and sc: "fresh_sidecar env v sc" and reg: "register_sidecar m env v c = (g, m')"
  shows "manager_inv personal (forget_route m' env v, w(c := sc))"
proof -
  let ?w = "w(c := sc)"
  have inv: "manager_inv personal (m, ?w)" by (rule manager_inv_new_process [OF assms(1,2)])
  then have new: "newest_generation m" by (simp add: manager_inv_def connected_ids_def)
  note proxies = register_sidecar_proxies [OF new reg]
  have snap: "snapshot_of m' = snapshot_of m" by (simp add: fun_eq_iff snapshot_of_def register_sidecar_frame(1) [OF reg])
  have "connected_ids m' ?w"
    using inv sc unfolding manager_inv_def connected_ids_def newest_generation_def fresh_sidecar_def proxies
    by (fastforce simp: less_Suc_eq split: if_splits)
  then have "connected_ids (forget_route m' env v) ?w"
    by (simp add: connected_ids_def newest_generation_def same_connections(1) [of "forget_route m' env v" m'])
  moreover have "good_snapshots personal (forget_route m' env v)"
    using inv by (auto simp: manager_inv_def good_snapshots_def snap)
  moreover have "in_sync personal (forget_route m' env v) ?w"
    using inv sc by (auto simp: manager_inv_def in_sync_def wanted_default_def snap fresh_sidecar_def
        same_connections(2) [of "forget_route m' env v" m'] register_sidecar_clients [OF new reg])
  ultimately show ?thesis by (simp add: manager_inv_def)
qed

lemma replay_calls:
  "snapshot_of m env v = Some r \<Longrightarrow>
     snd (replay_devbox_route order delivered m env v w) = call_each order (\<lambda>_. SetDevboxRoute r) (reached m env v) w"
  by (simp add: replay_devbox_route_def reached_def split: option.splits)

lemma inv_connect:
  assumes "manager_inv personal (m, w)" and "\<And>k. c \<notin> snd ` set (proxies_of m k)" and "fresh_sidecar env v sc"
    and run: "register_sidecar_proxy order delivered api m (unregistered c) v env (w(c := sc)) = (Inr u, m', px', w')"
  shows "manager_inv personal (m', w')"
proof -
  obtain g where reg: "register_sidecar m env v c = (g, m')"
    and w': "w' = snd (replay_devbox_route order delivered m' env v
      (snd (set_service_routes_if_registered order delivered api m' env (w(c := sc)))))"
    using run by (auto simp: register_sidecar_proxy_def unregistered_def Let_def split: prod.splits sum.splits)
  let ?f = "forget_route m' env v" and ?w = "snd (set_service_routes_if_registered order delivered api m' env (w(c := sc)))"
  from inv_register [OF assms(1-3) reg] have inv: "manager_inv personal (?f, ?w)" by (rule inv_service_calls)
  show ?thesis
  proof (cases "snapshot_of m' env v")
    case None
    then have "snapshot_of ?f = snapshot_of m'" by (auto simp: fun_eq_iff)
    then have "manager_inv personal (m', ?w)" using inv manager_inv_cong [of ?f m'] by simp
    with None show ?thesis by (simp add: w' replay_devbox_route_def)
  next
    case (Some r)
    have "snapshot_of m = snapshot_of m'" by (simp add: fun_eq_iff snapshot_of_def register_sidecar_frame(1) [OF reg])
    then have r: "cfg_workload_id r = v" "personal env \<Longrightarrow> cfg_branch_environment_id r = None"
      using inv_snapshots [OF assms(1)] Some by auto
    have "manager_inv personal (upsert_devbox_route_snapshot ?f env r, w')"
      using replay_calls [OF Some] r(1)
      by (intro inv_set_route [OF inv r(2)])
        (simp_all add: set_devbox_route_calls w' reached_def same_connections(2) [of ?f m'])
    moreover have "snapshot_of (upsert_devbox_route_snapshot ?f env r) = snapshot_of m'"
      using Some r(1) by (auto simp: fun_eq_iff snapshots_after(1))
    ultimately show ?thesis
      using manager_inv_cong [of "upsert_devbox_route_snapshot ?f env r" m'] by simp
  qed
qed

lemma inv_connect_failed:
  assumes inv: "manager_inv personal (m, w)" and c: "\<And>k. c \<notin> snd ` set (proxies_of m k)"
    and run: "register_sidecar_proxy order delivered api m (unregistered c) v env (w(c := sc)) = (Inl e, m', px', w')"
  shows "manager_inv personal (handle_disconnect m' px', w')"
proof -
  obtain g where reg: "register_sidecar m env v c = (g, m')"
    and px': "handle_disconnect m' px' = remove_sidecar m' env v g"
    and w': "w' = snd (set_service_routes_if_registered order delivered api m' env (w(c := sc)))"
    using run by (auto simp: register_sidecar_proxy_def unregistered_def handle_disconnect_def Let_def split: prod.splits sum.splits)
  let ?m = "remove_sidecar m' env v g"
  from inv have new: "newest_generation m" by (simp add: manager_inv_def connected_ids_def)
  have g: "g = sm_counter m" using reg by (simp add: register_sidecar_def Let_def)
  have gone: "btree_remove (sm_counter m) (proxies_of m k) = proxies_of m k" for k
  proof -
    have "g' < sm_counter m" if "(g', c') \<in> set (proxies_of m k)" for g' c'
      using bspec [OF spec [OF new [unfolded newest_generation_def], of k] that] by simp
    then show ?thesis by (intro btree_remove_absent) (metis imageE less_irrefl surjective_pairing)
  qed
  have proxies: "proxies_of ?m k = proxies_of m k" for k
    using proxy_table(3) [of m' "(env, v)" g k] register_sidecar_proxies(1) [OF new reg] gone
    by (auto simp: g btree_remove_def)
  have "sm_snapshots ?m = sm_snapshots m" "sm_counter m \<le> sm_counter ?m"
    using register_sidecar_frame(1) [OF reg] register_sidecar_proxies(2) [OF new reg]
    by (simp_all add: remove_sidecar_def Let_def split: option.splits)
  then have "manager_inv personal (?m, w(c := sc))"
    using proxies by (intro manager_inv_fewer [OF manager_inv_new_process [OF inv c]]) (simp_all add: client_for_proxies)
  from inv_service_calls [OF this] show ?thesis by (simp add: px' w')
qed

lemma manager_inv_step:
  assumes "visits order" and "manager_step order personal s s'" and "manager_inv personal s"
  shows "manager_inv personal s'"
  using assms(2,3)
proof cases
  case set_route
  with assms(3) show ?thesis by (auto intro: inv_set_route)
next
  case set_routes
  show ?thesis
    unfolding set_routes(2) by (rule inv_set_routes [OF assms(1) _ _ set_routes(4)]) (use assms(3) set_routes(1,3) in blast)+
next
  case remove_route
  with assms(3) show ?thesis by (auto intro: inv_remove_route)
next
  case clear_routes
  with assms(3) show ?thesis by (auto intro: inv_clear_routes [OF assms(1)])
next
  case upsert_service
  with assms(3) show ?thesis by (auto simp: service_calls is_default_call_def intro!: manager_inv_quiet)
next
  case remove_service
  with assms(3) show ?thesis by (auto simp: service_calls is_default_call_def intro!: manager_inv_quiet)
next
  case connect
  show ?thesis
    unfolding connect(2) by (rule inv_connect [OF _ _ connect(4,5)]) (use assms(3) connect(1,3) in blast)+
next
  case connect_failed
  show ?thesis
    unfolding connect_failed(2) by (rule inv_connect_failed [OF _ _ connect_failed(5)]) (use assms(3) connect_failed(1,3) in blast)+
next
  case disconnect
  with assms(3) show ?thesis by (auto intro: inv_disconnect)
next
  case (cluster_client m w b)
  with assms(3) show ?thesis
    using manager_inv_cong [of "m\<lparr>sm_cluster_client := b\<rparr>" m] by (simp add: fun_eq_iff snapshot_of_def)
qed


section \<open>One route per workload\<close>

lemma set_devbox_route_other:
  assumes "cfg_branch_environment_id r = Some b2" and "b1 \<noteq> b2"
  shows "resolve_http ks (sc_table (set_devbox_route sc r)) port (Some b1) = resolve_http ks (sc_table sc) port (Some b1)"
proof -
  let ?t = "sc_table (set_devbox_route sc r)"
  have "branch_routes ?t b1 = branch_routes (sc_table sc) b1" "rt_default_route ?t = rt_default_route (sc_table sc)"
    "port_routes ?t = port_routes (sc_table sc)"
    using assms by (simp_all add: set_devbox_route_def table_simps Let_def)
  then show ?thesis
    by (simp add: resolve_http_def target_port_for_service_def cong: option.case_cong default_route.case_cong)
qed

text \<open>
  The manager remembers one devbox route for each workload of an environment. After the devboxes of two
  branches have been attached to one workload, the removal of the first succeeds and does nothing: the requests
  of its branch still go to the devbox.
\<close>

theorem second_branch_hides_first:
  assumes "client_for m env v = Some c" and "sc_workload_id (w c) = v" and "cfg_workload_id r1 = v" and "cfg_workload_id r2 = v"
    and "cfg_branch_environment_id r1 = Some b1" and "cfg_branch_environment_id r2 = Some b2" and "b1 \<noteq> b2"
    and "branch_routes (sc_table (w c)) b1 \<noteq> None"
    and first: "manager_set_devbox_route order delivered m env r1 w = (res1, m1, w1)"
    and second: "manager_set_devbox_route order delivered m1 env r2 w1 = (res2, m2, w2)"
  shows "manager_remove_devbox_route order link m2 env v (Some b1) w2 = (Ok (), m2, w2)
    \<and> resolve_http ks (sc_table (w2 c)) port (Some b1) = devbox_decision r1 (sc_environment_id (w c)) port"
proof -
  have m1: "m1 = upsert_devbox_route_snapshot m env r1" and w1: "w1 = w(c := set_devbox_route (w c) r1)"
    using first assms(1,3) by (simp_all add: set_devbox_route_calls reached_def)
  have m2: "m2 = upsert_devbox_route_snapshot m1 env r2" and w2: "w2 = w1(c := set_devbox_route (w1 c) r2)"
    using second assms(1,4) by (simp_all add: m1 set_devbox_route_calls reached_def same_connections(2) [of "upsert_devbox_route_snapshot m env r1" m])
  have "snapshot_of m2 env v = Some r2" using assms(4) by (simp add: m2 snapshots_after(1))
  then have "remove_devbox_route_snapshot m2 env v (Some b1) = (False, m2)"
    using assms(6,7) by (auto simp: remove_devbox_route_snapshot_def snapshot_of_def entry_or_def set_or_remove_def fun_upd_idem
        split: option.splits)
  moreover have "resolve_http ks (sc_table (w2 c)) port (Some b1) = resolve_http ks (sc_table (w1 c)) port (Some b1)"
    using set_devbox_route_other [OF assms(6)] assms(7) by (simp add: w2)
  ultimately show ?thesis
    using set_devbox_route_decides [of r1 "w c" ks port] assms(2,3,5,8)
    by (simp add: manager_remove_devbox_route_def w1)
qed

text \<open>
  Sending the routes of one branch again (or of one user) replaces the whole memory of the base environment:
  a devbox that another branch has attached to a workload without a route in the new set is detached, and its route
  is forgotten.
\<close>

theorem resync_detaches_other_branches:
  assumes "visits order" and "connected_ids m w" and "client_for m env v = Some c"
    and "snapshot_of m env v = Some r" and "cfg_branch_environment_id r = Some b" and "routes v = None"
    and "branch_routes (sc_table (w c)) b = Some br"
    and run: "manager_set_devbox_routes order delivered m env routes w = (res, m', w')"
  shows "snapshot_of m' env v = None
    \<and> resolve_http ks (sc_table (w' c)) port (Some b) = BranchService (br_service br)"
proof -
  let ?msg = "\<lambda>v. case routes v of Some r \<Rightarrow> SetDevboxRoute r
    | None \<Rightarrow> StopDevbox (Option.bind (snapshot_of m env v) cfg_branch_environment_id)"
  let ?cs = "reached_all order m env"
  have m': "m' = m\<lparr>sm_snapshots := (sm_snapshots m)(env \<mapsto> routes)\<rparr>" and w': "w' = call_each order ?msg ?cs w"
    using run by (simp_all add: set_devbox_routes_calls [OF assms(1)])
  note all = reached_all_clients [OF assms(1), of m env]
  have in_cs: "(v, c) \<in> set ?cs" using all(2,3) assms(3) by fastforce
  have "\<forall>(v', c') \<in> set ?cs. c' = c \<longrightarrow> v' = v"
  proof safe
    fix v' assume "(v', c) \<in> set ?cs"
    then have "client_for m env v' = Some c" using all(2) by fastforce
    then show "v' = v" using client_ids(2) [OF assms(2)] assms(3) by metis
  qed
  then have "w' c = apply_rpc order (w c) (?msg v)"
    unfolding w' by (rule call_each_at [OF all(1) in_cs])
  then show ?thesis
    using assms(4-7) by (cases "br_mode br") (auto simp: m' snapshots_after(2) stop_devbox_def remove_branch_devbox_def resolve_http_def Let_def)
qed

section \<open>Witnesses\<close>

text \<open>The sidecar of workload 12 in environment 1 is connected; it knows the branches 2 and 3.\<close>

definition ex_route :: "uuid option \<Rightarrow> devbox_route_config" where
  "ex_route branch = \<lparr>cfg_intercept_id = 21, cfg_workload_id = 12, cfg_auth_token = ''t'', cfg_websocket_url = ''wss://x'',
     cfg_path_pattern = ''/*'', cfg_branch_environment_id = branch, cfg_created_at_epoch_seconds = None,
     cfg_expires_at_epoch_seconds = None, cfg_port_mappings = [80 \<mapsto> 3000]\<rparr>"

definition ex_manager :: sidecar_manager where
  "ex_manager = \<lparr>sm_proxies = [1 \<mapsto> [12 \<mapsto> [(1, 5)]]], sm_counter = 2, sm_cluster_client = True,
     sm_snapshots = [1 \<mapsto> [12 \<mapsto> ex_route (Some 2)]]\<rparr>"

definition ex_sidecars :: sidecars where
  "ex_sidecars = (\<lambda>_. ex_sidecar)"

definition ex_branch_config :: proxy_branch_route_config where
  "ex_branch_config = \<lparr>brc_branch_environment_id = 2, brc_service_names = [80 \<mapsto> ''web-2''], brc_headers = Map.empty,
     brc_requires_auth = True, brc_access_level = ProxyPersonal, brc_timeout_ms = None, brc_devbox_route = None\<rparr>"

lemma visits_sorted: "visits sorted_list_of_set"
  by (simp add: visits_def)

lemma ex_proxies: "proxies_of ex_manager k = (if k = (1, 12) then [(1, 5)] else [])"
  by (auto simp: proxies_of_def ex_manager_def entry_or_def split: prod.splits)

lemma ex_client: "client_for ex_manager env v = (if env = 1 \<and> v = 12 then Some 5 else None)"
  by (simp add: client_for_proxies ex_proxies)

lemmas ex_simps = ex_client ex_sidecars_def ex_sidecar_def ex_route_def ex_table_def

theorem devbox_route_takes_effect_witness:
  "\<exists>m' w'. manager_set_devbox_route sorted_list_of_set delivered ex_manager 1 (ex_route (Some 3)) ex_sidecars = (Ok (), m', w')
    \<and> resolve_http [] (sc_table (w' 5)) 80 (Some 3) = devbox_decision (ex_route (Some 3)) 1 80"
  using devbox_route_takes_effect [of ex_manager 1 "ex_route (Some 3)" 5 delivered ex_sidecars sorted_list_of_set "[]" 80]
  by (auto simp: ex_simps)



theorem second_branch_hides_first_witness:
  "\<exists>m2 w2. manager_remove_devbox_route sorted_list_of_set delivered m2 1 12 (Some 2) w2 = (Ok (), m2, w2)
    \<and> resolve_http [] (sc_table (w2 5)) 80 (Some 2) = devbox_decision (ex_route (Some 2)) 1 80"
proof -
  let ?set = "manager_set_devbox_route sorted_list_of_set delivered"
  obtain res1 m1 w1 where "?set ex_manager 1 (ex_route (Some 2)) ex_sidecars = (res1, m1, w1)" by (metis prod_cases3)
  moreover obtain res2 m2 w2 where "?set m1 1 (ex_route (Some 3)) w1 = (res2, m2, w2)" by (metis prod_cases3)
  ultimately show ?thesis
    using second_branch_hides_first [of ex_manager 1 12 5 ex_sidecars "ex_route (Some 2)" "ex_route (Some 3)" 2 3
        sorted_list_of_set res1 m1 w1 res2 m2 w2 delivered "[]" 80]
    by (auto simp: ex_simps)
qed

theorem resync_detaches_other_branches_witness:
  "\<exists>m' w'. manager_set_devbox_routes sorted_list_of_set delivered ex_manager 1 Map.empty ex_sidecars = (Ok (), m', w')
    \<and> resolve_http [] (sc_table (ex_sidecars 5)) 80 (Some 2) = BranchDevbox 2 ex_connection 3000
    \<and> resolve_http [] (sc_table (w' 5)) 80 (Some 2) = BranchService (new_service 80 ''web-2'')"
proof -
  obtain m' w' where run: "manager_set_devbox_routes sorted_list_of_set delivered ex_manager 1 Map.empty ex_sidecars = (Ok (), m', w')"
    by (simp add: set_devbox_routes_calls [OF visits_sorted])
  have "connected_ids ex_manager ex_sidecars"
    by (simp add: connected_ids_def newest_generation_def ex_proxies ex_sidecars_def ex_sidecar_def) (simp add: ex_manager_def)
  moreover have "snapshot_of ex_manager 1 12 = Some (ex_route (Some 2))" by (simp add: snapshot_of_def ex_manager_def entry_or_def)
  ultimately show ?thesis
    using resync_detaches_other_branches [OF visits_sorted _ _ _ _ _ _ run, of 12 5 "ex_route (Some 2)" 2
        "\<lparr>br_service = new_service 80 ''web-2'', br_mode = ModeDevbox ex_connection\<rparr>" "[]" 80] run
    by (simp add: ex_simps resolve_http_def resolve_target_port_def ex_connection_def)
qed

end
