(* ===== verification/Devbox_Intercepts.thy ===== *)
theory Devbox_Intercepts
  imports Devbox_Sessions Sidecar_Manager
begin

text \<open>
  From an intercept to the sidecar: the background tasks of \<^verbatim>\<open>crates/api/src/state.rs\<close> turn the rows of
  intercepts into devbox routes, \<^verbatim>\<open>kube_controller/mod.rs\<close> sends them to a kube-manager of the cluster, and that
  one (\<open>Sidecar_Manager\<close>) to the sidecars. \<open>base\<close> is the web socket address of the server without a final slash,
  \<open>show\<close> the text of an id.
\<close>

section \<open>Routes of intercepts\<close>

definition intercept_port_map :: "workload_intercept \<Rightarrow> u16 \<rightharpoonup> u16" where
  "intercept_port_map intercept =
     foldl (\<lambda>ports m. ports(pm_workload_port m \<mapsto> pm_local_port m)) Map.empty (ic_port_mappings intercept)"

definition route_workload_id_for_intercept :: "devbox_db \<Rightarrow> workload_intercept \<Rightarrow> string + uuid" where
  "route_workload_id_for_intercept db intercept =
     and_then (ok_or ''Workload not found for intercept'' (get_environment_workload db (ic_workload_id intercept))) (\<lambda>w.
     Ok (entry_or (wl_id w) (wl_base_workload_id w)))"

definition route_environment_targets :: "devbox_environment \<Rightarrow> uuid \<times> uuid option" where
  "route_environment_targets env =
     (entry_or (env_id env) (env_base_environment_id env), map_option (\<lambda>_. env_id env) (env_base_environment_id env))"

definition build_devbox_route_config_from_intercept ::
    "string \<Rightarrow> (uuid \<Rightarrow> string) \<Rightarrow> devbox_environment \<Rightarrow> workload_intercept \<Rightarrow> uuid \<Rightarrow> devbox_route_config" where
  "build_devbox_route_config_from_intercept base show env intercept route_workload_id =
     \<lparr>cfg_intercept_id = ic_id intercept, cfg_workload_id = route_workload_id, cfg_auth_token = env_auth_token env,
      cfg_websocket_url = base @ ''/api/v1/kube/sidecar/tunnel/'' @ show (env_id env) @ ''/'' @ show (ic_workload_id intercept),
      cfg_path_pattern = ''/*'', cfg_branch_environment_id = map_option (\<lambda>_. env_id env) (env_base_environment_id env),
      cfg_created_at_epoch_seconds = Some (ic_created_at intercept), cfg_expires_at_epoch_seconds = ic_stopped_at intercept,
      cfg_port_mappings = intercept_port_map intercept\<rparr>"

fun snapshot_routes ::
    "string \<Rightarrow> (uuid \<Rightarrow> string) \<Rightarrow> devbox_db \<Rightarrow> uuid \<Rightarrow> devbox_environment \<Rightarrow> workload_intercept list
     \<Rightarrow> (uuid \<rightharpoonup> devbox_route_config) \<Rightarrow> string + (uuid \<rightharpoonup> devbox_route_config)" where
  "snapshot_routes base show db user env [] routes = Ok routes"
| "snapshot_routes base show db user env (i # is) routes =
     (if ic_user_id i \<noteq> user then snapshot_routes base show db user env is routes
      else
        (case route_workload_id_for_intercept db i of
           Inl e \<Rightarrow> Err e
         | Inr w \<Rightarrow> snapshot_routes base show db user env is
                     (routes(w \<mapsto> build_devbox_route_config_from_intercept base show env i w))))"

definition build_devbox_route_snapshot ::
    "string \<Rightarrow> (uuid \<Rightarrow> string) \<Rightarrow> devbox_db \<Rightarrow> uuid \<Rightarrow> uuid
     \<Rightarrow> string + uuid \<times> uuid option \<times> (uuid \<rightharpoonup> devbox_route_config)" where
  "build_devbox_route_snapshot base show db user i =
     and_then (ok_or ''Environment not found'' (dv_get_environment db i)) (\<lambda>env.
     and_then (snapshot_routes base show db user env (get_active_intercepts_for_environment db i) Map.empty) (\<lambda>routes.
     Ok (env_cluster_id env, env_base_environment_id env, routes)))"

section \<open>Calls to a cluster\<close>

datatype kube_request =
    SetRoutes uuid "uuid \<rightharpoonup> devbox_route_config"
  | SetRoute uuid devbox_route_config
  | RemoveRoute uuid uuid "uuid option"
  | ClearRoutes uuid "uuid option"

text \<open>The call a task makes when it runs, by the rows as they are then. A task that fails earlier makes none.\<close>

definition push_devbox_routes_task :: "string \<Rightarrow> (uuid \<Rightarrow> string) \<Rightarrow> devbox_db \<Rightarrow> uuid \<Rightarrow> uuid \<Rightarrow> (uuid \<times> kube_request) option" where
  "push_devbox_routes_task base show db user i =
     (case build_devbox_route_snapshot base show db user i of
        Inr (cluster, base_environment, routes) \<Rightarrow> Some (cluster, SetRoutes (entry_or i base_environment) routes)
      | Inl _ \<Rightarrow> None)"

definition push_devbox_route_for_intercept ::
    "string \<Rightarrow> (uuid \<Rightarrow> string) \<Rightarrow> devbox_db \<Rightarrow> devbox_environment \<Rightarrow> workload_intercept \<Rightarrow> (uuid \<times> kube_request) option" where
  "push_devbox_route_for_intercept base show db env intercept =
     (case route_workload_id_for_intercept db intercept of
        Inr w \<Rightarrow> Some (env_cluster_id env, SetRoute (fst (route_environment_targets env))
                    (build_devbox_route_config_from_intercept base show env intercept w))
      | Inl _ \<Rightarrow> None)"

definition clear_devbox_route_for_intercept ::
    "devbox_db \<Rightarrow> devbox_environment \<Rightarrow> workload_intercept \<Rightarrow> (uuid \<times> kube_request) option" where
  "clear_devbox_route_for_intercept db env intercept =
     (case route_workload_id_for_intercept db intercept of
        Inr w \<Rightarrow> (case route_environment_targets env of (target, branch) \<Rightarrow> Some (env_cluster_id env, RemoveRoute target w branch))
      | Inl _ \<Rightarrow> None)"

definition clear_devbox_routes_for_environment :: "devbox_db \<Rightarrow> uuid \<Rightarrow> (uuid \<times> kube_request) option" where
  "clear_devbox_routes_for_environment db i =
     (case dv_get_environment db i of
        Some env \<Rightarrow> Some (env_cluster_id env, ClearRoutes (entry_or i (env_base_environment_id env))
                      (map_option (\<lambda>_. i) (env_base_environment_id env)))
      | None \<Rightarrow> None)"

fun task_call :: "string \<Rightarrow> (uuid \<Rightarrow> string) \<Rightarrow> devbox_db \<Rightarrow> devbox_task \<Rightarrow> (uuid \<times> kube_request) option" where
  "task_call base show db (TellCli _ _) = None"
| "task_call base show db (PushRoutes user i) = push_devbox_routes_task base show db user i"
| "task_call base show db (ClearEnvironmentRoutes i) = clear_devbox_routes_for_environment db i"
| "task_call base show db (PushInterceptRoute env intercept) = push_devbox_route_for_intercept base show db env intercept"
| "task_call base show db (ClearInterceptRoute env intercept) = clear_devbox_route_for_intercept db env intercept"

text \<open>A kube-manager is a number; \<open>reachable\<close> says whether a call to it gets through.\<close>

type_synonym cluster_world = "(nat \<Rightarrow> sidecar_manager) \<times> sidecars"

fun manager_request :: "key_order \<Rightarrow> link \<Rightarrow> kube_request \<Rightarrow> sidecar_manager \<Rightarrow> sidecars \<Rightarrow> (string + unit) \<times> sidecar_manager \<times> sidecars" where
  "manager_request order link (SetRoutes env routes) m w = manager_set_devbox_routes order link m env routes w"
| "manager_request order link (SetRoute env route) m w = manager_set_devbox_route order link m env route w"
| "manager_request order link (RemoveRoute env v branch) m w = manager_remove_devbox_route order link m env v branch w"
| "manager_request order link (ClearRoutes env branch) m w = manager_clear_devbox_routes order link m env branch w"

definition server_call :: "key_order \<Rightarrow> link \<Rightarrow> (nat \<Rightarrow> bool) \<Rightarrow> kube_request \<Rightarrow> nat \<Rightarrow> cluster_world \<Rightarrow> (string + unit) \<times> cluster_world" where
  "server_call order link reachable request s = (\<lambda>(managers, w).
     if \<not> reachable s then (Err ''Failed to send RPC to kube-manager'', managers, w)
     else
       (case manager_request order link request (managers s) w of
          (res, m', w') \<Rightarrow> (res, managers(s := m'), w')))"

definition run_call ::
    "key_order \<Rightarrow> link \<Rightarrow> (nat \<Rightarrow> bool) \<Rightarrow> nat cluster_servers \<Rightarrow> (uuid \<times> kube_request) option \<Rightarrow> cluster_world \<Rightarrow> cluster_world" where
  "run_call order link reachable servers call world =
     (case call of
        None \<Rightarrow> world
      | Some (cluster, request) \<Rightarrow>
          snd (dispatch_to_cluster (server_call order link reachable request)
                 ''Failed to dispatch to any KubeManager instances'' servers cluster world))"

definition run_tasks ::
    "string \<Rightarrow> (uuid \<Rightarrow> string) \<Rightarrow> key_order \<Rightarrow> link \<Rightarrow> (nat \<Rightarrow> bool) \<Rightarrow> nat cluster_servers \<Rightarrow> devbox_db \<Rightarrow> devbox_task list
     \<Rightarrow> cluster_world \<Rightarrow> cluster_world" where
  "run_tasks base show order link reachable servers db tasks world =
     fold (\<lambda>t. run_call order link reachable servers (task_call base show db t)) tasks world"

section \<open>Port maps\<close>

lemma intercept_port_map_lookup:
  "intercept_port_map i = map_of (rev (map (\<lambda>m. (pm_workload_port m, pm_local_port m)) (ic_port_mappings i)))"
proof -
  have "foldl (\<lambda>ports m. ports(pm_workload_port m \<mapsto> pm_local_port m)) p ms
      = p ++ map_of (rev (map (\<lambda>m. (pm_workload_port m, pm_local_port m)) ms))" for p ms
    by (induction ms arbitrary: p) (auto simp: map_add_def fun_eq_iff split: option.splits)
  from this [of Map.empty] show ?thesis by (simp add: intercept_port_map_def)
qed

lemma intercept_port_map_overrides:
  assumes "(p, local) \<in> set overrides" and "distinct (map fst overrides)" and "ic_port_mappings i = map actual_mapping overrides"
  shows "intercept_port_map i p = Some (entry_or p local)"
proof -
  let ?pairs = "map (\<lambda>(p, local). (p, entry_or p local)) overrides"
  have pairs: "map (\<lambda>m. (pm_workload_port m, pm_local_port m)) (ic_port_mappings i) = ?pairs"
    by (simp add: assms(3) actual_mapping_def comp_def case_prod_unfold)
  have "distinct (map fst (rev ?pairs))"
    using assms(2) by (simp add: rev_map [symmetric] comp_def case_prod_unfold)
  moreover have "(p, entry_or p local) \<in> set (rev ?pairs)" using assms(1) by force
  ultimately show ?thesis by (simp only: intercept_port_map_lookup pairs map_of_is_SomeI)
qed

section \<open>From the request to the sidecar\<close>

lemma create_workload_intercept_frames:
  assumes "create_workload_intercept new_id now user env workload mappings db = (row, db')"
  shows "dv_workloads db' = dv_workloads db" and "dv_environments db' = dv_environments db"
  using assms by (auto simp: create_workload_intercept_def Let_def split: option.splits if_splits)

lemma run_call_first:
  assumes "cs_servers servers cluster = Some ((g, s) # rest)" and "reachable s"
    and "manager_request order link request (managers s) w = (Ok (), m', w')"
  shows "run_call order link reachable servers (Some (cluster, request)) (managers, w) = (managers(s := m'), w')"
  using assms by (simp add: run_call_def dispatch_to_cluster_def server_call_def)

definition intercepted_decision :: "uuid option \<Rightarrow> devbox_connection \<Rightarrow> u16 \<Rightarrow> route_decision" where
  "intercepted_decision branch c port = (case branch of Some b \<Rightarrow> BranchDevbox b c port | None \<Rightarrow> DefaultDevbox c port)"

text \<open>
  C7: An intercept works from end to end: when a connected user has started one, the task it leaves makes the
  sidecar of the workload send each overridden port to the port on the developer's machine, for the requests of the
  user's branch (or all requests, outside a branch), and the tunnel which the sidecar opens with the token of that
  route is attached to the newest open CLI tunnel of the same user.
\<close>

theorem intercept_reaches_developer:
  assumes wf: "devbox_wf (co_db st)" and fresh: "new_id \<notin> ic_id ` set (dv_intercepts (co_db st))"
    and start: "devbox_intercept_start new_id now user workload overrides st = Ok (i, st', tasks)"
    and connected: "co_active st user \<noteq> None"
    and wl: "get_environment_workload (co_db st) workload = Some wl"
    and env: "dv_get_environment (co_db st) (wl_environment_id wl) = Some env"
    and servers: "cs_servers servers (env_cluster_id env) = Some ((g, s) # rest)" "reachable s"
    and client: "client_for (managers s) (entry_or (env_id env) (env_base_environment_id env)) (entry_or (wl_id wl) (wl_base_workload_id wl)) = Some c"
    and delivered: "\<And>r. link c r = Delivered"
    and sidecar: "sc_workload_id (w c) = entry_or (wl_id wl) (wl_base_workload_id wl)"
      "env_base_environment_id env \<noteq> None \<Longrightarrow> branch_routes (sc_table (w c)) (env_id env) \<noteq> None"
    and overrides: "distinct (map fst overrides)"
  shows "\<exists>managers' w' conn. run_tasks base show order link reachable servers (co_db st') tasks (managers, w) = (managers', w')
    \<and> (\<forall>(p, local) \<in> set overrides. resolve_http ks (sc_table (w' c)) p (map_option (\<lambda>_. env_id env) (env_base_environment_id env))
          = intercepted_decision (map_option (\<lambda>_. env_id env) (env_base_environment_id env)) conn (entry_or p local))
    \<and> sidecar_tunnel_websocket is_closed tunnels (env_id env) (Some (auth_token (dc_metadata conn))) (co_db st')
        = ok_or (DevboxError ''no active CLI tunnel'') (cli_for_sidecar is_closed tunnels user)"
proof -
  from wf have iwf: "intercepts_wf (co_db st)" by (simp add: devbox_wf_def)
  obtain row where row: "tasks = [PushInterceptRoute env row]" "ic_workload_id row = workload"
      "ic_port_mappings row = map actual_mapping overrides" "env_user_id env = user"
    and tables: "dv_workloads (co_db st') = dv_workloads (co_db st)" "dv_environments (co_db st') = dv_environments (co_db st)"
  proof (rule intercept_start_effect [OF iwf fresh start])
    fix w' env' row db
    assume "get_environment_workload (co_db st) workload = Some w'" "dv_get_environment (co_db st) (wl_environment_id w') = Some env'"
    with wl env have "env' = env" by simp
    moreover assume "create_workload_intercept new_id now user (env_id env') workload (map actual_mapping overrides) (co_db st) = (row, db)"
    note create_workload_intercept_frames [OF this]
    moreover assume "st' = st\<lparr>co_db := db\<rparr>" "tasks = (if co_active st user \<noteq> None then [PushInterceptRoute env' row] else [])"
      "env_user_id env' = user" "ic_workload_id row = workload" "ic_port_mappings row = map actual_mapping overrides"
    ultimately show thesis using connected by (intro that [of row]) simp_all
  qed
  let ?branch = "map_option (\<lambda>_. env_id env) (env_base_environment_id env)" and ?v = "entry_or (wl_id wl) (wl_base_workload_id wl)"
  let ?target = "entry_or (env_id env) (env_base_environment_id env)"
  define route where "route = build_devbox_route_config_from_intercept base show env row ?v"
  have cfg: "cfg_workload_id route = ?v" "cfg_branch_environment_id route = ?branch" "cfg_auth_token route = env_auth_token env"
    "cfg_port_mappings route = intercept_port_map row"
    by (simp_all add: route_def build_devbox_route_config_from_intercept_def)
  have "task_call base show (co_db st') (PushInterceptRoute env row) = Some (env_cluster_id env, SetRoute ?target route)"
    using wl by (simp add: push_devbox_route_for_intercept_def route_workload_id_for_intercept_def get_environment_workload_def
        tables row(2) route_def route_environment_targets_def)
  moreover have "branch_routes (sc_table (w c)) b \<noteq> None" if "cfg_branch_environment_id route = Some b" for b
    using that sidecar(2) cfg(2) by auto
  then obtain m' w' where set: "manager_set_devbox_route order link (managers s) ?target route w = (Ok (), m', w')"
    and decides: "resolve_http ks (sc_table (w' c)) port ?branch = devbox_decision route (sc_environment_id (w c)) port" for port
    using set_devbox_route_decides [of route "w c" ks] client sidecar(1) cfg(1,2) delivered
    by (auto simp: manager_set_devbox_route_def upsert_devbox_route_snapshot_def client_for_def latest_clients_for_environment_def Let_def)
  ultimately have "run_tasks base show order link reachable servers (co_db st') tasks (managers, w) = (managers(s := m'), w')"
    using run_call_first [OF servers(1), where reachable = reachable and request = "SetRoute ?target route" and managers = managers
        and m' = m' and w = w and w' = w' and order = order and link = link] servers(2) by (simp add: run_tasks_def row(1))
  moreover define conn where "conn = devbox_connection_from_config route (entry_or (sc_environment_id (w c)) ?branch)"
  have "resolve_http ks (sc_table (w' c)) p ?branch = intercepted_decision ?branch conn (entry_or p local)"
    if "(p, local) \<in> set overrides" for p local
    using intercept_port_map_overrides [OF that overrides row(3)]
    by (simp add: decides devbox_decision_def intercepted_decision_def cfg(2,4) conn_def entry_or_def Let_def)
  moreover have "dv_get_environment (co_db st') (env_id env) = Some env"
    using env dv_get_environment_in [OF env] by (simp add: dv_get_environment_def tables)
  then have "sidecar_tunnel_websocket is_closed tunnels (env_id env) (Some (auth_token (dc_metadata conn))) (co_db st')
      = ok_or (DevboxError ''no active CLI tunnel'') (cli_for_sidecar is_closed tunnels user)"
    by (simp add: sidecar_tunnel_websocket_def environment_of_token_def conn_def devbox_connection_from_config_def cfg(3) row(4))
  ultimately show ?thesis by blast
qed


section \<open>Witnesses\<close>

lemma ex_intercept_start:
  obtains st' tasks where "devbox_intercept_start 60 10 7 12 [(80, Some 3000)] ex_core = Ok (60, st', tasks)"
  by (simp add: devbox_intercept_start_def get_environment_workload_def dv_get_environment_def ex_core_def ex_devbox_db_def live_def
      ex_devbox_environment_def ensure_environment_access_def create_workload_intercept_def Let_def)

theorem intercept_reaches_developer_witness:
  "\<exists>st' tasks managers' w' conn. devbox_intercept_start 60 10 7 12 [(80, Some 3000)] ex_core = Ok (60, st', tasks)
    \<and> run_tasks [] (\<lambda>_. []) sorted_list_of_set Sidecar_Manager.delivered (\<lambda>_. True)
        \<lparr>cs_servers = [70 \<mapsto> [(1, 0)]], cs_counter = 2\<rparr> (co_db st') tasks (\<lambda>_. ex_manager, ex_sidecars) = (managers', w')
    \<and> resolve_http [] (sc_table (w' 5)) 80 None = DefaultDevbox conn 3000"
proof -
  obtain st' tasks where start: "devbox_intercept_start 60 10 7 12 [(80, Some 3000)] ex_core = Ok (60, st', tasks)"
    by (rule ex_intercept_start)
  have wf: "devbox_wf (co_db ex_core)" using ex_devbox_wf by (simp add: ex_core_def)
  let ?wl = "\<lparr>wl_id = 12, wl_deleted_at = None, wl_environment_id = 1, wl_base_workload_id = None, wl_name = ''web''\<rparr>"
  have wl: "get_environment_workload (co_db ex_core) 12 = Some ?wl"
    by (simp add: get_environment_workload_def ex_core_def ex_devbox_db_def live_def)
  have env: "dv_get_environment (co_db ex_core) (wl_environment_id ?wl) = Some (ex_devbox_environment 1 None)"
    by (simp add: dv_get_environment_def ex_core_def ex_devbox_db_def ex_devbox_environment_def live_def)
  have "\<exists>managers' w' conn. run_tasks [] (\<lambda>_. []) sorted_list_of_set Sidecar_Manager.delivered (\<lambda>_. True)
        \<lparr>cs_servers = [70 \<mapsto> [(1, 0)]], cs_counter = 2\<rparr> (co_db st') tasks (\<lambda>_. ex_manager, ex_sidecars) = (managers', w')
    \<and> (\<forall>(p, local) \<in> set [(80, Some 3000)]. resolve_http [] (sc_table (w' 5)) p (map_option (\<lambda>_. env_id (ex_devbox_environment 1 None))
          (env_base_environment_id (ex_devbox_environment 1 None)))
        = intercepted_decision (map_option (\<lambda>_. env_id (ex_devbox_environment 1 None)) (env_base_environment_id (ex_devbox_environment 1 None)))
            conn (entry_or p local))
    \<and> sidecar_tunnel_websocket (\<lambda>_. False) new_devbox_tunnels (env_id (ex_devbox_environment 1 None)) (Some (auth_token (dc_metadata conn))) (co_db st')
        = ok_or (DevboxError ''no active CLI tunnel'') (cli_for_sidecar (\<lambda>_. False) (new_devbox_tunnels :: nat devbox_tunnels) 7)"
    by (rule intercept_reaches_developer [OF wf _ start _ wl env])
      (simp_all add: ex_core_def ex_devbox_db_def ex_devbox_environment_def entry_or_def ex_client ex_sidecars_def ex_sidecar_def)
  with start show ?thesis
    by (fastforce simp: ex_devbox_environment_def intercepted_decision_def entry_or_def)
qed

definition ex_other_intercept :: workload_intercept where
  "ex_other_intercept = \<lparr>ic_id = 61, ic_user_id = 7, ic_environment_id = 2, ic_workload_id = 13, ic_port_mappings = [], ic_created_at = 0,
     ic_stopped_at = None\<rparr>"


end
