(* ===== verification/Accounts.thy ===== *)
theory Accounts
  imports Quota
begin

text \<open>
  Accounts of the API server: the rows of users, their logins and keys, sessions
  (\<^verbatim>\<open>crates/api/src/session.rs\<close>, \<^verbatim>\<open>state.rs\<close>), the account of a user (\<^verbatim>\<open>account.rs\<close>), the users and
  login providers of the cluster (\<^verbatim>\<open>admin.rs\<close>), and the rows behind them (\<^verbatim>\<open>crates/db/src/api.rs\<close>).

  Sealing of tokens, the calls to GitHub and GitLab, random ids and the parsing of keys are arguments. A handler
  returns an error, which changes nothing, or its answer and the new rows. A violated unique index is the only
  failure of the database that is modelled. Times are nanoseconds.
\<close>

section \<open>Rows\<close>

datatype api_failure =
    Unauthenticated | Unauthorized | DetailedUnauthorized string | EnterpriseInvalid
  | InvalidRequest string | InternalError string

datatype auth_provider = Github | Gitlab

fun provider_name :: "auth_provider \<Rightarrow> string" where
  "provider_name Github = ''Github''"
| "provider_name Gitlab = ''Gitlab''"

definition parse_provider :: "string \<Rightarrow> auth_provider option" where
  "parse_provider s = (if s = ''Github'' then Some Github else if s = ''Gitlab'' then Some Gitlab else None)"

record user =
  ur_id :: uuid
  ur_created_at :: time
  ur_deleted :: bool
  ur_provider :: auth_provider
  ur_avatar_url :: "string option"
  ur_email :: "string option"
  ur_name :: "string option"
  ur_osuser :: string
  ur_current_organization :: uuid
  ur_cluster_admin :: bool
  ur_disabled :: bool

record oauth_connection =
  oc_id :: uuid
  oc_user :: uuid
  oc_created_at :: time
  oc_deleted :: bool
  oc_provider :: auth_provider
  oc_provider_id :: i32
  oc_provider_login :: string
  oc_access_token :: string
  oc_avatar_url :: "string option"
  oc_email :: "string option"
  oc_name :: "string option"
  oc_read_repo :: "bool option"

record ssh_public_key =
  sk_id :: uuid
  sk_created_at :: time
  sk_deleted :: bool
  sk_name :: string
  sk_key :: string
  sk_parsed_key :: string
  sk_user :: uuid

record user_invitation =
  iv_id :: uuid
  iv_created_at :: time
  iv_expires_at :: time
  iv_used_at :: "time option"
  iv_organization :: uuid

datatype resource_kind = OrganizationResource | UserResource | WorkspaceResource | ProjectResource | PrebuildResource

datatype audit_action =
    OrganizationCreate | OrganizationDelete | OrganizationUpdate | OrganizationUpdateName | OrganizationUpdateQuota
  | OrganizationJoin | OrganizationDeleteMember | OrganizationUpdateMember | UserCreate
  | WorkspaceCreate | WorkspaceDelete | WorkspaceStart | WorkspaceStop | WorkspaceRebuild | WorkspaceUpdate
  | ProjectCreate | ProjectDelete | ProjectUpdateEnv | ProjectUpdateMachineType | PrebuildCreate | PrebuildDelete

record request_info =
  ri_ip :: "string option"
  ri_user_agent :: "string option"

record audit_log =
  al_time :: time
  al_user :: uuid
  al_organization :: uuid
  al_resource_kind :: resource_kind
  al_resource_id :: uuid
  al_resource_name :: string
  al_action :: audit_action
  al_info :: request_info

record accounts =
  ac_conductor :: conductor_db
  ac_users :: "user list"
  ac_oauths :: "oauth_connection list"
  ac_keys :: "ssh_public_key list"
  ac_invitations :: "user_invitation list"
  ac_audit :: "audit_log list"
  ac_config :: "string \<rightharpoonup> string"
  ac_next_member :: nat

abbreviation orgs :: "accounts \<Rightarrow> organization list" where
  "orgs ac \<equiv> organizations (ac_conductor ac)"

abbreviation mbs :: "accounts \<Rightarrow> member list" where
  "mbs ac \<equiv> members (ac_conductor ac)"

definition update_orgs :: "(organization list \<Rightarrow> organization list) \<Rightarrow> accounts \<Rightarrow> accounts" where
  "update_orgs f ac = ac\<lparr>ac_conductor := (ac_conductor ac)\<lparr>organizations := f (orgs ac)\<rparr>\<rparr>"

definition update_members :: "(member list \<Rightarrow> member list) \<Rightarrow> accounts \<Rightarrow> accounts" where
  "update_members f ac = ac\<lparr>ac_conductor := (ac_conductor ac)\<lparr>members := f (mbs ac)\<rparr>\<rparr>"

definition update_user :: "uuid \<Rightarrow> (user \<Rightarrow> user) \<Rightarrow> accounts \<Rightarrow> accounts" where
  "update_user i f ac = ac\<lparr>ac_users := update_rows ur_id i f (ac_users ac)\<rparr>"

definition insert_audit_log ::
    "time \<Rightarrow> uuid \<Rightarrow> uuid \<Rightarrow> resource_kind \<Rightarrow> uuid \<Rightarrow> string \<Rightarrow> audit_action \<Rightarrow> request_info \<Rightarrow> accounts \<Rightarrow> accounts" where
  "insert_audit_log time user org rk resource name action info ac =
     ac\<lparr>ac_audit := ac_audit ac @
       [\<lparr>al_time = time, al_user = user, al_organization = org, al_resource_kind = rk, al_resource_id = resource,
         al_resource_name = name, al_action = action, al_info = info\<rparr>]\<rparr>"

section \<open>Lookups\<close>

definition get_user :: "accounts \<Rightarrow> uuid \<Rightarrow> user option" where
  "get_user ac i = find (\<lambda>u. ur_id u = i \<and> \<not> ur_deleted u) (ac_users ac)"

definition get_organization_member :: "accounts \<Rightarrow> uuid \<Rightarrow> uuid \<Rightarrow> member option" where
  "get_organization_member ac user org =
     find (\<lambda>m. mb_user m = user \<and> mb_organization m = org \<and> \<not> mb_deleted m) (mbs ac)"

definition get_all_organization_members :: "accounts \<Rightarrow> uuid \<Rightarrow> member list" where
  "get_all_organization_members ac org = filter (\<lambda>m. mb_organization m = org \<and> \<not> mb_deleted m) (mbs ac)"

definition get_user_all_oauth :: "accounts \<Rightarrow> uuid \<Rightarrow> oauth_connection list" where
  "get_user_all_oauth ac user = filter (\<lambda>c. oc_user c = user \<and> \<not> oc_deleted c) (ac_oauths ac)"

definition get_user_oauth :: "accounts \<Rightarrow> uuid \<Rightarrow> string \<Rightarrow> oauth_connection option" where
  "get_user_oauth ac user provider =
     find (\<lambda>c. oc_user c = user \<and> provider_name (oc_provider c) = provider \<and> \<not> oc_deleted c) (ac_oauths ac)"

definition get_all_ssh_keys :: "accounts \<Rightarrow> uuid \<Rightarrow> ssh_public_key list" where
  "get_all_ssh_keys ac user = sort_key sk_created_at (filter (\<lambda>k. sk_user k = user \<and> \<not> sk_deleted k) (ac_keys ac))"

definition get_ssh_key :: "accounts \<Rightarrow> uuid \<Rightarrow> ssh_public_key option" where
  "get_ssh_key ac i = find (\<lambda>k. sk_id k = i \<and> \<not> sk_deleted k) (ac_keys ac)"

text \<open>An organization that is looked up and missing is an internal error.\<close>

definition organization_or_error :: "accounts \<Rightarrow> uuid \<Rightarrow> api_failure + organization" where
  "organization_or_error ac i = ok_or (InternalError ''no organization found'') (get_organization (ac_conductor ac) i)"

section \<open>Insertions under the unique indexes\<close>

definition insert_member :: "time \<Rightarrow> uuid \<Rightarrow> uuid \<Rightarrow> user_role \<Rightarrow> accounts \<Rightarrow> api_failure + accounts" where
  "insert_member now user org role ac =
     (case get_organization_member ac user org of
        Some _ \<Rightarrow> Err (InternalError ''organization_member_organization_id_user_id_deleted_at_idx'')
      | None \<Rightarrow>
          Ok ((update_members (\<lambda>ms. ms @
            [\<lparr>mb_id = ac_next_member ac, mb_created_at = now, mb_user = user, mb_organization = org, mb_role = role,
              mb_deleted = False\<rparr>]) ac)\<lparr>ac_next_member := Suc (ac_next_member ac)\<rparr>))"

definition insert_oauth :: "oauth_connection \<Rightarrow> accounts \<Rightarrow> api_failure + accounts" where
  "insert_oauth c ac =
     (if \<exists>d \<in> set (ac_oauths ac). \<not> oc_deleted d \<and> oc_provider d = oc_provider c \<and> oc_provider_id d = oc_provider_id c
      then Err (InternalError ''oauth_connection_provider_provider_id_deleted_at_idx'')
      else if \<exists>d \<in> set (ac_oauths ac). \<not> oc_deleted d \<and> oc_user d = oc_user c \<and> oc_provider d = oc_provider c
      then Err (InternalError ''oauth_connection_user_id_provider_deleted_at_idx'')
      else Ok (ac\<lparr>ac_oauths := ac_oauths ac @ [c]\<rparr>))"

section \<open>Tokens and authentication\<close>

datatype claim = JString string | JBool bool | JOther

type_synonym token_claims = "string \<rightharpoonup> claim"

record auth_env =
  ae_seal :: "time \<Rightarrow> token_claims \<Rightarrow> string"
  ae_unseal :: "time \<Rightarrow> string \<Rightarrow> token_claims option"
  ae_show_uuid :: "uuid \<Rightarrow> string"
  ae_parse_uuid :: "string \<Rightarrow> uuid option"
  ae_is_ip :: "string \<Rightarrow> bool"
  ae_licensed :: bool
  ae_license_users :: "nat option"

definition TOKEN_COOKIE_NAME :: string where "TOKEN_COOKIE_NAME = ''lapdev_auth_token''"

definition OAUTH_STATE_COOKIE :: string where "OAUTH_STATE_COOKIE = ''lapdev_auth_state''"

definition cookie_token :: "auth_env \<Rightarrow> time \<Rightarrow> (string \<rightharpoonup> string) \<Rightarrow> string \<Rightarrow> api_failure + token_claims" where
  "cookie_token env now cookie name =
     and_then (ok_or Unauthenticated (cookie name)) (\<lambda>token. ok_or Unauthenticated (ae_unseal env now token))"

definition auth_state_token :: "auth_env \<Rightarrow> time \<Rightarrow> (string \<rightharpoonup> string) \<Rightarrow> api_failure + token_claims" where
  "auth_state_token env now cookie = cookie_token env now cookie OAUTH_STATE_COOKIE"

definition token :: "auth_env \<Rightarrow> time \<Rightarrow> (string \<rightharpoonup> string) \<Rightarrow> api_failure + token_claims" where
  "token env now cookie = cookie_token env now cookie TOKEN_COOKIE_NAME"

definition require_enterprise :: "auth_env \<Rightarrow> api_failure + unit" where
  "require_enterprise env = (if ae_licensed env then Ok () else Err EnterpriseInvalid)"

definition claim_string :: "token_claims \<Rightarrow> string \<Rightarrow> string option" where
  "claim_string claims name = (case claims name of Some (JString s) \<Rightarrow> Some s | _ \<Rightarrow> None)"

definition authenticate :: "auth_env \<Rightarrow> time \<Rightarrow> (string \<rightharpoonup> string) \<Rightarrow> accounts \<Rightarrow> api_failure + user" where
  "authenticate env now cookie ac =
     and_then (token env now cookie) (\<lambda>claims.
     and_then (ok_or Unauthenticated (Option.bind (claim_string claims ''user_id'') (ae_parse_uuid env))) (\<lambda>user_id.
     ok_or Unauthenticated (get_user ac user_id)))"

definition authenticate_cluster_admin :: "auth_env \<Rightarrow> time \<Rightarrow> (string \<rightharpoonup> string) \<Rightarrow> accounts \<Rightarrow> api_failure + user" where
  "authenticate_cluster_admin env now cookie ac =
     and_then (authenticate env now cookie ac) (\<lambda>user. if ur_cluster_admin user then Ok user else Err Unauthorized)"

definition authorize_org ::
    "auth_env \<Rightarrow> time \<Rightarrow> (string \<rightharpoonup> string) option \<Rightarrow> uuid \<Rightarrow> accounts \<Rightarrow> api_failure + (user \<times> member)" where
  "authorize_org env now headers org ac =
     and_then (ok_or Unauthenticated headers) (\<lambda>cookie.
     and_then (authenticate env now cookie ac) (\<lambda>user.
     and_then (ok_or Unauthorized (get_organization_member ac (ur_id user) org)) (\<lambda>member. Ok (user, member))))"

fun role_suffices :: "user_role \<Rightarrow> user_role \<Rightarrow> api_failure + unit" where
  "role_suffices Owner role = (if role \<noteq> Owner then Err (DetailedUnauthorized ''Owner role required'') else Ok ())"
| "role_suffices Admin role =
     (if role \<noteq> Owner \<and> role \<noteq> Admin then Err (DetailedUnauthorized ''Admin or Owner role required'') else Ok ())"
| "role_suffices Member role = Ok ()"

definition authorize ::
    "auth_env \<Rightarrow> time \<Rightarrow> (string \<rightharpoonup> string) option \<Rightarrow> uuid \<Rightarrow> user_role option \<Rightarrow> accounts \<Rightarrow> api_failure + user" where
  "authorize env now headers org required ac =
     and_then (authorize_org env now headers org ac) (\<lambda>(user, member).
     case required of
       Some role \<Rightarrow> and_then (role_suffices role (mb_role member)) (\<lambda>_. Ok user)
     | None \<Rightarrow> Ok user)"

section \<open>New organizations and users\<close>

text \<open>\<^verbatim>\<open>str::parse\<close> of a signed integer of \<open>w\<close> bits.\<close>

definition parse_int :: "nat \<Rightarrow> string \<Rightarrow> int option" where
  "parse_int w s =
     (case s of
        [] \<Rightarrow> None
      | c # cs \<Rightarrow>
          (if c = CHR ''-'' then
             (if cs = [] then None
              else (case parse_digits 0 cs of
                      None \<Rightarrow> None
                    | Some n \<Rightarrow> if n \<le> 2 ^ (w - 1) then Some (- int n) else None))
           else map_option int (parse_uint (2 ^ (w - 1)) s)))"

definition LAPDEV_CLUSTER_NOT_INITIATED :: string where
  "LAPDEV_CLUSTER_NOT_INITIATED = ''lapdev-cluster-not-initiated''"

definition is_cluster_initiated :: "accounts \<Rightarrow> bool" where
  "is_cluster_initiated ac = (ac_config ac LAPDEV_CLUSTER_NOT_INITIATED \<noteq> Some ''yes'')"

definition config_int :: "nat \<Rightarrow> string \<Rightarrow> accounts \<Rightarrow> int" where
  "config_int w name ac = (case Option.bind (ac_config ac name) (parse_int w) of Some v \<Rightarrow> v | None \<Rightarrow> 0)"

definition new_organization :: "uuid \<Rightarrow> string \<Rightarrow> accounts \<Rightarrow> organization" where
  "new_organization new_id name ac =
     \<lparr>org_id = new_id, org_deleted = False, org_name = name, org_auto_start = True,
      org_allow_workspace_change_auto_start = True, org_auto_stop = Some 3600,
      org_allow_workspace_change_auto_stop = True, org_last_auto_stop_check = None,
      org_usage_limit = config_int 64 ''lapdev-default-org-usage-limit'' ac,
      org_running_workspace_limit = word_of_int (config_int 32 ''lapdev-default-org-running-workspace-limit'' ac),
      org_max_cpu = 4, org_has_running_workspace = False\<rparr>"

definition create_new_organization :: "uuid \<Rightarrow> string \<Rightarrow> accounts \<Rightarrow> organization \<times> accounts" where
  "create_new_organization new_id name ac =
     (let org = new_organization new_id name ac in (org, update_orgs (\<lambda>os. os @ [org]) ac))"

record provider_user =
  pu_id :: i32
  pu_login :: string
  pu_name :: "string option"
  pu_email :: "string option"
  pu_avatar_url :: "string option"

record fresh_ids =
  fi_user :: uuid
  fi_organization :: uuid
  fi_oauth :: uuid

definition new_user :: "fresh_ids \<Rightarrow> time \<Rightarrow> auth_provider \<Rightarrow> provider_user \<Rightarrow> bool \<Rightarrow> user" where
  "new_user ids now provider pu cluster_admin =
     \<lparr>ur_id = fi_user ids, ur_created_at = now, ur_deleted = False, ur_provider = provider,
      ur_avatar_url = pu_avatar_url pu, ur_email = pu_email pu, ur_name = pu_name pu,
      ur_osuser = provider_name provider @ ''_'' @ pu_login pu, ur_current_organization = fi_organization ids,
      ur_cluster_admin = cluster_admin, ur_disabled = False\<rparr>"

definition new_connection :: "uuid \<Rightarrow> uuid \<Rightarrow> time \<Rightarrow> auth_provider \<Rightarrow> provider_user \<Rightarrow> string \<Rightarrow> bool \<Rightarrow> oauth_connection" where
  "new_connection new_id user now provider pu access_token read_repo =
     \<lparr>oc_id = new_id, oc_user = user, oc_created_at = now, oc_deleted = False, oc_provider = provider,
      oc_provider_id = pu_id pu, oc_provider_login = pu_login pu, oc_access_token = access_token,
      oc_avatar_url = pu_avatar_url pu, oc_email = pu_email pu, oc_name = pu_name pu, oc_read_repo = Some read_repo\<rparr>"

definition initiate_cluster :: "accounts \<Rightarrow> accounts" where
  "initiate_cluster ac =
     (if is_cluster_initiated ac then ac else ac\<lparr>ac_config := (ac_config ac)(LAPDEV_CLUSTER_NOT_INITIATED \<mapsto> ''no'')\<rparr>)"

definition create_new_user ::
    "fresh_ids \<Rightarrow> time \<Rightarrow> auth_provider \<Rightarrow> provider_user \<Rightarrow> string \<Rightarrow> accounts \<Rightarrow> api_failure + (user \<times> accounts)" where
  "create_new_user ids now provider pu access_token ac =
     (let cluster_admin = \<not> is_cluster_initiated ac;
          ac = snd (create_new_organization (fi_organization ids) ''Personal'' (initiate_cluster ac));
          user = new_user ids now provider pu cluster_admin;
          ac = ac\<lparr>ac_users := ac_users ac @ [user]\<rparr>
      in and_then (insert_oauth (new_connection (fi_oauth ids) (ur_id user) now provider pu access_token False) ac) (\<lambda>ac.
         and_then (insert_member now (ur_id user) (fi_organization ids) Owner ac) (\<lambda>ac. Ok (user, ac))))"

section \<open>Login with GitHub or GitLab\<close>

record remote_user =
  rm_user :: provider_user
  rm_created_at :: time

record oauth_service =
  os_authorize_url :: "auth_provider \<Rightarrow> string \<Rightarrow> bool \<Rightarrow> api_failure + (string \<times> string)"
  os_exchange_code :: "auth_provider \<Rightarrow> string \<Rightarrow> string \<Rightarrow> api_failure + string"
  os_current_user :: "auth_provider \<Rightarrow> string \<Rightarrow> api_failure + remote_user"
  os_user_email :: "string \<Rightarrow> api_failure + (string \<times> bool) list"

definition seconds :: "int \<Rightarrow> time" where "seconds n = n * 1000000000"

definition set_cookie :: "auth_env \<Rightarrow> string \<Rightarrow> string \<Rightarrow> string \<Rightarrow> string" where
  "set_cookie env name value hostname =
     (let cookie = name @ ''='' @ value @ ''; Path=/''; host = hd (split_on (CHR '':'') hostname)
      in if ae_is_ip env host then cookie else cookie @ ''; Domain=.'' @ host)"

definition query_value :: "(string \<rightharpoonup> string) \<Rightarrow> string \<Rightarrow> string \<Rightarrow> api_failure + string" where
  "query_value query name message = ok_or (InvalidRequest message) (query name)"

definition oauth_redirect_url :: "string \<Rightarrow> string \<Rightarrow> bool \<Rightarrow> string \<Rightarrow> string" where
  "oauth_redirect_url host provider connect nxt =
     host @ ''/api/private/session/authorize?provider='' @ provider @ (if connect then ''&connect_provider=yes'' else '''')
       @ ''&next='' @ nxt"

definition oauth_claims :: "auth_env \<Rightarrow> string \<Rightarrow> string \<Rightarrow> bool \<Rightarrow> uuid option \<Rightarrow> token_claims" where
  "oauth_claims env csrf redirect_url read_repo connect_user =
     (let claims = [''oauth_state'' \<mapsto> JString csrf, ''redirect_url'' \<mapsto> JString redirect_url, ''read_repo'' \<mapsto> JBool read_repo]
      in case connect_user of None \<Rightarrow> claims | Some i \<Rightarrow> claims(''connect_user'' \<mapsto> JString (ae_show_uuid env i)))"

definition create_oauth_connection ::
    "auth_env \<Rightarrow> oauth_service \<Rightarrow> time \<Rightarrow> uuid option \<Rightarrow> bool \<Rightarrow> string \<Rightarrow> (string \<rightharpoonup> string) \<Rightarrow> api_failure + (string \<times> string)" where
  "create_oauth_connection env svc now connect_user read_repo hostname query =
     and_then (query_value query ''host'' ''no host in query string'') (\<lambda>host.
     and_then (query_value query ''next'' ''no next url in query string'') (\<lambda>nxt.
     and_then (query_value query ''provider'' ''no provider in query string'') (\<lambda>provider.
       let redirect_url = oauth_redirect_url host provider (connect_user \<noteq> None) nxt
       in and_then (ok_or (InvalidRequest (''provider '' @ provider @ '' is invalid'')) (parse_provider provider)) (\<lambda>p.
          and_then (os_authorize_url svc p redirect_url read_repo) (\<lambda>(url, csrf).
            let sealed = ae_seal env (now + seconds 3600) (oauth_claims env csrf redirect_url read_repo connect_user)
            in Ok (set_cookie env OAUTH_STATE_COOKIE sealed hostname, url))))))"

definition new_session :: "auth_env \<Rightarrow> oauth_service \<Rightarrow> time \<Rightarrow> string \<Rightarrow> (string \<rightharpoonup> string) \<Rightarrow> api_failure + (string \<times> string)" where
  "new_session env svc now hostname query = create_oauth_connection env svc now None False hostname query"

record auth_request =
  aq_code :: string
  aq_state :: string
  aq_provider :: auth_provider
  aq_next :: "string option"
  aq_connect_provider :: "string option"

definition required_claim :: "token_claims \<Rightarrow> string \<Rightarrow> string \<Rightarrow> string \<Rightarrow> api_failure + string" where
  "required_claim claims name missing invalid =
     and_then (ok_or (InvalidRequest missing) (claims name)) (\<lambda>v.
       case v of JString s \<Rightarrow> Ok s | _ \<Rightarrow> Err (InvalidRequest invalid))"

definition checked_redirect_url :: "token_claims \<Rightarrow> auth_request \<Rightarrow> api_failure + string" where
  "checked_redirect_url claims query =
     and_then (required_claim claims ''redirect_url'' ''doens't have redirect_url'' ''invalid redirect_url parameter'') (\<lambda>redirect_url.
     and_then (required_claim claims ''oauth_state'' ''doens't have oauth_state'' ''invalid state parameter'') (\<lambda>session_state.
       if session_state \<noteq> aq_state query then Err (InvalidRequest ''state parameter doesn't match'') else Ok redirect_url))"

definition github_email :: "api_failure + (string \<times> bool) list \<Rightarrow> string option" where
  "github_email emails =
     (case emails of
        Inl _ \<Rightarrow> None
      | Inr es \<Rightarrow>
          (case find snd es of
             Some e \<Rightarrow> Some (fst e)
           | None \<Rightarrow> (case es of [] \<Rightarrow> None | e # _ \<Rightarrow> Some (fst e))))"

definition fetch_provider_user :: "oauth_service \<Rightarrow> time \<Rightarrow> auth_provider \<Rightarrow> string \<Rightarrow> api_failure + provider_user" where
  "fetch_provider_user svc now provider access_token =
     and_then (os_current_user svc provider access_token) (\<lambda>r.
       if now - rm_created_at r < seconds 86400 then Err (InvalidRequest ''user not allowed'')
       else Ok (case provider of
                  Github \<Rightarrow> (rm_user r)\<lparr>pu_email := github_email (os_user_email svc access_token)\<rparr>
                | Gitlab \<Rightarrow> rm_user r))"

definition save_connection ::
    "uuid \<Rightarrow> time \<Rightarrow> uuid \<Rightarrow> bool \<Rightarrow> auth_provider \<Rightarrow> provider_user \<Rightarrow> string \<Rightarrow> accounts \<Rightarrow> api_failure + accounts" where
  "save_connection new_id now user_id read_repo provider pu access_token ac =
     (case find (\<lambda>c. oc_provider c = provider \<and> oc_user c = user_id \<and> \<not> oc_deleted c) (ac_oauths ac) of
        Some c \<Rightarrow>
          Ok (ac\<lparr>ac_oauths := update_rows oc_id (oc_id c) (\<lambda>c. c\<lparr>oc_provider_login := pu_login pu,
                oc_access_token := access_token, oc_avatar_url := pu_avatar_url pu, oc_email := pu_email pu,
                oc_name := pu_name pu, oc_read_repo := Some read_repo\<rparr>) (ac_oauths ac)\<rparr>)
      | None \<Rightarrow> insert_oauth (new_connection new_id user_id now provider pu access_token read_repo) ac)"

definition connect_account ::
    "auth_env \<Rightarrow> uuid \<Rightarrow> time \<Rightarrow> token_claims \<Rightarrow> auth_provider \<Rightarrow> provider_user \<Rightarrow> string \<Rightarrow> accounts \<Rightarrow> api_failure + accounts" where
  "connect_account env new_id now claims provider pu access_token ac =
     and_then (required_claim claims ''connect_user'' ''doens't have connect user'' ''invalid connect user'') (\<lambda>connect_user.
     and_then (ok_or (InternalError ''uuid'') (ae_parse_uuid env connect_user)) (\<lambda>user_id.
     and_then (ok_or (InvalidRequest ''doens't have read repo'') (claims ''read_repo'')) (\<lambda>v.
     case v of
       JBool read_repo \<Rightarrow> save_connection new_id now user_id read_repo provider pu access_token ac
     | _ \<Rightarrow> Err (InvalidRequest ''invalid read repo''))))"

text \<open>The user of a login: the one the account is connected to, or a new one.\<close>

definition known_user :: "oauth_connection \<Rightarrow> provider_user \<Rightarrow> string \<Rightarrow> accounts \<Rightarrow> api_failure + (user \<times> accounts)" where
  "known_user conn pu access_token ac =
     (let ac = ac\<lparr>ac_oauths := update_rows oc_id (oc_id conn) (\<lambda>c. c\<lparr>oc_provider_login := pu_login pu,
            oc_access_token := access_token, oc_avatar_url := pu_avatar_url pu, oc_email := pu_email pu,
            oc_name := pu_name pu\<rparr>) (ac_oauths ac)\<rparr>;
          ac = update_user (oc_user conn)
            (\<lambda>u. u\<lparr>ur_avatar_url := pu_avatar_url pu, ur_email := pu_email pu, ur_name := pu_name pu\<rparr>) ac
      in and_then (ok_or (InternalError ''record not updated'') (find (\<lambda>u. ur_id u = oc_user conn) (ac_users ac)))
           (\<lambda>user. Ok (user, ac)))"

definition users_limit_reached :: "auth_env \<Rightarrow> accounts \<Rightarrow> bool" where
  "users_limit_reached env ac =
     (case ae_license_users env of
        None \<Rightarrow> False
      | Some n \<Rightarrow> 0 < n \<and> n \<le> length (filter (\<lambda>u. \<not> ur_deleted u) (ac_users ac)))"

definition login_user ::
    "auth_env \<Rightarrow> fresh_ids \<Rightarrow> time \<Rightarrow> request_info \<Rightarrow> auth_provider \<Rightarrow> provider_user \<Rightarrow> string \<Rightarrow> accounts
     \<Rightarrow> api_failure + (user \<times> accounts)" where
  "login_user env ids now info provider pu access_token ac =
     (case find (\<lambda>c. oc_provider c = provider \<and> oc_provider_id c = pu_id pu \<and> \<not> oc_deleted c) (ac_oauths ac) of
        Some conn \<Rightarrow> known_user conn pu access_token ac
      | None \<Rightarrow>
          (if users_limit_reached env ac
           then Err (InvalidRequest ''You've reached the users limit in your enterprise license'')
           else and_then (create_new_user ids now provider pu access_token ac) (\<lambda>(user, ac).
                Ok (user, insert_audit_log now (ur_id user) (ur_current_organization user) UserResource (ur_id user)
                            (case ur_name user of Some n \<Rightarrow> n | None \<Rightarrow> '''') UserCreate info ac))))"

record redirect =
  rd_location :: string
  rd_set_cookie :: "string option"
  rd_token :: "string option"

definition redirect_location :: "auth_request \<Rightarrow> string" where
  "redirect_location query = (case aq_next query of Some n \<Rightarrow> n | None \<Rightarrow> ''/'')"

definition SESSION_LIFETIME :: time where "SESSION_LIFETIME = seconds (86400 * 30)"

definition session_token :: "auth_env \<Rightarrow> time \<Rightarrow> user \<Rightarrow> string" where
  "session_token env now user =
     ae_seal env (now + SESSION_LIFETIME) [''user_id'' \<mapsto> JString (ae_show_uuid env (ur_id user))]"

definition session_authorize ::
    "auth_env \<Rightarrow> oauth_service \<Rightarrow> fresh_ids \<Rightarrow> time \<Rightarrow> string \<Rightarrow> auth_request \<Rightarrow> request_info \<Rightarrow> (string \<rightharpoonup> string) \<Rightarrow> accounts
     \<Rightarrow> api_failure + (redirect \<times> accounts)" where
  "session_authorize env svc ids now hostname query info cookie ac =
     and_then (auth_state_token env now cookie) (\<lambda>claims.
     and_then (checked_redirect_url claims query) (\<lambda>redirect_url.
     and_then (os_exchange_code svc (aq_provider query) (aq_code query) redirect_url) (\<lambda>access_token.
     and_then (fetch_provider_user svc now (aq_provider query) access_token) (\<lambda>pu.
       if aq_connect_provider query = Some ''yes'' then
         and_then (connect_account env (fi_oauth ids) now claims (aq_provider query) pu access_token ac) (\<lambda>ac.
           Ok (\<lparr>rd_location = redirect_location query, rd_set_cookie = None, rd_token = None\<rparr>, ac))
       else
         and_then (login_user env ids now info (aq_provider query) pu access_token ac) (\<lambda>(user, ac).
           let sealed = session_token env now user
           in Ok (\<lparr>rd_location = redirect_location query,
                   rd_set_cookie = Some (set_cookie env TOKEN_COOKIE_NAME sealed hostname), rd_token = Some sealed\<rparr>, ac))))))"

definition logout :: "auth_env \<Rightarrow> string \<Rightarrow> string" where
  "logout env hostname =
     (let cookie = TOKEN_COOKIE_NAME @ ''=deleted; Path=/; expires=Thu, 01 Jan 1970 00:00:00 GMT'';
          host = hd (split_on (CHR '':'') hostname)
      in if ae_is_ip env host then cookie else cookie @ ''; Domain=.'' @ host)"

section \<open>The account of a user\<close>

definition user_organization :: "user \<Rightarrow> uuid \<Rightarrow> accounts \<Rightarrow> (organization \<times> member) option" where
  "user_organization user org ac =
     (case get_organization (ac_conductor ac) org of
        None \<Rightarrow> None
      | Some o' \<Rightarrow> map_option (Pair o') (get_organization_member ac (ur_id user) (org_id o')))"

definition all_user_organizations :: "user \<Rightarrow> accounts \<Rightarrow> (organization \<times> member) list" where
  "all_user_organizations user ac =
     concat (map (\<lambda>m. case get_organization (ac_conductor ac) (mb_organization m) of None \<Rightarrow> [] | Some o' \<Rightarrow> [(o', m)])
       (get_user_organizations (ac_conductor ac) (ur_id user)))"

definition pick_user_organization :: "user \<Rightarrow> accounts \<Rightarrow> api_failure + ((organization \<times> member) \<times> accounts)" where
  "pick_user_organization user ac =
     (case all_user_organizations user ac of
        [] \<Rightarrow> Err (InternalError ''don't have any orgnizations'')
      | (o', m) # _ \<Rightarrow> Ok ((o', m), update_user (ur_id user) (\<lambda>u. u\<lparr>ur_current_organization := org_id o'\<rparr>) ac))"

definition user_current_organization :: "user \<Rightarrow> accounts \<Rightarrow> api_failure + ((organization \<times> member) \<times> accounts)" where
  "user_current_organization user ac =
     (case user_organization user (ur_current_organization user) ac of
        Some r \<Rightarrow> Ok (r, ac)
      | None \<Rightarrow> pick_user_organization user ac)"

record me_user =
  me_user :: user
  me_organization :: "organization \<times> member"
  me_all_organizations :: "(organization \<times> member) list"

definition me :: "auth_env \<Rightarrow> time \<Rightarrow> (string \<rightharpoonup> string) \<Rightarrow> accounts \<Rightarrow> api_failure + (me_user \<times> accounts)" where
  "me env now cookie ac =
     and_then (authenticate env now cookie ac) (\<lambda>user.
     and_then (user_current_organization user ac) (\<lambda>(current, ac).
       Ok (\<lparr>me_user = user, me_organization = current, me_all_organizations = all_user_organizations user ac\<rparr>, ac)))"

definition set_current_organization ::
    "auth_env \<Rightarrow> time \<Rightarrow> (string \<rightharpoonup> string) \<Rightarrow> uuid \<Rightarrow> accounts \<Rightarrow> api_failure + accounts" where
  "set_current_organization env now cookie org ac =
     and_then (authenticate env now cookie ac) (\<lambda>user.
     and_then (ok_or Unauthorized (get_organization_member ac (ur_id user) org)) (\<lambda>_.
     Ok (update_user (ur_id user) (\<lambda>u. u\<lparr>ur_current_organization := org\<rparr>) ac)))"

record git_provider =
  gp_auth_provider :: auth_provider
  gp_connected :: bool
  gp_avatar_url :: "string option"
  gp_email :: "string option"
  gp_name :: "string option"
  gp_read_repo :: "bool option"
  gp_scopes :: "string list"
  gp_all_scopes :: "string list"

fun provider_scopes :: "auth_provider \<Rightarrow> string list \<times> string list" where
  "provider_scopes Github = ([''read:user'', ''user:email''], [''read:user'', ''user:email'', ''repo''])"
| "provider_scopes Gitlab = ([''read_user''], [''read_user'', ''read_repository''])"

definition provider_configured :: "accounts \<Rightarrow> auth_provider \<Rightarrow> bool" where
  "provider_configured ac p =
     (case p of
        Github \<Rightarrow> (\<forall>name \<in> {''github-client-id'', ''github-client-secret''}.
                     (case ac_config ac name of None \<Rightarrow> False | Some v \<Rightarrow> trim v \<noteq> ''''))
      | Gitlab \<Rightarrow> (\<forall>name \<in> {''gitlab-client-id'', ''gitlab-client-secret''}.
                     (case ac_config ac name of None \<Rightarrow> False | Some v \<Rightarrow> trim v \<noteq> '''')))"

definition get_clients :: "accounts \<Rightarrow> auth_provider set" where
  "get_clients ac = {p. provider_configured ac p}"

text \<open>The configured clients come in the order in which the map of clients is read.\<close>

definition get_git_providers ::
    "auth_env \<Rightarrow> auth_provider list \<Rightarrow> time \<Rightarrow> (string \<rightharpoonup> string) \<Rightarrow> accounts \<Rightarrow> api_failure + git_provider list" where
  "get_git_providers env clients now cookie ac =
     and_then (authenticate env now cookie ac) (\<lambda>user.
       Ok (map (\<lambda>p.
         let oauth = find (\<lambda>c. oc_provider c = p) (get_user_all_oauth ac (ur_id user))
         in \<lparr>gp_auth_provider = p, gp_connected = oauth \<noteq> None, gp_avatar_url = Option.bind oauth oc_avatar_url,
             gp_email = Option.bind oauth oc_email, gp_name = Option.bind oauth oc_name,
             gp_read_repo = map_option (\<lambda>c. oc_read_repo c = Some True) oauth,
             gp_scopes = fst (provider_scopes p), gp_all_scopes = snd (provider_scopes p)\<rparr>) clients))"

definition connect_git_provider ::
    "auth_env \<Rightarrow> oauth_service \<Rightarrow> time \<Rightarrow> (string \<rightharpoonup> string) \<Rightarrow> string \<Rightarrow> (string \<rightharpoonup> string) \<Rightarrow> accounts \<Rightarrow> api_failure + (string \<times> string)" where
  "connect_git_provider env svc now cookie hostname query ac =
     and_then (authenticate env now cookie ac) (\<lambda>user.
     and_then (query_value query ''provider'' ''no provider in query string'') (\<lambda>provider.
       case get_user_oauth ac (ur_id user) provider of
         Some _ \<Rightarrow> Err (InvalidRequest ''provider already connected'')
       | None \<Rightarrow> create_oauth_connection env svc now (Some (ur_id user)) False hostname query))"

definition parse_yes_no :: "string \<Rightarrow> bool option" where
  "parse_yes_no s = (if s = ''yes'' then Some True else if s = ''no'' then Some False else None)"

definition update_scope ::
    "auth_env \<Rightarrow> oauth_service \<Rightarrow> time \<Rightarrow> (string \<rightharpoonup> string) \<Rightarrow> string \<Rightarrow> (string \<rightharpoonup> string) \<Rightarrow> accounts \<Rightarrow> api_failure + (string \<times> string)" where
  "update_scope env svc now cookie hostname query ac =
     and_then (authenticate env now cookie ac) (\<lambda>user.
     and_then (query_value query ''provider'' ''no provider in query string'') (\<lambda>provider.
       if \<not> (\<exists>c \<in> set (get_user_all_oauth ac (ur_id user)). provider_name (oc_provider c) = provider)
       then Err (InvalidRequest ''provider isn't connected'')
       else and_then (query_value query ''read_repo'' ''no read_repo in query string'') (\<lambda>v.
            and_then (ok_or (InvalidRequest ''read_repo should be either yes or no'') (parse_yes_no v)) (\<lambda>read_repo.
            create_oauth_connection env svc now (Some (ur_id user)) read_repo hostname query))))"

text \<open>The disconnection of a provider: the checks, then the update.\<close>

definition disconnect_check ::
    "auth_env \<Rightarrow> time \<Rightarrow> (string \<rightharpoonup> string) \<Rightarrow> (string \<rightharpoonup> string) \<Rightarrow> accounts \<Rightarrow> api_failure + oauth_connection" where
  "disconnect_check env now cookie query ac =
     and_then (authenticate env now cookie ac) (\<lambda>user.
       if length (get_user_all_oauth ac (ur_id user)) < 2
       then Err (InvalidRequest ''You can't disconnect all git providers'')
       else and_then (query_value query ''provider'' ''no provider in query string'') (\<lambda>provider.
            ok_or (InvalidRequest ''provider isn't connected'') (get_user_oauth ac (ur_id user) provider)))"

definition disconnect_commit :: "oauth_connection \<Rightarrow> accounts \<Rightarrow> accounts" where
  "disconnect_commit oauth ac =
     ac\<lparr>ac_oauths := update_rows oc_id (oc_id oauth) (\<lambda>c. c\<lparr>oc_deleted := True\<rparr>) (ac_oauths ac)\<rparr>"

definition disconnect_git_provider ::
    "auth_env \<Rightarrow> time \<Rightarrow> (string \<rightharpoonup> string) \<Rightarrow> (string \<rightharpoonup> string) \<Rightarrow> accounts \<Rightarrow> api_failure + accounts" where
  "disconnect_git_provider env now cookie query ac =
     and_then (disconnect_check env now cookie query ac) (\<lambda>oauth. Ok (disconnect_commit oauth ac))"

section \<open>Keys\<close>

definition ssh_key_text :: "string \<Rightarrow> string option" where
  "ssh_key_text s = (case split_whitespace s of [] \<Rightarrow> None | [k] \<Rightarrow> Some k | _ # k # _ \<Rightarrow> Some k)"

definition create_ssh_key ::
    "auth_env \<Rightarrow> (string \<Rightarrow> string option) \<Rightarrow> uuid \<Rightarrow> time \<Rightarrow> (string \<rightharpoonup> string) \<Rightarrow> string \<Rightarrow> string \<Rightarrow> accounts
     \<Rightarrow> api_failure + (ssh_public_key \<times> accounts)" where
  "create_ssh_key env parse_key new_id now cookie name key_text ac =
     and_then (authenticate env now cookie ac) (\<lambda>user.
       if trim name = '''' then Err (InvalidRequest ''ssh key name can't be empty'')
       else and_then (ok_or (InvalidRequest ''The SSH public key is invalid'') (Option.bind (ssh_key_text key_text) parse_key))
         (\<lambda>parsed.
            let k = \<lparr>sk_id = new_id, sk_created_at = now, sk_deleted = False, sk_name = trim name, sk_key = key_text,
                     sk_parsed_key = parsed, sk_user = ur_id user\<rparr>
            in Ok (k, ac\<lparr>ac_keys := ac_keys ac @ [k]\<rparr>)))"

definition all_ssh_keys :: "auth_env \<Rightarrow> time \<Rightarrow> (string \<rightharpoonup> string) \<Rightarrow> accounts \<Rightarrow> api_failure + ssh_public_key list" where
  "all_ssh_keys env now cookie ac =
     and_then (authenticate env now cookie ac) (\<lambda>user. Ok (get_all_ssh_keys ac (ur_id user)))"

definition delete_ssh_key :: "auth_env \<Rightarrow> time \<Rightarrow> (string \<rightharpoonup> string) \<Rightarrow> uuid \<Rightarrow> accounts \<Rightarrow> api_failure + accounts" where
  "delete_ssh_key env now cookie key_id ac =
     and_then (authenticate env now cookie ac) (\<lambda>user.
     and_then (ok_or (InternalError ''no ssh key found'') (get_ssh_key ac key_id)) (\<lambda>k.
       if sk_user k \<noteq> ur_id user then Err Unauthorized
       else Ok (ac\<lparr>ac_keys := update_rows sk_id (sk_id k) (\<lambda>k. k\<lparr>sk_deleted := True\<rparr>) (ac_keys ac)\<rparr>)))"

section \<open>Users and login providers of the cluster\<close>

definition last_admin :: "accounts \<Rightarrow> uuid \<Rightarrow> bool" where
  "last_admin ac i = (find (\<lambda>u. \<not> ur_deleted u \<and> ur_cluster_admin u \<and> ur_id u \<noteq> i) (ac_users ac) = None)"

definition cluster_user_check ::
    "auth_env \<Rightarrow> time \<Rightarrow> (string \<rightharpoonup> string) \<Rightarrow> uuid \<Rightarrow> bool \<Rightarrow> accounts \<Rightarrow> api_failure + user" where
  "cluster_user_check env now cookie user_id cluster_admin ac =
     and_then (authenticate_cluster_admin env now cookie ac) (\<lambda>_.
     and_then (ok_or (InvalidRequest ''user doesn't exist'') (get_user ac user_id)) (\<lambda>user.
       if \<not> cluster_admin \<and> last_admin ac (ur_id user)
       then Err (InvalidRequest ''You can't turn off the last cluster admin'')
       else Ok user))"

definition cluster_user_commit :: "user \<Rightarrow> bool \<Rightarrow> accounts \<Rightarrow> accounts" where
  "cluster_user_commit user cluster_admin ac = update_user (ur_id user) (\<lambda>u. u\<lparr>ur_cluster_admin := cluster_admin\<rparr>) ac"

definition update_cluster_user ::
    "auth_env \<Rightarrow> time \<Rightarrow> (string \<rightharpoonup> string) \<Rightarrow> uuid \<Rightarrow> bool \<Rightarrow> accounts \<Rightarrow> api_failure + accounts" where
  "update_cluster_user env now cookie user_id cluster_admin ac =
     and_then (cluster_user_check env now cookie user_id cluster_admin ac) (\<lambda>user.
       Ok (cluster_user_commit user cluster_admin ac))"

record oauth_settings =
  oh_github_client_id :: string
  oh_github_client_secret :: string
  oh_gitlab_client_id :: string
  oh_gitlab_client_secret :: string

definition update_config :: "string \<Rightarrow> string \<Rightarrow> accounts \<Rightarrow> accounts" where
  "update_config name value' ac = ac\<lparr>ac_config := (ac_config ac)(name \<mapsto> value')\<rparr>"

definition update_oauth ::
    "auth_env \<Rightarrow> time \<Rightarrow> (string \<rightharpoonup> string) \<Rightarrow> oauth_settings \<Rightarrow> accounts \<Rightarrow> api_failure + accounts" where
  "update_oauth env now cookie settings ac =
     and_then (if is_cluster_initiated ac then map_sum id (\<lambda>_. ()) (authenticate_cluster_admin env now cookie ac) else Ok ()) (\<lambda>_.
       Ok (update_config ''gitlab-client-secret'' (oh_gitlab_client_secret settings)
          (update_config ''gitlab-client-id'' (oh_gitlab_client_id settings)
          (update_config ''github-client-secret'' (oh_github_client_secret settings)
          (update_config ''github-client-id'' (oh_github_client_id settings) ac)))))"

definition config_or_empty :: "string \<Rightarrow> accounts \<Rightarrow> string" where
  "config_or_empty name ac = (case ac_config ac name of Some v \<Rightarrow> v | None \<Rightarrow> '''')"

definition get_oauth :: "auth_env \<Rightarrow> time \<Rightarrow> (string \<rightharpoonup> string) \<Rightarrow> accounts \<Rightarrow> api_failure + oauth_settings" where
  "get_oauth env now cookie ac =
     and_then (authenticate_cluster_admin env now cookie ac) (\<lambda>_.
       Ok \<lparr>oh_github_client_id = config_or_empty ''github-client-id'' ac,
           oh_github_client_secret = config_or_empty ''github-client-secret'' ac,
           oh_gitlab_client_id = config_or_empty ''gitlab-client-id'' ac,
           oh_gitlab_client_secret = config_or_empty ''gitlab-client-secret'' ac\<rparr>)"

end
