(* ===== verification/Organizations.thy ===== *)
theory Organizations
  imports Accounts
begin

text \<open>
  Organizations, their members and invitations (\<^verbatim>\<open>crates/api/src/organization.rs\<close>): one definition per handler
  with the guards in their order, the row changes of its transaction and the row it writes to the audit log. The
  handler that joins an organization is given in two parts, since its checks run outside the transaction; the
  step relation lets other requests come between them. Then the invariants of every history, who may change what,
  and what the guards do not prevent.
\<close>

section \<open>Handlers\<close>

abbreviation manages :: "member \<Rightarrow> bool" where
  "manages m \<equiv> mb_role m = Owner \<or> mb_role m = Admin"

text \<open>The guard that every handler of an organization begins with.\<close>

definition managed_organization ::
    "auth_env \<Rightarrow> time \<Rightarrow> (string \<rightharpoonup> string) \<Rightarrow> uuid \<Rightarrow> (member \<Rightarrow> bool) \<Rightarrow> accounts \<Rightarrow> api_failure + (user \<times> member \<times> organization)" where
  "managed_organization env now cookie org allowed ac =
     and_then (authenticate env now cookie ac) (\<lambda>user.
     and_then (ok_or Unauthorized (get_organization_member ac (ur_id user) org)) (\<lambda>member.
       if \<not> allowed member then Err Unauthorized
       else and_then (organization_or_error ac (mb_organization member)) (\<lambda>o'. Ok (user, member, o'))))"

definition create_organization ::
    "auth_env \<Rightarrow> uuid \<Rightarrow> time \<Rightarrow> request_info \<Rightarrow> (string \<rightharpoonup> string) \<Rightarrow> string \<Rightarrow> accounts \<Rightarrow> api_failure + (organization \<times> accounts)" where
  "create_organization env new_id now info cookie name ac =
     and_then (authenticate env now cookie ac) (\<lambda>user.
       if trim name = '''' then Err (InvalidRequest ''organization name can't be empty'')
       else let (o', ac) = create_new_organization new_id (trim name) ac
            in and_then (insert_member now (ur_id user) (org_id o') Owner ac) (\<lambda>ac.
               Ok (o', insert_audit_log now (ur_id user) (org_id o') OrganizationResource (org_id o') (org_name o')
                         OrganizationCreate info
                         (update_user (ur_id user) (\<lambda>u. u\<lparr>ur_current_organization := org_id o'\<rparr>) ac))))"

definition set_member :: "nat \<Rightarrow> (member \<Rightarrow> member) \<Rightarrow> accounts \<Rightarrow> accounts" where
  "set_member i f = update_members (update_rows mb_id i f)"

definition set_org :: "uuid \<Rightarrow> (organization \<Rightarrow> organization) \<Rightarrow> accounts \<Rightarrow> accounts" where
  "set_org i f = update_orgs (update_rows org_id i f)"

definition delete_organization ::
    "auth_env \<Rightarrow> time \<Rightarrow> request_info \<Rightarrow> (string \<rightharpoonup> string) \<Rightarrow> uuid \<Rightarrow> accounts \<Rightarrow> api_failure + accounts" where
  "delete_organization env now info cookie org ac =
     and_then (managed_organization env now cookie org (\<lambda>m. mb_role m = Owner) ac) (\<lambda>(user, member, o').
       if length (get_user_organizations (ac_conductor ac) (ur_id user)) = 1
       then Err (InvalidRequest ''you can't delete the last organization you are in'')
       else Ok (insert_audit_log now (ur_id user) (org_id o') OrganizationResource (org_id o') (org_name o')
                  OrganizationDelete info
                  (set_org (org_id o') (\<lambda>r. r\<lparr>org_deleted := True\<rparr>)
                  (set_member (mb_id member) (\<lambda>m. m\<lparr>mb_deleted := True\<rparr>) ac))))"

definition update_org_name ::
    "auth_env \<Rightarrow> time \<Rightarrow> request_info \<Rightarrow> (string \<rightharpoonup> string) \<Rightarrow> uuid \<Rightarrow> string \<Rightarrow> accounts \<Rightarrow> api_failure + accounts" where
  "update_org_name env now info cookie org name ac =
     and_then (managed_organization env now cookie org manages ac) (\<lambda>(user, member, o').
       Ok (insert_audit_log now (ur_id user) (org_id o') OrganizationResource (org_id o') (org_name o')
             OrganizationUpdateName info (set_org org (\<lambda>r. r\<lparr>org_name := name\<rparr>) ac)))"

record auto_start_stop =
  as_auto_start :: bool
  as_auto_stop :: "i32 option"
  as_allow_workspace_change_auto_start :: bool
  as_allow_workspace_change_auto_stop :: bool

definition update_org_auto_start_stop ::
    "auth_env \<Rightarrow> time \<Rightarrow> request_info \<Rightarrow> (string \<rightharpoonup> string) \<Rightarrow> uuid \<Rightarrow> auto_start_stop \<Rightarrow> accounts \<Rightarrow> api_failure + accounts" where
  "update_org_auto_start_stop env now info cookie org settings ac =
     and_then (require_enterprise env) (\<lambda>_.
     and_then (managed_organization env now cookie org manages ac) (\<lambda>(user, member, o').
       Ok (insert_audit_log now (ur_id user) (org_id o') OrganizationResource (org_id o') (org_name o')
             OrganizationUpdate info
             (set_org org (\<lambda>r. r\<lparr>org_auto_start := as_auto_start settings, org_auto_stop := as_auto_stop settings,
                org_allow_workspace_change_auto_start := as_allow_workspace_change_auto_start settings,
                org_allow_workspace_change_auto_stop := as_allow_workspace_change_auto_stop settings\<rparr>) ac))))"

text \<open>What a join has checked when its transaction begins.\<close>

record join_plan =
  jp_user :: user
  jp_invitation :: uuid
  jp_organization :: uuid
  jp_info :: request_info

definition join_check ::
    "auth_env \<Rightarrow> time \<Rightarrow> request_info \<Rightarrow> (string \<rightharpoonup> string) \<Rightarrow> uuid \<Rightarrow> accounts \<Rightarrow> api_failure + join_plan" where
  "join_check env now info cookie invitation_id ac =
     and_then (authenticate env now cookie ac) (\<lambda>user.
     and_then (ok_or (InvalidRequest ''invitation id is invalid'')
         (find (\<lambda>i. iv_id i = invitation_id \<and> iv_used_at i = None) (ac_invitations ac))) (\<lambda>invitation.
       if iv_expires_at invitation < now then Err (InvalidRequest ''invitation is expired'')
       else case get_organization_member ac (ur_id user) (iv_organization invitation) of
              Some _ \<Rightarrow> Err (InvalidRequest ''user is already a member of the organization'')
            | None \<Rightarrow> Ok \<lparr>jp_user = user, jp_invitation = invitation_id, jp_organization = iv_organization invitation,
                          jp_info = info\<rparr>))"

definition join_commit :: "time \<Rightarrow> join_plan \<Rightarrow> accounts \<Rightarrow> api_failure + accounts" where
  "join_commit now p ac =
     (let user = jp_user p; org = jp_organization p
      in and_then (insert_member now (ur_id user) org Member ac) (\<lambda>ac.
         let ac = update_user (ur_id user) (\<lambda>u. u\<lparr>ur_current_organization := org\<rparr>) ac;
             ac = ac\<lparr>ac_invitations := update_rows iv_id (jp_invitation p) (\<lambda>i. i\<lparr>iv_used_at := Some now\<rparr>) (ac_invitations ac)\<rparr>
         in Ok (insert_audit_log now (ur_id user) org UserResource (ur_id user)
                  (case ur_name user of Some n \<Rightarrow> n | None \<Rightarrow> '''') OrganizationJoin (jp_info p) ac)))"

definition join_organization ::
    "auth_env \<Rightarrow> time \<Rightarrow> request_info \<Rightarrow> (string \<rightharpoonup> string) \<Rightarrow> uuid \<Rightarrow> accounts \<Rightarrow> api_failure + accounts" where
  "join_organization env now info cookie invitation_id ac =
     and_then (join_check env now info cookie invitation_id ac) (\<lambda>p. join_commit now p ac)"

record organization_member_view =
  ov_user :: uuid
  ov_avatar_url :: "string option"
  ov_name :: "string option"
  ov_role :: user_role
  ov_joined :: time

definition get_organization_members ::
    "auth_env \<Rightarrow> time \<Rightarrow> (string \<rightharpoonup> string) \<Rightarrow> uuid \<Rightarrow> accounts \<Rightarrow> api_failure + organization_member_view list" where
  "get_organization_members env now cookie org ac =
     and_then (managed_organization env now cookie org manages ac) (\<lambda>(_, _, o').
       Ok (concat (map (\<lambda>m. case get_user ac (mb_user m) of
                              None \<Rightarrow> []
                            | Some u \<Rightarrow> [\<lparr>ov_user = ur_id u, ov_avatar_url = ur_avatar_url u, ov_name = ur_name u,
                                          ov_role = mb_role m, ov_joined = mb_created_at m\<rparr>])
            (get_all_organization_members ac (org_id o')))))"

text \<open>The member a request names, whom it may change unless it is an owner.\<close>

definition other_member :: "string \<Rightarrow> string \<Rightarrow> uuid \<Rightarrow> uuid \<Rightarrow> accounts \<Rightarrow> api_failure + member" where
  "other_member missing owner user org ac =
     and_then (ok_or (InvalidRequest missing) (get_organization_member ac user org)) (\<lambda>m.
       if mb_role m = Owner then Err (InvalidRequest owner) else Ok m)"

definition doesnt_exist :: "auth_env \<Rightarrow> uuid \<Rightarrow> string" where
  "doesnt_exist env user = ''member '' @ ae_show_uuid env user @ '' doesn't exist''"

definition update_organization_member ::
    "auth_env \<Rightarrow> time \<Rightarrow> request_info \<Rightarrow> (string \<rightharpoonup> string) \<Rightarrow> uuid \<Rightarrow> uuid \<Rightarrow> user_role \<Rightarrow> accounts
     \<Rightarrow> api_failure + (organization_member_view \<times> accounts)" where
  "update_organization_member env now info cookie org member_user_id role ac =
     and_then (managed_organization env now cookie org manages ac) (\<lambda>(user, _, _).
     and_then (other_member (doesnt_exist env member_user_id) ''organization owner can't be updated'' member_user_id org ac) (\<lambda>m.
     and_then (ok_or (InvalidRequest (doesnt_exist env member_user_id)) (get_user ac member_user_id)) (\<lambda>member_user.
       Ok (\<lparr>ov_user = ur_id member_user, ov_avatar_url = ur_avatar_url member_user, ov_name = ur_name member_user,
            ov_role = role, ov_joined = mb_created_at m\<rparr>,
           insert_audit_log now (ur_id user) org UserResource (ur_id user)
             (case ur_name user of Some n \<Rightarrow> n | None \<Rightarrow> '''') OrganizationUpdateMember info
             (set_member (mb_id m) (\<lambda>m. m\<lparr>mb_role := role\<rparr>) ac)))))"

definition delete_organization_member ::
    "auth_env \<Rightarrow> time \<Rightarrow> request_info \<Rightarrow> (string \<rightharpoonup> string) \<Rightarrow> uuid \<Rightarrow> uuid \<Rightarrow> accounts \<Rightarrow> api_failure + accounts" where
  "delete_organization_member env now info cookie org member_user_id ac =
     and_then (managed_organization env now cookie org manages ac) (\<lambda>(user, _, _).
     and_then (other_member (doesnt_exist env member_user_id) ''organization owner can't be deleted'' member_user_id org ac) (\<lambda>m.
       Ok (insert_audit_log now (ur_id user) org UserResource (ur_id user)
             (case ur_name user of Some n \<Rightarrow> n | None \<Rightarrow> '''') OrganizationDeleteMember info
             (set_member (mb_id m) (\<lambda>m. m\<lparr>mb_deleted := True\<rparr>) ac))))"

definition create_user_invitation ::
    "auth_env \<Rightarrow> uuid \<Rightarrow> time \<Rightarrow> (string \<rightharpoonup> string) \<Rightarrow> uuid \<Rightarrow> accounts \<Rightarrow> api_failure + (uuid \<times> accounts)" where
  "create_user_invitation env new_id now cookie org ac =
     and_then (managed_organization env now cookie org manages ac) (\<lambda>(_, _, o').
       Ok (new_id, ac\<lparr>ac_invitations := ac_invitations ac @
         [\<lparr>iv_id = new_id, iv_created_at = now, iv_expires_at = now + seconds 1800, iv_used_at = None,
           iv_organization = org_id o'\<rparr>]\<rparr>))"

text \<open>A page of the log, the newest row first. A page size of 0 is refused by an assertion of the database layer.\<close>

record audit_log_result =
  ar_total_items :: nat
  ar_num_pages :: nat
  ar_page :: nat
  ar_page_size :: nat
  ar_records :: "audit_log list"

definition audit_rows :: "accounts \<Rightarrow> uuid \<Rightarrow> time \<Rightarrow> time \<Rightarrow> audit_log list" where
  "audit_rows ac org start end_time =
     rev (sort_key al_time (filter (\<lambda>a. al_organization a = org \<and> start \<le> al_time a \<and> al_time a \<le> end_time) (ac_audit ac)))"

definition get_audit_logs :: "accounts \<Rightarrow> uuid \<Rightarrow> time \<Rightarrow> time \<Rightarrow> nat \<Rightarrow> nat \<Rightarrow> api_failure + audit_log_result" where
  "get_audit_logs ac org start end_time page_size page =
     (let rows = audit_rows ac org start end_time
      in if page_size = 0 then Err (InternalError ''assertion failed: page_size != 0'')
         else Ok \<lparr>ar_total_items = length rows, ar_num_pages = (length rows + page_size - 1) div page_size, ar_page = page,
                  ar_page_size = page_size, ar_records = take page_size (drop (page_size * page) rows)\<rparr>)"

definition get_organization_audit_log ::
    "auth_env \<Rightarrow> time \<Rightarrow> (string \<rightharpoonup> string) \<Rightarrow> uuid \<Rightarrow> time \<Rightarrow> time \<Rightarrow> nat \<Rightarrow> nat \<Rightarrow> accounts \<Rightarrow> api_failure + audit_log_result" where
  "get_organization_audit_log env now cookie org start end_time page_size page ac =
     and_then (require_enterprise env) (\<lambda>_.
     and_then (managed_organization env now cookie org manages ac) (\<lambda>(_, _, o').
       get_audit_logs ac (org_id o') start end_time page_size page))"

record update_org_quota =
  uq_kind :: quota_kind
  uq_default_user_quota :: usize
  uq_org_quota :: usize

definition update_organization_quota ::
    "auth_env \<Rightarrow> time \<Rightarrow> request_info \<Rightarrow> (string \<rightharpoonup> string) \<Rightarrow> uuid \<Rightarrow> update_org_quota \<Rightarrow> accounts \<Rightarrow> api_failure + accounts" where
  "update_organization_quota env now info cookie org q ac =
     and_then (require_enterprise env) (\<lambda>_.
     and_then (managed_organization env now cookie org manages ac) (\<lambda>(user, _, o').
       let db = update_for_default_user (ac_conductor ac) (org_id o') (uq_kind q) (uq_default_user_quota q);
           db = update_for_organization db (org_id o') (uq_kind q) (uq_org_quota q)
       in Ok (insert_audit_log now (ur_id user) (org_id o') OrganizationResource (org_id o') (org_name o')
                OrganizationUpdateQuota info (ac\<lparr>ac_conductor := db\<rparr>))))"

section \<open>Requests as steps\<close>

text \<open>
  A state is the rows with the joins whose checks have passed and whose transaction has not begun. A step names
  the user who makes the request; a login names nobody. The ids that are drawn are new.
\<close>

type_synonym org_state = "accounts \<times> join_plan list"

definition fresh :: "fresh_ids \<Rightarrow> accounts \<Rightarrow> bool" where
  "fresh ids ac \<longleftrightarrow> fi_user ids \<notin> ur_id ` set (ac_users ac) \<and> fi_organization ids \<notin> org_id ` set (orgs ac)
     \<and> fi_oauth ids \<notin> oc_id ` set (ac_oauths ac)"

inductive org_step :: "auth_env \<Rightarrow> oauth_service \<Rightarrow> uuid option \<Rightarrow> org_state \<Rightarrow> org_state \<Rightarrow> bool"
  for env svc where
  logs_in: "session_authorize env svc ids now hostname query info cookie ac = Ok (r, ac') \<Longrightarrow> fresh ids ac \<Longrightarrow>
     org_step env svc None (ac, ps) (ac', ps)"
| opens: "me env now cookie ac = Ok (view, ac') \<Longrightarrow> authenticate env now cookie ac = Ok u \<Longrightarrow>
     org_step env svc (Some (ur_id u)) (ac, ps) (ac', ps)"
| selects: "set_current_organization env now cookie org ac = Ok ac' \<Longrightarrow> authenticate env now cookie ac = Ok u \<Longrightarrow>
     org_step env svc (Some (ur_id u)) (ac, ps) (ac', ps)"
| disconnects: "disconnect_git_provider env now cookie query ac = Ok ac' \<Longrightarrow> authenticate env now cookie ac = Ok u \<Longrightarrow>
     org_step env svc (Some (ur_id u)) (ac, ps) (ac', ps)"
| appoints: "update_cluster_user env now cookie user_id b ac = Ok ac' \<Longrightarrow> authenticate env now cookie ac = Ok u \<Longrightarrow>
     org_step env svc (Some (ur_id u)) (ac, ps) (ac', ps)"
| creates: "create_organization env new_id now info cookie name ac = Ok (o', ac') \<Longrightarrow> new_id \<notin> org_id ` set (orgs ac) \<Longrightarrow>
     authenticate env now cookie ac = Ok u \<Longrightarrow> org_step env svc (Some (ur_id u)) (ac, ps) (ac', ps)"
| deletes: "delete_organization env now info cookie org ac = Ok ac' \<Longrightarrow> authenticate env now cookie ac = Ok u \<Longrightarrow>
     org_step env svc (Some (ur_id u)) (ac, ps) (ac', ps)"
| renames: "update_org_name env now info cookie org name ac = Ok ac' \<Longrightarrow> authenticate env now cookie ac = Ok u \<Longrightarrow>
     org_step env svc (Some (ur_id u)) (ac, ps) (ac', ps)"
| configures: "update_org_auto_start_stop env now info cookie org settings ac = Ok ac' \<Longrightarrow> authenticate env now cookie ac = Ok u \<Longrightarrow>
     org_step env svc (Some (ur_id u)) (ac, ps) (ac', ps)"
| limits: "update_organization_quota env now info cookie org q ac = Ok ac' \<Longrightarrow> authenticate env now cookie ac = Ok u \<Longrightarrow>
     org_step env svc (Some (ur_id u)) (ac, ps) (ac', ps)"
| invites: "create_user_invitation env new_id now cookie org ac = Ok (i, ac') \<Longrightarrow> authenticate env now cookie ac = Ok u \<Longrightarrow>
     org_step env svc (Some (ur_id u)) (ac, ps) (ac', ps)"
| promotes: "update_organization_member env now info cookie org other role ac = Ok (view, ac') \<Longrightarrow>
     authenticate env now cookie ac = Ok u \<Longrightarrow> org_step env svc (Some (ur_id u)) (ac, ps) (ac', ps)"
| removes: "delete_organization_member env now info cookie org other ac = Ok ac' \<Longrightarrow> authenticate env now cookie ac = Ok u \<Longrightarrow>
     org_step env svc (Some (ur_id u)) (ac, ps) (ac', ps)"
| checks_join: "join_check env now info cookie invitation ac = Ok p \<Longrightarrow> authenticate env now cookie ac = Ok u \<Longrightarrow>
     org_step env svc (Some (ur_id u)) (ac, ps) (ac, p # ps)"
| joins: "join_commit now p ac = Ok ac' \<Longrightarrow> p \<in> set ps \<Longrightarrow>
     org_step env svc (Some (ur_id (jp_user p))) (ac, ps) (ac', remove1 p ps)"
| fails_to_join: "join_commit now p ac = Err e \<Longrightarrow> p \<in> set ps \<Longrightarrow>
     org_step env svc (Some (ur_id (jp_user p))) (ac, ps) (ac, remove1 p ps)"

section \<open>What every history keeps\<close>

abbreviation active :: "member \<Rightarrow> bool" where "active m \<equiv> \<not> mb_deleted m"

definition members_wf :: "nat \<Rightarrow> member list \<Rightarrow> bool" where
  "members_wf n ms \<longleftrightarrow> distinct (map mb_id ms) \<and> (\<forall>m \<in> set ms. mb_id m < n)
     \<and> (\<forall>m \<in> set ms. \<forall>m' \<in> set ms. active m \<longrightarrow> active m' \<longrightarrow> mb_user m = mb_user m' \<longrightarrow>
          mb_organization m = mb_organization m' \<longrightarrow> m = m')"

definition owned :: "organization list \<Rightarrow> member list \<Rightarrow> bool" where
  "owned os ms \<longleftrightarrow> distinct (map org_id os) \<and> (\<forall>r \<in> set os. \<not> org_deleted r \<longrightarrow>
     (\<exists>m \<in> set ms. active m \<and> mb_organization m = org_id r \<and> mb_role m = Owner))"

definition users_wf :: "user list \<Rightarrow> bool" where
  "users_wf us \<longleftrightarrow> distinct (map ur_id us) \<and> (\<forall>u \<in> set us. \<not> ur_deleted u)"

definition administered :: "accounts \<Rightarrow> bool" where
  "administered ac \<longleftrightarrow> (if is_cluster_initiated ac then \<exists>u \<in> set (ac_users ac). ur_cluster_admin u else ac_users ac = [])"

definition connected :: "user list \<Rightarrow> oauth_connection list \<Rightarrow> bool" where
  "connected us cs \<longleftrightarrow> distinct (map oc_id cs) \<and> (\<forall>u \<in> set us. \<exists>c \<in> set cs. oc_user c = ur_id u \<and> \<not> oc_deleted c)"

definition accounts_wf :: "accounts \<Rightarrow> bool" where
  "accounts_wf ac \<longleftrightarrow> members_wf (ac_next_member ac) (mbs ac) \<and> owned (orgs ac) (mbs ac) \<and> users_wf (ac_users ac)
     \<and> administered ac \<and> connected (ac_users ac) (ac_oauths ac)"

lemma update_selectors [simp]:
  "ac_users (update_orgs f ac) = ac_users ac" "ac_users (update_members g ac) = ac_users ac"
  "ac_oauths (update_orgs f ac) = ac_oauths ac" "ac_oauths (update_members g ac) = ac_oauths ac" "ac_oauths (update_user i h ac) = ac_oauths ac"
  "ac_config (update_orgs f ac) = ac_config ac" "ac_config (update_members g ac) = ac_config ac" "ac_config (update_user i h ac) = ac_config ac"
  "ac_next_member (update_orgs f ac) = ac_next_member ac" "ac_next_member (update_members g ac) = ac_next_member ac"
  "ac_next_member (update_user i h ac) = ac_next_member ac"
  "ac_audit (update_orgs f ac) = ac_audit ac" "ac_audit (update_members g ac) = ac_audit ac" "ac_audit (update_user i h ac) = ac_audit ac"
  "ac_invitations (update_orgs f ac) = ac_invitations ac" "ac_invitations (update_members g ac) = ac_invitations ac"
  "ac_invitations (update_user i h ac) = ac_invitations ac"
  "orgs (update_orgs f ac) = f (orgs ac)" "orgs (update_members g ac) = orgs ac" "orgs (update_user i h ac) = orgs ac"
  "mbs (update_orgs f ac) = mbs ac" "mbs (update_members g ac) = g (mbs ac)" "mbs (update_user i h ac) = mbs ac"
  "ac_users (update_user i h ac) = update_rows ur_id i h (ac_users ac)"
  by (simp_all add: update_orgs_def update_members_def update_user_def)

lemma audit_selectors [simp]:
  fixes t u org rk rid name act info ac
  defines "ac' \<equiv> insert_audit_log t u org rk rid name act info ac"
  shows "ac_users ac' = ac_users ac" "ac_oauths ac' = ac_oauths ac" "ac_config ac' = ac_config ac"
    "ac_next_member ac' = ac_next_member ac" "ac_invitations ac' = ac_invitations ac" "ac_conductor ac' = ac_conductor ac"
    "ac_audit ac' = ac_audit ac @ [\<lparr>al_time = t, al_user = u, al_organization = org, al_resource_kind = rk, al_resource_id = rid,
       al_resource_name = name, al_action = act, al_info = info\<rparr>]"
  by (simp_all add: ac'_def insert_audit_log_def)

lemma in_update_rows: "x \<in> set (update_rows key i f rs) \<longleftrightarrow> (\<exists>r \<in> set rs. x = (if key r = i then f r else r))"
  unfolding update_rows_def set_map image_iff by (rule refl)

lemma find_in_list: "find P xs = Some x \<Longrightarrow> x \<in> set xs \<and> P x"
  by (induction xs) (auto split: if_splits)

lemma get_member_in:
  "get_organization_member ac u org = Some m \<Longrightarrow>
     m \<in> set (mbs ac) \<and> active m \<and> mb_user m = u \<and> mb_organization m = org"
  by (auto simp: get_organization_member_def dest!: find_in_list)

lemma members_wf_insert:
  "members_wf (ac_next_member ac) (mbs ac) \<Longrightarrow> insert_member now u org role ac = Ok ac' \<Longrightarrow>
     members_wf (ac_next_member ac') (mbs ac')"
  by (fastforce simp: insert_member_def members_wf_def get_organization_member_def find_None_iff split: option.splits)

lemma insert_member_effect:
  "insert_member now u org role ac = Ok ac' \<Longrightarrow>
     orgs ac' = orgs ac \<and> ac_users ac' = ac_users ac \<and> ac_oauths ac' = ac_oauths ac \<and> ac_config ac' = ac_config ac
     \<and> ac_audit ac' = ac_audit ac \<and> ac_invitations ac' = ac_invitations ac
     \<and> (\<exists>m. mbs ac' = mbs ac @ [m] \<and> mb_user m = u \<and> mb_organization m = org \<and> mb_role m = role \<and> active m)
     \<and> get_organization_member ac u org = None"
  by (auto simp: insert_member_def split: option.splits)

lemma members_wf_set:
  assumes wf: "members_wf n ms" and keep: "\<And>m. mb_id (f m) = mb_id m" "\<And>m. mb_user (f m) = mb_user m"
    "\<And>m. mb_organization (f m) = mb_organization m" "\<And>m. active (f m) \<Longrightarrow> active m"
  shows "members_wf n (update_rows mb_id i f ms)"
  unfolding members_wf_def
proof (intro conjI ballI impI)
  show "distinct (map mb_id (update_rows mb_id i f ms))"
    using wf keep(1) by (subst update_rows_keys) (simp_all add: members_wf_def)
  fix x assume "x \<in> set (update_rows mb_id i f ms)"
  then obtain m where m: "m \<in> set ms" "x = (if mb_id m = i then f m else m)" by (auto simp: in_update_rows)
  then have "mb_id x = mb_id m" using keep(1) by simp
  with m wf show "mb_id x < n" by (auto simp: members_wf_def)
  fix y assume "y \<in> set (update_rows mb_id i f ms)"
  then obtain m' where m': "m' \<in> set ms" "y = (if mb_id m' = i then f m' else m')" by (auto simp: in_update_rows)
  assume "active x" "active y" "mb_user x = mb_user y" "mb_organization x = mb_organization y"
  moreover have "mb_user x = mb_user m" "mb_organization x = mb_organization m" "active x \<Longrightarrow> active m"
    "mb_user y = mb_user m'" "mb_organization y = mb_organization m'" "active y \<Longrightarrow> active m'"
    using m(2) m'(2) keep by (metis+)
  ultimately have "active m" "active m'" "mb_user m = mb_user m'" "mb_organization m = mb_organization m'" by simp_all
  then have "m = m'" using wf m(1) m'(1) unfolding members_wf_def by blast
  with m m' show "x = y" by simp
qed

lemma owned_more_members: "owned os ms \<Longrightarrow> owned os (ms @ ms')"
  by (auto simp: owned_def)

lemma owned_new_org:
  "owned os ms \<Longrightarrow> org_id r \<notin> org_id ` set os \<Longrightarrow> active m \<Longrightarrow> mb_organization m = org_id r \<Longrightarrow> mb_role m = Owner \<Longrightarrow>
     owned (os @ [r]) (ms @ [m])"
  by (auto simp: owned_def)

lemma owned_set_org:
  assumes "owned os ms" and "\<And>r. org_id (f r) = org_id r" and "\<And>r. org_deleted r \<Longrightarrow> org_deleted (f r)"
  shows "owned (update_rows org_id i f os) ms"
proof -
  have "map org_id (update_rows org_id i f os) = map org_id os" by (rule update_rows_keys) (rule assms(2))
  with assms show ?thesis unfolding owned_def by (auto simp: in_update_rows split: if_splits) blast+
qed

lemma owned_set_member:
  assumes "owned os ms" and "distinct (map mb_id ms)" and "m \<in> set ms" and "mb_role m \<noteq> Owner"
  shows "owned os (update_rows mb_id (mb_id m) f ms)"
  unfolding owned_def
proof (intro conjI ballI impI)
  show "distinct (map org_id os)" using assms(1) by (simp add: owned_def)
next
  fix r assume "r \<in> set os" "\<not> org_deleted r"
  with assms(1) obtain w where w: "w \<in> set ms" "active w" "mb_organization w = org_id r" "mb_role w = Owner"
    by (auto simp: owned_def)
  with assms have "mb_id w \<noteq> mb_id m" by (metis eq_key_imp_eq_value map_of_eq_Some_iff distinct_map inj_on_eq_iff)
  with w show "\<exists>x \<in> set (update_rows mb_id (mb_id m) f ms). active x \<and> mb_organization x = org_id r \<and> mb_role x = Owner"
    by (force simp: in_update_rows)
qed

lemma owned_delete:
  assumes "owned os ms" and "distinct (map mb_id ms)" and "m \<in> set ms"
  shows "owned (update_rows org_id (mb_organization m) (\<lambda>r. r\<lparr>org_deleted := True\<rparr>) os)
           (update_rows mb_id (mb_id m) (\<lambda>m. m\<lparr>mb_deleted := True\<rparr>) ms)"
  unfolding owned_def
proof (intro conjI ballI impI)
  show "distinct (map org_id (update_rows org_id (mb_organization m) (\<lambda>r. r\<lparr>org_deleted := True\<rparr>) os))"
    using assms(1) by (subst update_rows_keys) (auto simp: owned_def)
next
  fix r assume "r \<in> set (update_rows org_id (mb_organization m) (\<lambda>r. r\<lparr>org_deleted := True\<rparr>) os)" "\<not> org_deleted r"
  then obtain q where "q \<in> set os" "r = (if org_id q = mb_organization m then q\<lparr>org_deleted := True\<rparr> else q)"
    by (auto simp: in_update_rows)
  with \<open>\<not> org_deleted r\<close> have r: "r \<in> set os" "org_id r \<noteq> mb_organization m" "\<not> org_deleted r" by (simp_all split: if_splits)
  with assms(1) obtain w where w: "w \<in> set ms" "active w" "mb_organization w = org_id r" "mb_role w = Owner"
    by (auto simp: owned_def)
  with r assms have "mb_id w \<noteq> mb_id m" by (metis distinct_map inj_on_eq_iff)
  with w show "\<exists>x \<in> set (update_rows mb_id (mb_id m) (\<lambda>m. m\<lparr>mb_deleted := True\<rparr>) ms).
      active x \<and> mb_organization x = org_id r \<and> mb_role x = Owner"
    by (force simp: in_update_rows)
qed

lemma users_wf_update:
  assumes "users_wf us" and "\<And>u. ur_id (f u) = ur_id u" and "\<And>u. ur_deleted (f u) = ur_deleted u"
  shows "users_wf (update_rows ur_id i f us)"
proof -
  have "map ur_id (update_rows ur_id i f us) = map ur_id us" by (rule update_rows_keys) (rule assms(2))
  moreover have "\<not> ur_deleted u" if "u \<in> set (update_rows ur_id i f us)" for u
    using that assms(1,3) by (auto simp only: in_update_rows users_wf_def split: if_splits)
  ultimately show ?thesis using assms(1) by (simp add: users_wf_def)
qed

lemma connected_update_users:
  "connected us cs \<Longrightarrow> (\<And>u. ur_id (f u) = ur_id u) \<Longrightarrow> connected (update_rows ur_id i f us) cs"
  by (auto simp: connected_def in_update_rows)

lemma administered_update:
  assumes "administered ac" and "ac_config ac' = ac_config ac" and "ac_users ac' = update_rows ur_id i f (ac_users ac)"
    and "\<And>u. ur_cluster_admin u \<Longrightarrow> ur_cluster_admin (f u)"
  shows "administered ac'"
proof (cases "is_cluster_initiated ac")
  case True
  with assms(1) obtain u where "u \<in> set (ac_users ac)" "ur_cluster_admin u" by (auto simp: administered_def)
  then have "(if ur_id u = i then f u else u) \<in> set (ac_users ac')" "ur_cluster_admin (if ur_id u = i then f u else u)"
    using assms(3,4) by (auto simp: in_update_rows)
  moreover have "is_cluster_initiated ac'" using True assms(2) by (simp add: is_cluster_initiated_def)
  ultimately show ?thesis unfolding administered_def by (simp only: if_True) (rule bexI)
next
  case False
  with assms show ?thesis by (simp add: administered_def is_cluster_initiated_def)
qed

lemma managed_organization_Ok:
  assumes "managed_organization env now cookie org P ac = Ok (u, m, r)"
  shows "authenticate env now cookie ac = Ok u \<and> m \<in> set (mbs ac) \<and> active m \<and> mb_user m = ur_id u
     \<and> mb_organization m = org \<and> P m \<and> r \<in> set (orgs ac) \<and> org_id r = org \<and> \<not> org_deleted r
     \<and> get_organization_member ac (ur_id u) org = Some m"
  using assms get_member_in [of ac "ur_id u" org m]
  by (auto simp: managed_organization_def and_then_eq_Ok ok_or_eq_Ok organization_or_error_def get_organization_def
      split: if_splits dest!: find_in_list)

lemma connected_insert: "connected us cs \<Longrightarrow> oc_id c \<notin> oc_id ` set cs \<Longrightarrow> connected us (cs @ [c])"
  by (auto simp: connected_def)

lemma connected_update_oauths:
  assumes "connected us cs" and keep: "\<And>c. oc_id (f c) = oc_id c" "\<And>c. oc_user (f c) = oc_user c" "\<And>c. oc_deleted (f c) = oc_deleted c"
  shows "connected us (update_rows oc_id i f cs)"
  unfolding connected_def
proof (intro conjI ballI)
  show "distinct (map oc_id (update_rows oc_id i f cs))"
    using assms(1) keep(1) by (subst update_rows_keys) (simp_all add: connected_def)
  fix u assume "u \<in> set us"
  with assms(1) obtain c where "c \<in> set cs" "oc_user c = ur_id u" "\<not> oc_deleted c" by (auto simp: connected_def)
  then have "(if oc_id c = i then f c else c) \<in> set (update_rows oc_id i f cs)"
    "oc_user (if oc_id c = i then f c else c) = ur_id u" "\<not> oc_deleted (if oc_id c = i then f c else c)"
    using keep by (auto simp: in_update_rows)
  then show "\<exists>c \<in> set (update_rows oc_id i f cs). oc_user c = ur_id u \<and> \<not> oc_deleted c" by blast
qed

lemma two_different: "2 \<le> length xs \<Longrightarrow> distinct xs \<Longrightarrow> \<exists>y \<in> set xs. y \<noteq> x"
proof -
  assume "2 \<le> length xs" "distinct xs"
  then have "2 \<le> card (set xs)" by (simp add: distinct_card)
  then have "\<not> set xs \<subseteq> {x}" by (metis card_mono card.empty card_insert_if empty_iff finite.intros numeral_le_one_iff
        One_nat_def order.trans semiring_norm(69) finite_insert finite.emptyI)
  then show ?thesis by blast
qed

lemma connected_disconnect:
  assumes "connected us (ac_oauths ac)" and "c \<in> set (get_user_all_oauth ac i)" and "2 \<le> length (get_user_all_oauth ac i)"
  shows "connected us (update_rows oc_id (oc_id c) (\<lambda>c. c\<lparr>oc_deleted := True\<rparr>) (ac_oauths ac))"
  unfolding connected_def
proof (intro conjI ballI)
  have dist: "distinct (map oc_id (ac_oauths ac))" using assms(1) by (simp add: connected_def)
  then show "distinct (map oc_id (update_rows oc_id (oc_id c) (\<lambda>c. c\<lparr>oc_deleted := True\<rparr>) (ac_oauths ac)))"
    by (subst update_rows_keys) simp_all
  fix u assume "u \<in> set us"
  with assms(1) obtain d where d: "d \<in> set (ac_oauths ac)" "oc_user d = ur_id u" "\<not> oc_deleted d" by (auto simp: connected_def)
  have "\<exists>e \<in> set (ac_oauths ac). oc_user e = ur_id u \<and> \<not> oc_deleted e \<and> e \<noteq> c"
  proof (cases "d = c")
    case True
    have "distinct (get_user_all_oauth ac i)" using dist by (simp add: get_user_all_oauth_def distinct_map)
    from two_different [OF assms(3) this, of c] True d assms(2) show ?thesis
      by (auto simp: get_user_all_oauth_def)
  qed (use d in blast)
  then obtain e where e: "e \<in> set (ac_oauths ac)" "oc_user e = ur_id u" "\<not> oc_deleted e" "e \<noteq> c" by blast
  moreover have "c \<in> set (ac_oauths ac)" using assms(2) by (simp add: get_user_all_oauth_def)
  ultimately have "oc_id e \<noteq> oc_id c" using dist by (auto simp: distinct_map inj_on_def)
  with e show "\<exists>x \<in> set (update_rows oc_id (oc_id c) (\<lambda>c. c\<lparr>oc_deleted := True\<rparr>) (ac_oauths ac)). oc_user x = ur_id u \<and> \<not> oc_deleted x"
    by (intro bexI [of _ e]) (auto simp: in_update_rows)
qed

lemma insert_oauth_effect:
  "insert_oauth c ac = Ok ac' \<Longrightarrow> ac' = ac\<lparr>ac_oauths := ac_oauths ac @ [c]\<rparr>"
  by (auto simp: insert_oauth_def split: if_splits)

lemma new_rows [simp]:
  "ur_id (new_user ids now p pu b) = fi_user ids" "\<not> ur_deleted (new_user ids now p pu b)"
  "ur_cluster_admin (new_user ids now p pu b) = b"
  "oc_id (new_connection i u now p pu t r) = i" "oc_user (new_connection i u now p pu t r) = u"
  "\<not> oc_deleted (new_connection i u now p pu t r)"
  "org_id (new_organization i name ac) = i" "\<not> org_deleted (new_organization i name ac)"
  by (simp_all add: new_user_def new_connection_def new_organization_def)

lemma initiate_cluster_selectors [simp]:
  "ac_conductor (initiate_cluster ac) = ac_conductor ac" "ac_users (initiate_cluster ac) = ac_users ac"
  "ac_oauths (initiate_cluster ac) = ac_oauths ac" "ac_next_member (initiate_cluster ac) = ac_next_member ac"
  "ac_audit (initiate_cluster ac) = ac_audit ac" "ac_invitations (initiate_cluster ac) = ac_invitations ac"
  "ac_config (initiate_cluster ac) LAPDEV_CLUSTER_NOT_INITIATED \<noteq> Some ''yes''"
  by (simp_all add: initiate_cluster_def is_cluster_initiated_def)

lemma create_new_user_effect:
  assumes "create_new_user ids now p pu t ac = Ok (u, ac')"
  obtains m where "orgs ac' = orgs ac @ [new_organization (fi_organization ids) ''Personal'' (initiate_cluster ac)]"
    and "mbs ac' = mbs ac @ [m]" and "active m" and "mb_organization m = fi_organization ids" and "mb_role m = Owner"
    and "u = new_user ids now p pu (\<not> is_cluster_initiated ac)" and "ac_users ac' = ac_users ac @ [u]"
    and "ac_oauths ac' = ac_oauths ac @ [new_connection (fi_oauth ids) (fi_user ids) now p pu t False]"
    and "members_wf (ac_next_member ac) (mbs ac) \<Longrightarrow> members_wf (ac_next_member ac') (mbs ac')"
    and "is_cluster_initiated ac'" and "ac_audit ac' = ac_audit ac"
proof -
  let ?org = "snd (create_new_organization (fi_organization ids) ''Personal'' (initiate_cluster ac))"
  let ?u = "new_user ids now p pu (\<not> is_cluster_initiated ac)"
  let ?ac1 = "?org\<lparr>ac_users := ac_users ?org @ [?u]\<rparr>"
  from assms obtain ac2 where o2: "insert_oauth (new_connection (fi_oauth ids) (fi_user ids) now p pu t False) ?ac1 = Ok ac2"
    and m2: "insert_member now (fi_user ids) (fi_organization ids) Owner ac2 = Ok ac'" and u: "u = ?u"
    by (auto simp: create_new_user_def Let_def and_then_eq_Ok)
  note eff = insert_member_effect [OF m2] and ac2 = insert_oauth_effect [OF o2]
  have wf: "members_wf (ac_next_member ac) (mbs ac) \<Longrightarrow> members_wf (ac_next_member ac') (mbs ac')"
    by (rule members_wf_insert [OF _ m2]) (simp add: ac2 create_new_organization_def Let_def)
  from eff obtain m where m: "mbs ac' = mbs ac2 @ [m]" "active m" "mb_organization m = fi_organization ids" "mb_role m = Owner" by blast
  show ?thesis
    by (rule that [of m]) (use eff m u wf ac2 in \<open>simp_all add: create_new_organization_def Let_def is_cluster_initiated_def\<close>)
qed

lemma wf_create_new_user:
  assumes wf: "accounts_wf ac" and new: "fresh ids ac" and run: "create_new_user ids now p pu t ac = Ok (u, ac')"
  shows "accounts_wf ac'"
  using run
proof (rule create_new_user_effect)
  fix m
  assume eff: "orgs ac' = orgs ac @ [new_organization (fi_organization ids) ''Personal'' (initiate_cluster ac)]"
    "mbs ac' = mbs ac @ [m]" "active m" "mb_organization m = fi_organization ids" "mb_role m = Owner"
    "u = new_user ids now p pu (\<not> is_cluster_initiated ac)" "ac_users ac' = ac_users ac @ [u]"
    "ac_oauths ac' = ac_oauths ac @ [new_connection (fi_oauth ids) (fi_user ids) now p pu t False]"
    "is_cluster_initiated ac'"
    and mem: "members_wf (ac_next_member ac) (mbs ac) \<Longrightarrow> members_wf (ac_next_member ac') (mbs ac')"
  have "owned (orgs ac') (mbs ac')"
    using wf new eff by (auto simp: accounts_wf_def fresh_def intro!: owned_new_org)
  moreover have "users_wf (ac_users ac')" "connected (ac_users ac') (ac_oauths ac')"
    using wf new eff by (auto simp: accounts_wf_def users_wf_def connected_def fresh_def)
  moreover have "administered ac'"
    using wf eff by (auto simp: accounts_wf_def administered_def split: if_splits)
  ultimately show ?thesis using mem wf by (simp add: accounts_wf_def)
qed

lemma accounts_wf_oauths:
  "accounts_wf ac \<Longrightarrow> connected (ac_users ac) cs \<Longrightarrow> accounts_wf (ac\<lparr>ac_oauths := cs\<rparr>)"
  by (simp add: accounts_wf_def administered_def is_cluster_initiated_def)

lemma accounts_wf_update_user:
  assumes "accounts_wf ac" and "\<And>u. ur_id (f u) = ur_id u" and "\<And>u. ur_deleted (f u) = ur_deleted u"
    and "\<And>u. ur_cluster_admin u \<Longrightarrow> ur_cluster_admin (f u)"
  shows "accounts_wf (update_user i f ac)"
  using assms users_wf_update [of "ac_users ac" f i] connected_update_users [of "ac_users ac" "ac_oauths ac" f i]
    administered_update [of ac "update_user i f ac" i f]
  by (simp add: accounts_wf_def)

lemma accounts_wf_insert_audit_log [simp]: "accounts_wf (insert_audit_log t u org rk rid name act info ac) = accounts_wf ac"
  by (simp add: accounts_wf_def administered_def is_cluster_initiated_def)

lemma wf_login_user:
  assumes wf: "accounts_wf ac" and new: "fresh ids ac" and run: "login_user env ids now info p pu t ac = Ok (u, ac')"
  shows "accounts_wf ac'"
proof (cases "find (\<lambda>c. oc_provider c = p \<and> oc_provider_id c = pu_id pu \<and> \<not> oc_deleted c) (ac_oauths ac)")
  case None
  with run obtain ac1 where "create_new_user ids now p pu t ac = Ok (u, ac1)"
    and "ac' = insert_audit_log now (ur_id u) (ur_current_organization u) UserResource (ur_id u)
               (case ur_name u of Some n \<Rightarrow> n | None \<Rightarrow> '''') UserCreate info ac1"
    by (auto simp: login_user_def and_then_eq_Ok split: if_splits)
  with wf_create_new_user [OF wf new] show ?thesis by simp
next
  case (Some conn)
  let ?f = "\<lambda>c. c\<lparr>oc_provider_login := pu_login pu, oc_access_token := t, oc_avatar_url := pu_avatar_url pu,
    oc_email := pu_email pu, oc_name := pu_name pu\<rparr>"
  from Some run have "ac' = update_user (oc_user conn)
      (\<lambda>u. u\<lparr>ur_avatar_url := pu_avatar_url pu, ur_email := pu_email pu, ur_name := pu_name pu\<rparr>)
      (ac\<lparr>ac_oauths := update_rows oc_id (oc_id conn) ?f (ac_oauths ac)\<rparr>)"
    by (auto simp: login_user_def known_user_def and_then_eq_Ok Let_def)
  moreover have "connected (ac_users ac) (update_rows oc_id (oc_id conn) ?f (ac_oauths ac))"
    using wf by (intro connected_update_oauths) (simp_all add: accounts_wf_def)
  ultimately show ?thesis using wf by (simp add: accounts_wf_update_user accounts_wf_oauths)
qed

lemma wf_save_connection:
  assumes wf: "accounts_wf ac" and new: "i \<notin> oc_id ` set (ac_oauths ac)"
    and run: "save_connection i now user_id read_repo p pu t ac = Ok ac'"
  shows "accounts_wf ac'"
proof (cases "find (\<lambda>c. oc_provider c = p \<and> oc_user c = user_id \<and> \<not> oc_deleted c) (ac_oauths ac)")
  case None
  with run have "ac' = ac\<lparr>ac_oauths := ac_oauths ac @ [new_connection i user_id now p pu t read_repo]\<rparr>"
    by (simp add: save_connection_def insert_oauth_effect)
  with wf new show ?thesis by (simp add: accounts_wf_oauths connected_insert accounts_wf_def [of ac])
next
  case (Some c)
  with run wf show ?thesis
    by (auto simp: save_connection_def accounts_wf_def [of ac] intro!: accounts_wf_oauths connected_update_oauths)
qed

lemma connect_account_saves:
  "connect_account env i now claims p pu t ac = Ok ac' \<Longrightarrow>
     \<exists>user_id read_repo. save_connection i now user_id read_repo p pu t ac = Ok ac'"
  unfolding connect_account_def and_then_eq_Ok by (elim exE conjE, rename_tac v, case_tac v) auto

lemma wf_session_authorize:
  "accounts_wf ac \<Longrightarrow> fresh ids ac \<Longrightarrow> session_authorize env svc ids now hostname query info cookie ac = Ok (r, ac') \<Longrightarrow>
     accounts_wf ac'"
  by (auto simp: session_authorize_def and_then_eq_Ok Let_def fresh_def [of ids ac] split: if_splits
      dest!: connect_account_saves intro: wf_save_connection wf_login_user [unfolded fresh_def])

lemma wf_set_member:
  assumes "accounts_wf ac" and "m \<in> set (mbs ac)" and "mb_role m \<noteq> Owner"
    and "\<And>m. mb_id (f m) = mb_id m" "\<And>m. mb_user (f m) = mb_user m" "\<And>m. mb_organization (f m) = mb_organization m"
      "\<And>m. active (f m) \<Longrightarrow> active m"
  shows "accounts_wf (set_member (mb_id m) f ac)"
  using assms members_wf_set [of "ac_next_member ac" "mbs ac" f "mb_id m"] owned_set_member [of "orgs ac" "mbs ac" m f]
  by (simp add: accounts_wf_def set_member_def administered_def is_cluster_initiated_def members_wf_def)

lemma wf_set_org:
  assumes "accounts_wf ac" and "\<And>r. org_id (f r) = org_id r" and "\<And>r. org_deleted r \<Longrightarrow> org_deleted (f r)"
  shows "accounts_wf (set_org i f ac)"
  using assms owned_set_org [of "orgs ac" "mbs ac" f i]
  by (simp add: accounts_wf_def set_org_def administered_def is_cluster_initiated_def)

lemma create_organization_effect:
  assumes "create_organization env i now info cookie name ac = Ok (r, ac')"
  shows "\<exists>u ac2. authenticate env now cookie ac = Ok u \<and> r = new_organization i (trim name) ac
     \<and> insert_member now (ur_id u) i Owner (update_orgs (\<lambda>os. os @ [r]) ac) = Ok ac2
     \<and> ac' = insert_audit_log now (ur_id u) i OrganizationResource i (org_name r) OrganizationCreate info
                (update_user (ur_id u) (\<lambda>u. u\<lparr>ur_current_organization := i\<rparr>) ac2)"
  using assms by (auto simp: create_organization_def create_new_organization_def and_then_eq_Ok Let_def split: if_splits)

lemma wf_create_organization:
  assumes wf: "accounts_wf ac" and new: "i \<notin> org_id ` set (orgs ac)"
    and run: "create_organization env i now info cookie name ac = Ok (r, ac')"
  shows "accounts_wf ac'"
proof -
  from create_organization_effect [OF run] obtain u :: user and ac2 where r: "r = new_organization i (trim name) ac"
    and ins: "insert_member now (ur_id u) i Owner (update_orgs (\<lambda>os. os @ [r]) ac) = Ok ac2"
    and ac': "ac' = insert_audit_log now (ur_id u) i OrganizationResource i (org_name r) OrganizationCreate info
                (update_user (ur_id u) (\<lambda>u. u\<lparr>ur_current_organization := i\<rparr>) ac2)"
    by blast
  note eff = insert_member_effect [OF ins]
  then obtain m where m: "mbs ac2 = mbs ac @ [m]" "mb_organization m = i" "mb_role m = Owner" "active m" by auto
  have "members_wf (ac_next_member ac2) (mbs ac2)" using members_wf_insert [OF _ ins] wf by (simp add: accounts_wf_def)
  moreover have "owned (orgs ac2) (mbs ac2)" using wf new eff m r by (auto simp: accounts_wf_def intro!: owned_new_org)
  ultimately have "accounts_wf ac2" using wf eff by (simp add: accounts_wf_def administered_def is_cluster_initiated_def)
  then show ?thesis by (simp add: ac' accounts_wf_update_user)
qed

lemma wf_delete_organization:
  assumes wf: "accounts_wf ac" and run: "delete_organization env now info cookie org ac = Ok ac'"
  shows "accounts_wf ac'"
proof -
  from run obtain u m r where mo: "managed_organization env now cookie org (\<lambda>m. mb_role m = Owner) ac = Ok (u, m, r)"
    and ac': "ac' = insert_audit_log now (ur_id u) (org_id r) OrganizationResource (org_id r) (org_name r) OrganizationDelete info
       (set_org (org_id r) (\<lambda>r. r\<lparr>org_deleted := True\<rparr>) (set_member (mb_id m) (\<lambda>m. m\<lparr>mb_deleted := True\<rparr>) ac))"
    by (auto simp: delete_organization_def and_then_eq_Ok split: if_splits)
  note g = managed_organization_Ok [OF mo]
  have "owned (update_rows org_id org (\<lambda>r. r\<lparr>org_deleted := True\<rparr>) (orgs ac))
      (update_rows mb_id (mb_id m) (\<lambda>m. m\<lparr>mb_deleted := True\<rparr>) (mbs ac))"
    using owned_delete [of "orgs ac" "mbs ac" m] wf g by (simp add: accounts_wf_def members_wf_def)
  moreover have "members_wf (ac_next_member ac) (update_rows mb_id (mb_id m) (\<lambda>m. m\<lparr>mb_deleted := True\<rparr>) (mbs ac))"
    by (rule members_wf_set) (use wf in \<open>simp_all add: accounts_wf_def\<close>)
  ultimately show ?thesis
    using wf g by (simp add: ac' accounts_wf_def set_org_def set_member_def administered_def is_cluster_initiated_def)
qed

lemma quota_tables [simp]:
  "organizations (update_for_default_user db org k v) = organizations db" "members (update_for_default_user db org k v) = members db"
  "organizations (update_for_organization db org k v) = organizations db" "members (update_for_organization db org k v) = members db"
  by (simp_all add: update_for_default_user_def update_for_organization_def update_quota_def Let_def)

lemma join_commit_effect:
  assumes "join_commit now p ac = Ok ac'"
  shows "\<exists>ac1. insert_member now (ur_id (jp_user p)) (jp_organization p) Member ac = Ok ac1
     \<and> ac' = insert_audit_log now (ur_id (jp_user p)) (jp_organization p) UserResource (ur_id (jp_user p))
         (case ur_name (jp_user p) of Some n \<Rightarrow> n | None \<Rightarrow> '''') OrganizationJoin (jp_info p)
         ((update_user (ur_id (jp_user p)) (\<lambda>u. u\<lparr>ur_current_organization := jp_organization p\<rparr>) ac1)
           \<lparr>ac_invitations := update_rows iv_id (jp_invitation p) (\<lambda>i. i\<lparr>iv_used_at := Some now\<rparr>) (ac_invitations ac1)\<rparr>)"
  using assms by (auto simp: join_commit_def and_then_eq_Ok Let_def)

lemma accounts_wf_invitations [simp]: "accounts_wf (ac\<lparr>ac_invitations := is\<rparr>) = accounts_wf ac"
  by (simp add: accounts_wf_def administered_def is_cluster_initiated_def)

lemma wf_join_commit:
  assumes wf: "accounts_wf ac" and run: "join_commit now p ac = Ok ac'"
  shows "accounts_wf ac'"
proof -
  from join_commit_effect [OF run] obtain ac1 where ins: "insert_member now (ur_id (jp_user p)) (jp_organization p) Member ac = Ok ac1"
    and ac': "accounts_wf ac' = accounts_wf (update_user (ur_id (jp_user p)) (\<lambda>u. u\<lparr>ur_current_organization := jp_organization p\<rparr>) ac1)"
    by auto
  have "owned (orgs ac1) (mbs ac1)"
    using insert_member_effect [OF ins] wf by (auto simp: accounts_wf_def intro: owned_more_members)
  then have "accounts_wf ac1"
    using insert_member_effect [OF ins] members_wf_insert [OF _ ins] wf
    by (simp add: accounts_wf_def administered_def is_cluster_initiated_def)
  then show ?thesis by (simp add: ac' accounts_wf_update_user)
qed

lemma wf_update_cluster_user:
  assumes wf: "accounts_wf ac" and run: "update_cluster_user env now cookie i b ac = Ok ac'"
  shows "accounts_wf ac'"
proof -
  from run obtain a u where adm: "authenticate_cluster_admin env now cookie ac = Ok a" and u: "get_user ac i = Some u"
    and last: "b \<or> \<not> last_admin ac (ur_id u)" and ac': "ac' = update_user (ur_id u) (\<lambda>u. u\<lparr>ur_cluster_admin := b\<rparr>) ac"
    by (auto simp: update_cluster_user_def cluster_user_check_def cluster_user_commit_def and_then_eq_Ok ok_or_eq_Ok split: if_splits)
  from u have u_in: "u \<in> set (ac_users ac)" by (auto simp: get_user_def dest!: find_in_list)
  have "\<exists>w \<in> set (ac_users ac'). ur_cluster_admin w"
  proof (cases b)
    case True
    have "u\<lparr>ur_cluster_admin := b\<rparr> \<in> set (ac_users ac')"
      using u_in by (simp add: ac' in_update_rows bexI [of _ u])
    with True show ?thesis by (metis (mono_tags) user.select_convs(10) user.surjective user.update_convs(10))
  next
    case False
    with last obtain w where "w \<in> set (ac_users ac)" "ur_cluster_admin w" "ur_id w \<noteq> ur_id u"
      by (auto simp: last_admin_def dest!: find_in_list)
    then show ?thesis by (auto simp: ac' in_update_rows intro!: bexI [of _ w])
  qed
  moreover have "is_cluster_initiated ac'"
    using wf u_in by (auto simp: ac' accounts_wf_def administered_def is_cluster_initiated_def split: if_splits)
  ultimately have "administered ac'" by (simp add: administered_def)
  then show ?thesis
    using wf users_wf_update [of "ac_users ac" "\<lambda>u. u\<lparr>ur_cluster_admin := b\<rparr>" "ur_id u"]
      connected_update_users [of "ac_users ac" "ac_oauths ac" "\<lambda>u. u\<lparr>ur_cluster_admin := b\<rparr>" "ur_id u"]
    by (simp add: ac' accounts_wf_def)
qed

lemma wf_disconnect:
  assumes wf: "accounts_wf ac" and run: "disconnect_git_provider env now cookie query ac = Ok ac'"
  shows "accounts_wf ac'"
proof -
  from run obtain c where chk: "disconnect_check env now cookie query ac = Ok c" and ac': "ac' = disconnect_commit c ac"
    by (auto simp: disconnect_git_provider_def and_then_eq_Ok)
  then obtain u :: user and provider where "2 \<le> length (get_user_all_oauth ac (ur_id u))" and c: "get_user_oauth ac (ur_id u) provider = Some c"
    by (auto simp: disconnect_check_def and_then_eq_Ok ok_or_eq_Ok not_less split: if_splits)
  moreover have "c \<in> set (get_user_all_oauth ac (ur_id u))"
    using c by (auto simp: get_user_oauth_def get_user_all_oauth_def dest!: find_in_list)
  ultimately show ?thesis
    using wf by (auto simp: ac' disconnect_commit_def accounts_wf_def [of ac] intro!: accounts_wf_oauths connected_disconnect)
qed

lemma other_member_Ok:
  "other_member e1 e2 u org ac = Ok m \<Longrightarrow> m \<in> set (mbs ac) \<and> active m \<and> mb_user m = u \<and> mb_organization m = org \<and> mb_role m \<noteq> Owner
     \<and> get_organization_member ac u org = Some m"
  by (auto simp: other_member_def and_then_eq_Ok ok_or_eq_Ok split: if_splits dest: get_member_in)

lemma wf_pick:
  "accounts_wf ac \<Longrightarrow> user_current_organization u ac = Ok (r, ac') \<Longrightarrow> accounts_wf ac'"
  by (auto simp: user_current_organization_def pick_user_organization_def accounts_wf_update_user split: option.splits list.splits)

lemma accounts_wf_quota:
  "accounts_wf (ac\<lparr>ac_conductor := update_for_organization (update_for_default_user (ac_conductor ac) org k v) org k w\<rparr>) = accounts_wf ac"
  by (simp add: accounts_wf_def administered_def is_cluster_initiated_def)

lemma wf_step: "org_step env svc a s s' \<Longrightarrow> accounts_wf (fst s) \<Longrightarrow> accounts_wf (fst s')"
proof (induction rule: org_step.induct)
  case opens
  then show ?case by (auto simp: me_def and_then_eq_Ok intro: wf_pick)
next
  case (promotes now info cookie org other role ac view ac' u ps)
  then obtain m where "other_member (doesnt_exist env other) ''organization owner can't be updated'' other org ac = Ok m"
    and "accounts_wf ac' = accounts_wf (set_member (mb_id m) (\<lambda>m. m\<lparr>mb_role := role\<rparr>) ac)"
    by (auto simp: update_organization_member_def and_then_eq_Ok)
  with promotes.prems other_member_Ok show ?case by (fastforce intro: wf_set_member)
next
  case (removes now info cookie org other ac ac' u ps)
  then obtain m where "other_member (doesnt_exist env other) ''organization owner can't be deleted'' other org ac = Ok m"
    and "accounts_wf ac' = accounts_wf (set_member (mb_id m) (\<lambda>m. m\<lparr>mb_deleted := True\<rparr>) ac)"
    by (auto simp: delete_organization_member_def and_then_eq_Ok)
  with removes.prems other_member_Ok show ?case by (fastforce intro: wf_set_member)
qed (auto simp: set_current_organization_def update_org_name_def update_org_auto_start_stop_def update_organization_quota_def
    create_user_invitation_def and_then_eq_Ok Let_def accounts_wf_quota accounts_wf_update_user
    intro: wf_session_authorize wf_disconnect wf_update_cluster_user wf_create_organization wf_delete_organization wf_join_commit intro!: wf_set_org)

section \<open>Every history\<close>

text \<open>After the migrations there are no rows but the mark of a cluster nobody has logged in to.\<close>

definition initial_accounts :: "conductor_db \<Rightarrow> accounts" where
  "initial_accounts db =
     \<lparr>ac_conductor = db\<lparr>organizations := [], members := []\<rparr>, ac_users = [], ac_oauths = [], ac_keys = [], ac_invitations = [],
      ac_audit = [], ac_config = [LAPDEV_CLUSTER_NOT_INITIATED \<mapsto> ''yes''], ac_next_member = 1\<rparr>"

definition history :: "auth_env \<Rightarrow> oauth_service \<Rightarrow> org_state \<Rightarrow> org_state \<Rightarrow> bool" where
  "history env svc = rtranclp (\<lambda>s s'. \<exists>a. org_step env svc a s s')"

lemma wf_history: "history env svc s s' \<Longrightarrow> accounts_wf (fst s) \<Longrightarrow> accounts_wf (fst s')"
  unfolding history_def by (induction rule: rtranclp_induct) (auto dest: wf_step)

lemma wf_initial: "accounts_wf (initial_accounts db)"
  by (simp add: initial_accounts_def accounts_wf_def members_wf_def owned_def users_wf_def administered_def connected_def
      is_cluster_initiated_def)


section \<open>Who changes an organization\<close>

text \<open>The row of an organization and its membership rows.\<close>

definition org_part :: "uuid \<Rightarrow> accounts \<Rightarrow> organization list \<times> member list" where
  "org_part i ac = (filter (\<lambda>r. org_id r = i) (orgs ac), filter (\<lambda>m. mb_organization m = i) (mbs ac))"

lemma org_part_more [simp]:
  "org_part i (insert_audit_log t u org rk rid name act info ac) = org_part i ac"
  "org_part i (update_user j f ac) = org_part i ac"
  "org_part i (ac\<lparr>ac_oauths := cs\<rparr>) = org_part i ac" "org_part i (ac\<lparr>ac_invitations := ivs\<rparr>) = org_part i ac"
  "org_part i (ac\<lparr>ac_conductor := update_for_organization (update_for_default_user (ac_conductor ac) org k v) org k w\<rparr>) = org_part i ac"
  by (simp_all add: org_part_def)

lemma filter_update_rows:
  "(\<And>r. key (f r) = key r) \<Longrightarrow> j \<noteq> i \<Longrightarrow> filter (\<lambda>r. key r = i) (update_rows key j f rs) = filter (\<lambda>r. key r = i) rs"
  by (induction rs) auto

lemma filter_update_member:
  assumes "distinct (map mb_id ms)" and "m \<in> set ms" and "mb_organization m \<noteq> i"
    and "\<And>m. mb_organization (f m) = mb_organization m"
  shows "filter (\<lambda>m. mb_organization m = i) (update_rows mb_id (mb_id m) f ms) = filter (\<lambda>m. mb_organization m = i) ms"
proof -
  have "filter (\<lambda>m. mb_organization m = i) (update_rows mb_id (mb_id m) f xs) = filter (\<lambda>m. mb_organization m = i) xs"
    if "set xs \<subseteq> set ms" for xs
    using that
  proof (induction xs)
    case (Cons x xs)
    then have "mb_id x = mb_id m \<Longrightarrow> x = m" using assms(1,2) by (auto simp: distinct_map inj_on_def)
    with Cons assms(3,4) show ?case by auto
  qed simp
  then show ?thesis by simp
qed

lemma org_part_other:
  "org \<noteq> i \<Longrightarrow> (\<And>r. org_id (f r) = org_id r) \<Longrightarrow> org_part i (set_org org f ac) = org_part i ac"
  "accounts_wf ac \<Longrightarrow> m \<in> set (mbs ac) \<Longrightarrow> mb_organization m \<noteq> i \<Longrightarrow> (\<And>m. mb_organization (g m) = mb_organization m) \<Longrightarrow>
     org_part i (set_member (mb_id m) g ac) = org_part i ac"
  by (simp_all add: org_part_def set_org_def set_member_def filter_update_rows accounts_wf_def members_wf_def filter_update_member)

text \<open>What a managing request has shown.\<close>

definition managed_by :: "uuid \<Rightarrow> uuid \<Rightarrow> accounts \<Rightarrow> bool" where
  "managed_by i u ac \<longleftrightarrow> (\<exists>m. get_organization_member ac u i = Some m \<and> manages m) \<and> get_organization (ac_conductor ac) i \<noteq> None"

lemma get_organization_live:
  "r \<in> set (orgs ac) \<Longrightarrow> org_id r = i \<Longrightarrow> \<not> org_deleted r \<Longrightarrow> get_organization (ac_conductor ac) i \<noteq> None"
  by (auto simp: get_organization_def find_None_iff)

lemma managed_by_request:
  assumes "managed_organization env now cookie org P ac = Ok (u, m, r)" and "\<And>m. P m \<Longrightarrow> manages m"
  shows "managed_by org (ur_id u) ac"
  using managed_organization_Ok [OF assms(1)] assms(2) get_organization_live unfolding managed_by_def by blast

lemma org_part_pick:
  "user_current_organization u ac = Ok (r, ac') \<Longrightarrow> org_part i ac' = org_part i ac"
  by (auto simp: user_current_organization_def pick_user_organization_def split: option.splits list.splits)

text \<open>A change of an organization by a user: one new audit row names both, and the user manages it or joins it.\<close>

definition audited :: "uuid \<Rightarrow> uuid \<Rightarrow> accounts \<Rightarrow> accounts \<Rightarrow> bool" where
  "audited i u ac ac' \<longleftrightarrow> (\<exists>row. ac_audit ac' = ac_audit ac @ [row] \<and> al_user row = u \<and> al_organization row = i)"

definition joined :: "uuid \<Rightarrow> uuid \<Rightarrow> accounts \<Rightarrow> accounts \<Rightarrow> bool" where
  "joined i u ac ac' \<longleftrightarrow> fst (org_part i ac') = fst (org_part i ac)
     \<and> (\<exists>m. snd (org_part i ac') = snd (org_part i ac) @ [m] \<and> mb_user m = u \<and> mb_role m = Member \<and> active m)"

definition deleted_by_owner :: "uuid \<Rightarrow> uuid \<Rightarrow> accounts \<Rightarrow> accounts \<Rightarrow> bool" where
  "deleted_by_owner i u ac ac' \<longleftrightarrow>
     (get_organization (ac_conductor ac') i = None \<longrightarrow> map_option mb_role (get_organization_member ac u i) = Some Owner)"

definition change_ok :: "uuid \<Rightarrow> uuid \<Rightarrow> accounts \<Rightarrow> accounts \<Rightarrow> bool" where
  "change_ok i u ac ac' \<longleftrightarrow> audited i u ac ac' \<and> managed_by i u ac \<and> deleted_by_owner i u ac ac'"

lemma org_part_login:
  assumes "fresh ids ac" and "i \<in> org_id ` set (orgs ac)" and "session_authorize env svc ids now host q info cookie ac = Ok (r, ac')"
  shows "org_part i ac' = org_part i ac"
proof -
  have connect: "org_part i ac1 = org_part i ac" if "save_connection j now uid rr p pu t ac = Ok ac1" for j uid rr p pu t ac1
    using that by (auto simp: save_connection_def dest: insert_oauth_effect split: option.splits)
  have create: "org_part i ac1 = org_part i ac" if c: "create_new_user ids now p pu t ac = Ok (u, ac1)" for p pu t u ac1
    using c by (rule create_new_user_effect) (use assms in \<open>auto simp: org_part_def fresh_def\<close>)
  have login: "org_part i ac1 = org_part i ac" if "login_user env ids now info p pu t ac = Ok (u, ac1)" for p pu t u ac1
    using that create by (auto simp: login_user_def known_user_def and_then_eq_Ok Let_def split: option.splits if_splits)
  from assms(3) connect login show ?thesis
    by (fastforce simp: session_authorize_def and_then_eq_Ok Let_def split: if_splits dest!: connect_account_saves)
qed

lemma org_part_create:
  assumes "i \<in> org_id ` set (orgs ac)" and "j \<notin> org_id ` set (orgs ac)"
    and "create_organization env j now info cookie name ac = Ok (r, ac')"
  shows "org_part i ac' = org_part i ac"
proof -
  from create_organization_effect [OF assms(3)] obtain u :: user and ac2 where "r = new_organization j (trim name) ac"
    and ins: "insert_member now (ur_id u) j Owner (update_orgs (\<lambda>os. os @ [r]) ac) = Ok ac2"
    and "org_part i ac' = org_part i ac2" by auto
  with insert_member_effect [OF ins] assms(1,2) show ?thesis by (auto simp: org_part_def)
qed

lemma get_set_org_live:
  assumes "\<And>r. org_id (f r) = org_id r" and "\<And>r. org_deleted (f r) = org_deleted r"
  shows "(get_organization (ac_conductor (set_org j f ac)) i = None) = (get_organization (ac_conductor ac) i = None)"
proof -
  have "(\<exists>x \<in> set (update_rows org_id j f os). org_id x = i \<and> \<not> org_deleted x) = (\<exists>x \<in> set os. org_id x = i \<and> \<not> org_deleted x)" for os
    using assms by (induction os) auto
  then show ?thesis by (auto simp: get_organization_def find_None_iff set_org_def update_orgs_def)
qed

lemma get_set_member_live [simp]:
  "get_organization (ac_conductor (set_member j f ac)) i = get_organization (ac_conductor ac) i"
  by (simp add: get_organization_def set_member_def update_members_def)

lemma change_ok_delete:
  assumes wf: "accounts_wf ac" and run: "delete_organization env now info cookie org ac = Ok ac'" and auth: "authenticate env now cookie ac = Ok u"
  shows "org_part i ac' = org_part i ac \<or> change_ok i (ur_id u) ac ac'"
proof -
  from run obtain w m r where mo: "managed_organization env now cookie org (\<lambda>m. mb_role m = Owner) ac = Ok (w, m, r)"
    and ac': "ac' = insert_audit_log now (ur_id w) (org_id r) OrganizationResource (org_id r) (org_name r) OrganizationDelete info
       (set_org (org_id r) (\<lambda>r. r\<lparr>org_deleted := True\<rparr>) (set_member (mb_id m) (\<lambda>m. m\<lparr>mb_deleted := True\<rparr>) ac))"
    by (auto simp: delete_organization_def and_then_eq_Ok split: if_splits)
  note g = managed_organization_Ok [OF mo]
  show ?thesis
  proof (cases "i = org")
    case True
    then have "managed_by i (ur_id u) ac" using managed_by_request [OF mo] auth g by simp
    moreover have "audited i (ur_id u) ac ac'" using auth g True by (auto simp: ac' audited_def set_org_def set_member_def)
    ultimately show ?thesis using auth g True by (auto simp: change_ok_def deleted_by_owner_def)
  next
    case False
    then show ?thesis using g wf by (simp add: ac' org_part_other)
  qed
qed

lemma change_ok_settings:
  assumes mo: "managed_organization env now cookie org manages ac = Ok (w, m, r)" and auth: "authenticate env now cookie ac = Ok u"
    and f: "\<And>r. org_id (f r) = org_id r" "\<And>r. org_deleted (f r) = org_deleted r"
    and ac': "ac' = insert_audit_log now (ur_id w) (org_id r) OrganizationResource (org_id r) (org_name r) act info (set_org org f ac)"
  shows "org_part i ac' = org_part i ac \<or> change_ok i (ur_id u) ac ac'"
proof (cases "i = org")
  case True
  note g = managed_organization_Ok [OF mo]
  then have live: "get_organization (ac_conductor ac') org \<noteq> None"
    using get_organization_live [of r ac org] get_set_org_live [of f org ac org, OF f] by (simp add: ac')
  have "audited i (ur_id u) ac ac'" using auth g True by (auto simp: ac' audited_def set_org_def)
  moreover have "managed_by i (ur_id u) ac" using managed_by_request [OF mo] auth g True by simp
  ultimately show ?thesis using live True by (auto simp: change_ok_def deleted_by_owner_def)
qed (use f in \<open>simp add: ac' org_part_other\<close>)

lemma change_ok_member:
  assumes wf: "accounts_wf ac" and mo: "managed_organization env now cookie org manages ac = Ok (w, m, r)"
    and auth: "authenticate env now cookie ac = Ok u"
    and other: "other_member e1 e2 v org ac = Ok x" and g: "\<And>m. mb_organization (g m) = mb_organization m"
    and ac': "ac' = insert_audit_log now (ur_id w) org UserResource (ur_id w) name act info (set_member (mb_id x) g ac)"
  shows "org_part i ac' = org_part i ac \<or> change_ok i (ur_id u) ac ac'"
proof (cases "i = org")
  case True
  note k = managed_organization_Ok [OF mo]
  then have live: "get_organization (ac_conductor ac') org \<noteq> None"
    using get_organization_live [of r ac org] by (simp add: ac')
  have "audited i (ur_id u) ac ac'" using auth k True by (auto simp: ac' audited_def set_member_def)
  moreover have "managed_by i (ur_id u) ac" using managed_by_request [OF mo] auth k True by simp
  ultimately show ?thesis using live True by (auto simp: change_ok_def deleted_by_owner_def)
next
  case False
  then show ?thesis using other_member_Ok [OF other] wf g by (simp add: ac' org_part_other)
qed

lemma change_ok_join:
  assumes run: "join_commit now p ac = Ok ac'"
  shows "org_part i ac' = org_part i ac \<or> i = jp_organization p \<and> audited i (ur_id (jp_user p)) ac ac' \<and> joined i (ur_id (jp_user p)) ac ac'"
proof -
  from join_commit_effect [OF run] obtain ac1 where ins: "insert_member now (ur_id (jp_user p)) (jp_organization p) Member ac = Ok ac1"
    and part: "org_part i ac' = org_part i ac1" and audit: "audited (jp_organization p) (ur_id (jp_user p)) ac1 ac'"
    by (auto simp: audited_def)
  note eff = insert_member_effect [OF ins]
  then have "audited (jp_organization p) (ur_id (jp_user p)) ac ac'" using audit by (simp add: audited_def)
  then show ?thesis using eff part by (cases "i = jp_organization p") (auto simp: org_part_def joined_def)
qed

lemma change_step:
  assumes "org_step env svc a s s'" and "accounts_wf (fst s)" and "i \<in> org_id ` set (orgs (fst s))"
  shows "org_part i (fst s') = org_part i (fst s)
    \<or> (\<exists>u. a = Some u \<and> (change_ok i u (fst s) (fst s')
        \<or> audited i u (fst s) (fst s') \<and> joined i u (fst s) (fst s')
          \<and> (\<exists>p \<in> set (snd s). ur_id (jp_user p) = u \<and> jp_organization p = i)))"
  using assms
proof (induction rule: org_step.induct)
  case (logs_in ids now hostname query info cookie ac r ac' ps)
  then show ?case using org_part_login by auto
next
  case opens
  then show ?case by (auto simp: me_def and_then_eq_Ok org_part_pick)
next
  case creates
  then show ?case using org_part_create by auto
next
  case (deletes now info cookie org ac ac' u ps)
  then show ?case using change_ok_delete [of ac env now info cookie org ac' u i] by auto
next
  case (renames now info cookie org name ac ac' u ps)
  then obtain w m r where "managed_organization env now cookie org manages ac = Ok (w, m, r)"
    and "ac' = insert_audit_log now (ur_id w) (org_id r) OrganizationResource (org_id r) (org_name r) OrganizationUpdateName info
           (set_org org (\<lambda>r. r\<lparr>org_name := name\<rparr>) ac)"
    by (auto simp: update_org_name_def and_then_eq_Ok)
  from change_ok_settings [OF this(1) renames.hyps(2) _ _ this(2)] show ?case by auto
next
  case (configures now info cookie org settings ac ac' u ps)
  then obtain w m r where "managed_organization env now cookie org manages ac = Ok (w, m, r)"
    and "ac' = insert_audit_log now (ur_id w) (org_id r) OrganizationResource (org_id r) (org_name r) OrganizationUpdate info
           (set_org org (\<lambda>r. r\<lparr>org_auto_start := as_auto_start settings, org_auto_stop := as_auto_stop settings,
                org_allow_workspace_change_auto_start := as_allow_workspace_change_auto_start settings,
                org_allow_workspace_change_auto_stop := as_allow_workspace_change_auto_stop settings\<rparr>) ac)"
    by (auto simp: update_org_auto_start_stop_def and_then_eq_Ok)
  from change_ok_settings [OF this(1) configures.hyps(2) _ _ this(2)] show ?case by auto
next
  case (promotes now info cookie org other role ac view ac' u ps)
  then obtain w m r x where "managed_organization env now cookie org manages ac = Ok (w, m, r)"
    and "other_member (doesnt_exist env other) ''organization owner can't be updated'' other org ac = Ok x"
    and "ac' = insert_audit_log now (ur_id w) org UserResource (ur_id w) (case ur_name w of Some n \<Rightarrow> n | None \<Rightarrow> '''')
            OrganizationUpdateMember info (set_member (mb_id x) (\<lambda>m. m\<lparr>mb_role := role\<rparr>) ac)"
    by (auto simp: update_organization_member_def and_then_eq_Ok)
  from change_ok_member [OF _ this(1) promotes.hyps(2) this(2) _ this(3)] promotes.prems show ?case by auto
next
  case (removes now info cookie org other ac ac' u ps)
  then obtain w m r x where "managed_organization env now cookie org manages ac = Ok (w, m, r)"
    and "other_member (doesnt_exist env other) ''organization owner can't be deleted'' other org ac = Ok x"
    and "ac' = insert_audit_log now (ur_id w) org UserResource (ur_id w) (case ur_name w of Some n \<Rightarrow> n | None \<Rightarrow> '''')
            OrganizationDeleteMember info (set_member (mb_id x) (\<lambda>m. m\<lparr>mb_deleted := True\<rparr>) ac)"
    by (auto simp: delete_organization_member_def and_then_eq_Ok)
  from change_ok_member [OF _ this(1) removes.hyps(2) this(2) _ this(3)] removes.prems show ?case by auto
next
  case (joins now p ac ac' ps)
  then show ?case using change_ok_join by fastforce
qed (auto simp: set_current_organization_def disconnect_git_provider_def disconnect_commit_def update_cluster_user_def cluster_user_commit_def
    update_organization_quota_def create_user_invitation_def and_then_eq_Ok Let_def)


end
