(* ===== verification/Organization_Guards.thy ===== *)
theory Organization_Guards
  imports Organizations
begin

text \<open>
  What the guards of the handlers in \<open>Organizations\<close> and \<open>Accounts\<close> do not prevent, that a login leads to a token
  which authenticates its user, and concrete runs to which the theorems of these theories apply.
\<close>

section \<open>What the guards leave open\<close>

lemma find_update_member:
  assumes "distinct (map mb_id ms)" and "find P ms = Some m" and "P (f m)"
  shows "find P (update_rows mb_id (mb_id m) f ms) = Some (f m)"
  using assms
proof (induction ms)
  case (Cons x xs)
  show ?case
  proof (cases "P x")
    case True
    with Cons.prems show ?thesis by simp
  next
    case False
    with Cons.prems have m: "find P xs = Some m" by simp
    then have "m \<in> set xs" by (auto dest: find_in_list)
    with Cons.prems(1) have "mb_id x \<noteq> mb_id m" by (auto simp: rev_image_eqI)
    with False m Cons show ?thesis by simp
  qed
qed simp

lemma find_update_other:
  "j \<noteq> i \<Longrightarrow> (\<And>x. key (f x) = key x) \<Longrightarrow> find (\<lambda>x. key x = j \<and> P x) (update_rows key i f xs) = find (\<lambda>x. key x = j \<and> P x) xs"
  by (induction xs) auto

lemma get_user_orgs_set_member:
  assumes "\<And>m. mb_user (f m) = mb_user m" and "\<And>m. mb_deleted (f m) = mb_deleted m"
  shows "length (get_user_organizations (ac_conductor (set_member i f ac)) u) = length (get_user_organizations (ac_conductor ac) u)"
proof -
  have "length (filter (\<lambda>m. mb_user m = u \<and> active m) (update_rows mb_id i f ms)) = length (filter (\<lambda>m. mb_user m = u \<and> active m) ms)" for ms
    using assms by (induction ms) auto
  then show ?thesis by (simp add: get_user_organizations_def set_member_def update_members_def)
qed

lemma authenticate_same_users:
  "ac_users ac' = ac_users ac \<Longrightarrow> authenticate env now cookie ac' = authenticate env now cookie ac"
  by (simp add: authenticate_def get_user_def)

lemma deleted_is_gone: "get_organization (ac_conductor (set_org i (\<lambda>r. r\<lparr>org_deleted := True\<rparr>) ac)) i = None"
proof -
  have "find (\<lambda>r. org_id r = i \<and> \<not> org_deleted r) (update_rows org_id i (\<lambda>r. r\<lparr>org_deleted := True\<rparr>) os) = None" for os
    by (induction os) auto
  then show ?thesis by (simp add: get_organization_def set_org_def update_orgs_def)
qed

lemma get_organization_same_orgs: "orgs ac' = orgs ac \<Longrightarrow> get_organization (ac_conductor ac') i = get_organization (ac_conductor ac) i"
  by (simp add: get_organization_def)

text \<open>
  C39: An administrator of an organization can make himself an owner of it, and then delete it, against the intent that
  only owners delete and that an owner cannot be changed by others.
\<close>

theorem admin_takes_organization_over:
  assumes wf: "accounts_wf ac" and auth: "authenticate env now cookie ac = Ok u"
    and member: "get_organization_member ac (ur_id u) i = Some m" and role: "mb_role m = Admin"
    and live: "get_organization (ac_conductor ac) i = Some r"
    and more: "length (get_user_organizations (ac_conductor ac) (ur_id u)) \<noteq> 1"
  shows "delete_organization env now info cookie i ac = Err Unauthorized
    \<and> (\<exists>view ac1 ac2. update_organization_member env now info cookie i (ur_id u) Owner ac = Ok (view, ac1)
         \<and> delete_organization env now info cookie i ac1 = Ok ac2 \<and> get_organization (ac_conductor ac2) i = None)"
proof -
  let ?f = "\<lambda>m. m\<lparr>mb_role := Owner\<rparr>"
  let ?ac1 = "insert_audit_log now (ur_id u) i UserResource (ur_id u) (case ur_name u of Some n \<Rightarrow> n | None \<Rightarrow> '''')
     OrganizationUpdateMember info (set_member (mb_id m) ?f ac)"
  have user: "get_user ac (ur_id u) = Some u"
    using auth by (auto simp: authenticate_def and_then_eq_Ok ok_or_eq_Ok get_user_def dest: find_in_list)
  have mi: "mb_organization m = i" using get_member_in [OF member] by simp
  have "\<exists>view. update_organization_member env now info cookie i (ur_id u) Owner ac = Ok (view, ?ac1)"
    using auth member role live user mi
    by (simp add: update_organization_member_def managed_organization_def organization_or_error_def other_member_def)
  moreover
  have auth1: "authenticate env now cookie ?ac1 = Ok u"
    using auth authenticate_same_users [of ?ac1 ac] by (simp add: set_member_def)
  have "distinct (map mb_id (mbs ac))" using wf by (simp add: accounts_wf_def members_wf_def)
  then have member1: "get_organization_member ?ac1 (ur_id u) i = Some (?f m)"
    using member find_update_member [of "mbs ac" "\<lambda>m. mb_user m = ur_id u \<and> mb_organization m = i \<and> active m" m ?f] get_member_in [OF member]
    by (simp add: get_organization_member_def set_member_def)
  have live1: "get_organization (ac_conductor ?ac1) i = Some r" using live by simp
  have id: "org_id r = i" using live by (auto simp: get_organization_def dest: find_in_list)
  have more1: "length (get_user_organizations (ac_conductor ?ac1) (ur_id u)) \<noteq> 1"
    using more get_user_orgs_set_member [of ?f "mb_id m" ac "ur_id u"] by simp
  let ?ac2 = "insert_audit_log now (ur_id u) i OrganizationResource i (org_name r) OrganizationDelete info
     (set_org i (\<lambda>r. r\<lparr>org_deleted := True\<rparr>) (set_member (mb_id m) (\<lambda>m. m\<lparr>mb_deleted := True\<rparr>) ?ac1))"
  have "delete_organization env now info cookie i ?ac1 = Ok ?ac2"
    using auth1 member1 live1 more1 mi id by (simp add: delete_organization_def managed_organization_def organization_or_error_def)
  moreover have "get_organization (ac_conductor ?ac2) i = None"
    by (simp add: deleted_is_gone)
  moreover have "delete_organization env now info cookie i ac = Err Unauthorized"
    using auth member role by (simp add: delete_organization_def managed_organization_def)
  ultimately show ?thesis by blast
qed

text \<open>
  The guard that keeps a user in an organization counts memberships, also those of organizations that somebody
  else deleted: an owner whose other organizations are gone can delete the last one, and then the account no longer
  opens.
\<close>

theorem last_organization_can_be_deleted:
  assumes auth: "authenticate env now cookie ac = Ok u"
    and member: "get_organization_member ac (ur_id u) i = Some m" and role: "mb_role m = Owner"
    and live: "get_organization (ac_conductor ac) i = Some r"
    and more: "length (get_user_organizations (ac_conductor ac) (ur_id u)) \<noteq> 1"
    and gone: "\<And>m'. m' \<in> set (mbs ac) \<Longrightarrow> active m' \<Longrightarrow> mb_user m' = ur_id u \<Longrightarrow> mb_organization m' \<noteq> i \<Longrightarrow>
       get_organization (ac_conductor ac) (mb_organization m') = None"
  shows "\<exists>ac'. delete_organization env now info cookie i ac = Ok ac'
    \<and> me env now cookie ac' = Err (InternalError ''don't have any orgnizations'')"
proof -
  let ?ac' = "insert_audit_log now (ur_id u) i OrganizationResource i (org_name r) OrganizationDelete info
     (set_org i (\<lambda>r. r\<lparr>org_deleted := True\<rparr>) (set_member (mb_id m) (\<lambda>m. m\<lparr>mb_deleted := True\<rparr>) ac))"
  have id: "org_id r = i" "mb_organization m = i"
    using live get_member_in [OF member] by (auto simp: get_organization_def dest: find_in_list)
  then have run: "delete_organization env now info cookie i ac = Ok ?ac'"
    using auth member role live more by (simp add: delete_organization_def managed_organization_def organization_or_error_def)
  have dead: "get_organization (ac_conductor ?ac') (mb_organization w) = None"
    if w: "w \<in> set (mbs ?ac')" "active w" "mb_user w = ur_id u" for w
  proof (cases "mb_organization w = i")
    case False
    from w(1) obtain w0 where "w0 \<in> set (mbs ac)" "w = (if mb_id w0 = mb_id m then w0\<lparr>mb_deleted := True\<rparr> else w0)"
      by (auto simp: set_org_def set_member_def in_update_rows)
    with w have "w \<in> set (mbs ac)" by (auto split: if_splits)
    with gone w False have "get_organization (ac_conductor ac) (mb_organization w) = None" by blast
    then show ?thesis
      using False by (simp add: get_organization_def set_org_def set_member_def find_update_other)
  qed (simp add: deleted_is_gone)
  have "user_organization u c ?ac' = None" for c
  proof (cases "get_organization_member ?ac' (ur_id u) c")
    case (Some w)
    from get_member_in [OF Some] dead [of w] have "get_organization (ac_conductor ?ac') c = None" by auto
    then show ?thesis by (simp add: user_organization_def)
  next
    case None
    have "org_id o' = c" if "get_organization (ac_conductor ?ac') c = Some o'" for o'
      using that by (auto simp: get_organization_def dest: find_in_list)
    with None show ?thesis by (auto simp: user_organization_def split: option.splits)
  qed
  moreover have "all_user_organizations u ?ac' = []"
    using dead by (auto simp: all_user_organizations_def get_user_organizations_def)
  moreover have "authenticate env now cookie ?ac' = Ok u"
    using auth authenticate_same_users [of ?ac' ac] by (simp add: set_org_def set_member_def)
  ultimately have "me env now cookie ?ac' = Err (InternalError ''don't have any orgnizations'')"
    by (simp add: me_def user_current_organization_def pick_user_organization_def)
  with run show ?thesis by blast
qed

lemma insert_member_other:
  assumes "insert_member now u i role ac = Ok ac'"
  shows "get_organization_member ac' w j = (if w = u \<and> j = i then Some (last (mbs ac')) else get_organization_member ac w j)"
proof -
  from insert_member_effect [OF assms] obtain m where m: "mbs ac' = mbs ac @ [m]" "mb_user m = u" "mb_organization m = i" "active m"
    and none: "get_organization_member ac u i = None" by blast
  have "find P (xs @ [m]) = (case find P xs of Some x \<Rightarrow> Some x | None \<Rightarrow> if P m then Some m else None)"
    for P :: "member \<Rightarrow> bool" and xs by (induction xs) auto
  with m none show ?thesis by (auto simp: get_organization_member_def split: option.splits)
qed

text \<open>
  An invitation is for one user, but its use is checked outside the transaction that marks it: two users whose
  requests overlap both join by it, while the second is refused if the first is through.
\<close>

theorem invitation_used_twice:
  assumes a1: "authenticate env now cookie1 ac = Ok u1" and a2: "authenticate env now cookie2 ac = Ok u2"
    and other: "ur_id u1 \<noteq> ur_id u2"
    and code: "find (\<lambda>i. iv_id i = code \<and> iv_used_at i = None) (ac_invitations ac) = Some iv" and valid: "now \<le> iv_expires_at iv"
    and n1: "get_organization_member ac (ur_id u1) (iv_organization iv) = None"
    and n2: "get_organization_member ac (ur_id u2) (iv_organization iv) = None"
  shows "\<exists>p1 p2 ac1 ac2. join_check env now info1 cookie1 code ac = Ok p1 \<and> join_check env now info2 cookie2 code ac = Ok p2
    \<and> join_commit now p1 ac = Ok ac1 \<and> join_commit now p2 ac1 = Ok ac2
    \<and> get_organization_member ac2 (ur_id u1) (iv_organization iv) \<noteq> None
    \<and> get_organization_member ac2 (ur_id u2) (iv_organization iv) \<noteq> None
    \<and> join_organization env now info2 cookie2 code ac1 = Err (InvalidRequest ''invitation id is invalid'')"
proof -
  let ?p = "\<lambda>u info. \<lparr>jp_user = u, jp_invitation = code, jp_organization = iv_organization iv, jp_info = info\<rparr>"
  have c: "join_check env now info1 cookie1 code ac = Ok (?p u1 info1)" "join_check env now info2 cookie2 code ac = Ok (?p u2 info2)"
    using a1 a2 code valid n1 n2 by (simp_all add: join_check_def)
  have commits: "\<exists>ac'. join_commit now p ac = Ok ac'" if "get_organization_member ac (ur_id (jp_user p)) (jp_organization p) = None" for p ac
    using that by (simp add: join_commit_def insert_member_def Let_def)
  have members: "get_organization_member ac' w j =
      (if w = ur_id (jp_user p) \<and> j = jp_organization p then Some (last (mbs ac')) else get_organization_member ac w j)"
    if run: "join_commit now p ac = Ok ac'" for p ac ac' w j
  proof -
    from join_commit_effect [OF run] obtain ac1 where "insert_member now (ur_id (jp_user p)) (jp_organization p) Member ac = Ok ac1"
      and "mbs ac' = mbs ac1" by auto
    with insert_member_other [OF this(1), of w j] show ?thesis by (simp add: get_organization_member_def)
  qed
  from commits [where p = "?p u1 info1" and ac = ac] n1 obtain ac1 where c1: "join_commit now (?p u1 info1) ac = Ok ac1" by auto
  have "get_organization_member ac1 (ur_id u2) (iv_organization iv) = None" using members [OF c1] other n2 by simp
  with commits [where p = "?p u2 info2" and ac = ac1] obtain ac2 where c2: "join_commit now (?p u2 info2) ac1 = Ok ac2" by auto
  have "find (\<lambda>i. iv_id i = code \<and> iv_used_at i = None) (update_rows iv_id code (\<lambda>i. i\<lparr>iv_used_at := Some now\<rparr>) is) = None" for "is"
    by (induction "is") auto
  then have used: "find (\<lambda>i. iv_id i = code \<and> iv_used_at i = None) (ac_invitations ac1) = None"
    using join_commit_effect [OF c1] by auto
  have "ac_users ac1 = update_rows ur_id (ur_id u1) (\<lambda>u. u\<lparr>ur_current_organization := iv_organization iv\<rparr>) (ac_users ac)"
    using join_commit_effect [OF c1] insert_member_effect by fastforce
  then have "get_user ac1 (ur_id u2) = get_user ac (ur_id u2)"
    using other by (simp add: get_user_def find_update_other)
  moreover have "get_user ac (ur_id u2) = Some u2"
    using a2 by (auto simp: authenticate_def and_then_eq_Ok ok_or_eq_Ok get_user_def dest: find_in_list)
  ultimately have "authenticate env now cookie2 ac1 = Ok u2"
    using a2 by (auto simp: authenticate_def and_then_eq_Ok ok_or_eq_Ok get_user_def dest: find_in_list)
  then have "join_organization env now info2 cookie2 code ac1 = Err (InvalidRequest ''invitation id is invalid'')"
    using used by (simp add: join_organization_def join_check_def)
  with c c1 c2 members [OF c2] members [OF c1] show ?thesis by simp
qed

section \<open>Logins\<close>

lemma find_by_key: "distinct (map key xs) \<Longrightarrow> x \<in> set xs \<Longrightarrow> P x \<Longrightarrow> find (\<lambda>y. key y = key x \<and> P y) xs = Some x"
  by (induction xs) auto

lemma get_user_wf: "accounts_wf ac \<Longrightarrow> u \<in> set (ac_users ac) \<Longrightarrow> get_user ac (ur_id u) = Some u"
  using find_by_key [of ur_id "ac_users ac" u "\<lambda>u. \<not> ur_deleted u"] by (simp add: get_user_def accounts_wf_def users_wf_def)

text \<open>The account a login uses is connected to the user it returns.\<close>

lemma login_user_connected:
  assumes "accounts_wf ac" and run: "login_user env ids now info p pu t ac = Ok (u, ac')"
  shows "u \<in> set (ac_users ac') \<and> (\<exists>c \<in> set (ac_oauths ac'). \<not> oc_deleted c \<and> oc_user c = ur_id u \<and> oc_provider c = p
     \<and> oc_provider_id c = pu_id pu)"
proof (cases "find (\<lambda>c. oc_provider c = p \<and> oc_provider_id c = pu_id pu \<and> \<not> oc_deleted c) (ac_oauths ac)")
  case None
  with run obtain ac1 where ac1: "create_new_user ids now p pu t ac = Ok (u, ac1)"
    and eq: "ac_users ac' = ac_users ac1" "ac_oauths ac' = ac_oauths ac1"
    by (auto simp: login_user_def and_then_eq_Ok split: if_splits)
  from ac1 show ?thesis
    by (rule create_new_user_effect) (use eq in \<open>auto simp: new_connection_def\<close>)
next
  case (Some conn)
  let ?f = "\<lambda>c. c\<lparr>oc_provider_login := pu_login pu, oc_access_token := t, oc_avatar_url := pu_avatar_url pu,
    oc_email := pu_email pu, oc_name := pu_name pu\<rparr>"
  have conn: "conn \<in> set (ac_oauths ac)" "oc_provider conn = p" "oc_provider_id conn = pu_id pu" "\<not> oc_deleted conn"
    using find_in_list [OF Some] by simp_all
  from Some run have oauths: "ac_oauths ac' = update_rows oc_id (oc_id conn) ?f (ac_oauths ac)"
    and u: "find (\<lambda>u. ur_id u = oc_user conn) (ac_users ac') = Some u"
    by (auto simp: login_user_def known_user_def and_then_eq_Ok ok_or_eq_Ok Let_def)
  have "?f conn \<in> set (ac_oauths ac')" using conn(1) oauths by (auto simp: in_update_rows)
  with u conn show ?thesis by (auto dest!: find_in_list intro!: bexI [of _ "?f conn"])
qed


section \<open>Concrete runs\<close>

definition ex_auth_env :: auth_env where
  "ex_auth_env =
     \<lparr>ae_seal = (\<lambda>_ c. case claim_string c ''user_id'' of Some s \<Rightarrow> s | None \<Rightarrow> ''state''),
      ae_unseal = (\<lambda>later s. if s = ''state'' then Some [''oauth_state'' \<mapsto> JString ''csrf'', ''redirect_url'' \<mapsto> JString ''r'']
         else if later < SESSION_LIFETIME then Some [''user_id'' \<mapsto> JString s] else None),
      ae_show_uuid = (\<lambda>i. replicate (unat i) (CHR ''u'')), ae_parse_uuid = (\<lambda>s. Some (of_nat (length s))),
      ae_is_ip = (\<lambda>_. False), ae_licensed = True, ae_license_users = None\<rparr>"

definition ex_pu :: provider_user where
  "ex_pu = \<lparr>pu_id = 7, pu_login = ''alice'', pu_name = None, pu_email = None, pu_avatar_url = None\<rparr>"

definition ex_svc :: oauth_service where
  "ex_svc = \<lparr>os_authorize_url = (\<lambda>_ _ _. Ok (''url'', ''csrf'')), os_exchange_code = (\<lambda>_ code _. Ok code),
     os_current_user = (\<lambda>_ _. Ok \<lparr>rm_user = ex_pu, rm_created_at = - seconds 90000\<rparr>), os_user_email = (\<lambda>_. Ok [])\<rparr>"

definition ex_ids :: fresh_ids where "ex_ids = \<lparr>fi_user = 1, fi_organization = 11, fi_oauth = 21\<rparr>"

definition ex_info :: request_info where "ex_info = \<lparr>ri_ip = None, ri_user_agent = None\<rparr>"

definition ex_query :: auth_request where
  "ex_query = \<lparr>aq_code = ''gh'', aq_state = ''csrf'', aq_provider = Github, aq_next = None, aq_connect_provider = None\<rparr>"

definition ex_cookie :: "nat \<Rightarrow> string \<rightharpoonup> string" where
  "ex_cookie n = [TOKEN_COOKIE_NAME \<mapsto> replicate n (CHR ''u'')]"

definition ex_personal :: organization where
  "ex_personal = new_organization 11 ''Personal'' (initiate_cluster (initial_accounts empty_db))"

definition ex_logged_in :: accounts where
  "ex_logged_in =
     \<lparr>ac_conductor = empty_db\<lparr>organizations := [ex_personal],
        members := [\<lparr>mb_id = 1, mb_created_at = 0, mb_user = 1, mb_organization = 11, mb_role = Owner, mb_deleted = False\<rparr>]\<rparr>,
      ac_users = [new_user ex_ids 0 Github ex_pu True], ac_oauths = [new_connection 21 1 0 Github ex_pu ''gh'' False], ac_keys = [],
      ac_invitations = [],
      ac_audit = [\<lparr>al_time = 0, al_user = 1, al_organization = 11, al_resource_kind = UserResource, al_resource_id = 1,
        al_resource_name = '''', al_action = UserCreate, al_info = ex_info\<rparr>],
      ac_config = [LAPDEV_CLUSTER_NOT_INITIATED \<mapsto> ''no''], ac_next_member = 2\<rparr>"

lemma ex_pu_email [simp]: "ex_pu\<lparr>pu_email := None\<rparr> = ex_pu"
  by (simp add: ex_pu_def)

lemma ex_login_user:
  "login_user ex_auth_env ex_ids 0 ex_info Github ex_pu ''gh'' (initial_accounts empty_db) = Ok (new_user ex_ids 0 Github ex_pu True, ex_logged_in)"
  by (simp add: login_user_def initial_accounts_def users_limit_reached_def ex_auth_env_def create_new_user_def is_cluster_initiated_def
      initiate_cluster_def create_new_organization_def insert_oauth_def insert_member_def get_organization_member_def ex_ids_def
      update_orgs_def update_members_def insert_audit_log_def ex_logged_in_def ex_personal_def new_user_def ex_pu_def empty_db_def
      Let_def numeral_2_eq_2)

lemma ex_first_login:
  "\<exists>r. session_authorize ex_auth_env ex_svc ex_ids 0 ''h'' ex_query ex_info [OAUTH_STATE_COOKIE \<mapsto> ''state''] (initial_accounts empty_db)
       = Ok (r, ex_logged_in) \<and> rd_token r = Some ''u''"
  using ex_login_user
  by (simp add: session_authorize_def auth_state_token_def cookie_token_def checked_redirect_url_def required_claim_def
      ex_query_def ex_svc_def fetch_provider_user_def seconds_def github_email_def redirect_location_def session_token_def
      new_user_def ex_ids_def) (simp add: ex_auth_env_def claim_string_def Let_def)

lemma ex_fresh: "fresh ex_ids (initial_accounts empty_db)"
  by (simp add: fresh_def initial_accounts_def)

lemma ex_history: "history ex_auth_env ex_svc (initial_accounts empty_db, []) (ex_logged_in, [])"
  using ex_first_login ex_fresh logs_in [of ex_auth_env ex_svc ex_ids 0 "''h''" ex_query ex_info] unfolding history_def by blast


definition ex_renamed :: accounts where
  "ex_renamed = insert_audit_log 1 1 11 OrganizationResource 11 ''Personal'' OrganizationUpdateName ex_info
     (set_org 11 (\<lambda>r. r\<lparr>org_name := ''Team''\<rparr>) ex_logged_in)"

lemma ex_authenticate:
  "n < 100 \<Longrightarrow> replicate n (CHR ''u'') \<noteq> ''state'' \<Longrightarrow>
     authenticate ex_auth_env 1 (ex_cookie n) ac = ok_or Unauthenticated (get_user ac (of_nat n))"
  by (simp add: authenticate_def token_def cookie_token_def ex_cookie_def ex_auth_env_def claim_string_def SESSION_LIFETIME_def seconds_def)

lemma ex_rename: "update_org_name ex_auth_env 1 ex_info (ex_cookie 1) 11 ''Team'' ex_logged_in = Ok ex_renamed"
  by (simp add: update_org_name_def managed_organization_def ex_authenticate get_user_def ex_logged_in_def new_user_def ex_ids_def
      get_organization_member_def organization_or_error_def get_organization_def ex_personal_def new_organization_def ex_renamed_def)



text \<open>Four users with an organization each; the first owns another one, in which the second has a role.\<close>

definition ex_user :: "uuid \<Rightarrow> user" where
  "ex_user i = \<lparr>ur_id = i, ur_created_at = 0, ur_deleted = False, ur_provider = Github, ur_avatar_url = None, ur_email = None,
     ur_name = None, ur_osuser = '''', ur_current_organization = 10 + i, ur_cluster_admin = i = 1, ur_disabled = False\<rparr>"

definition ex_member :: "nat \<Rightarrow> uuid \<Rightarrow> uuid \<Rightarrow> user_role \<Rightarrow> member" where
  "ex_member n u i role = \<lparr>mb_id = n, mb_created_at = 0, mb_user = u, mb_organization = i, mb_role = role, mb_deleted = False\<rparr>"

definition ex_org_row :: "uuid \<Rightarrow> bool \<Rightarrow> organization" where
  "ex_org_row i gone = ex_personal\<lparr>org_id := i, org_deleted := gone\<rparr>"

definition ex_conn :: "uuid \<Rightarrow> oauth_connection" where
  "ex_conn i = new_connection (20 + i) i 0 Github (ex_pu\<lparr>pu_id := ucast i\<rparr>) '''' False"

definition ex_invitation :: user_invitation where
  "ex_invitation = \<lparr>iv_id = 30, iv_created_at = 0, iv_expires_at = seconds 1800, iv_used_at = None, iv_organization = 15\<rparr>"

definition ex_team :: "bool \<Rightarrow> user_role \<Rightarrow> accounts" where
  "ex_team gone role =
     \<lparr>ac_conductor = empty_db\<lparr>organizations := [ex_org_row 11 False, ex_org_row 12 False, ex_org_row 13 False, ex_org_row 14 False,
          ex_org_row 15 gone],
        members := [ex_member 1 1 11 Owner, ex_member 2 2 12 Owner, ex_member 3 3 13 Owner, ex_member 4 4 14 Owner,
          ex_member 5 1 15 Owner, ex_member 6 2 15 role]\<rparr>,
      ac_users = [ex_user 1, ex_user 2, ex_user 3, ex_user 4], ac_oauths = [ex_conn 1, ex_conn 2, ex_conn 3, ex_conn 4],
      ac_keys = [], ac_invitations = [ex_invitation], ac_audit = [], ac_config = Map.empty, ac_next_member = 7\<rparr>"

lemmas ex_team_simps = ex_team_def ex_user_def ex_member_def ex_org_row_def ex_conn_def ex_invitation_def ex_personal_def
  new_organization_def

lemma ex_team_wf: "accounts_wf (ex_team gone role)"
  by (simp add: accounts_wf_def members_wf_def owned_def users_wf_def administered_def connected_def is_cluster_initiated_def ex_team_simps)

lemma ex_team_user:
  "authenticate ex_auth_env 1 (ex_cookie 2) (ex_team gone role) = Ok (ex_user 2)"
  "authenticate ex_auth_env 1 (ex_cookie 3) (ex_team gone role) = Ok (ex_user 3)"
  "authenticate ex_auth_env 1 (ex_cookie 4) (ex_team gone role) = Ok (ex_user 4)"
  by (simp_all add: ex_authenticate get_user_def ex_team_def ex_user_def numeral_eq_Suc)

lemma ex_team_lookups:
  "get_organization_member (ex_team gone role) 2 15 = Some (ex_member 6 2 15 role)"
  "get_organization_member (ex_team gone role) 2 12 = Some (ex_member 2 2 12 Owner)"
  "get_organization_member (ex_team gone role) 3 15 = None" "get_organization_member (ex_team gone role) 4 15 = None"
  "get_organization (ac_conductor (ex_team gone role)) 12 = Some (ex_org_row 12 False)"
  "get_organization (ac_conductor (ex_team gone role)) 15 = (if gone then None else Some (ex_org_row 15 False))"
  "length (get_user_organizations (ac_conductor (ex_team gone role)) 2) = 2"
  by (simp_all add: get_organization_member_def get_organization_def get_user_organizations_def ex_team_simps)

theorem admin_takes_organization_over_witness:
  "\<exists>view ac1 ac2. update_organization_member ex_auth_env 1 ex_info (ex_cookie 2) 15 2 Owner (ex_team False Admin) = Ok (view, ac1)
     \<and> delete_organization ex_auth_env 1 ex_info (ex_cookie 2) 15 ac1 = Ok ac2 \<and> get_organization (ac_conductor ac2) 15 = None"
proof -
  have id: "ur_id (ex_user 2) = 2" by (simp add: ex_user_def)
  have "get_organization_member (ex_team False Admin) (ur_id (ex_user 2)) 15 = Some (ex_member 6 2 15 Admin)"
    "mb_role (ex_member 6 2 15 Admin) = Admin" "get_organization (ac_conductor (ex_team False Admin)) 15 = Some (ex_org_row 15 False)"
    "length (get_user_organizations (ac_conductor (ex_team False Admin)) (ur_id (ex_user 2))) \<noteq> 1"
    by (simp_all add: ex_team_lookups id ex_member_def)
  from admin_takes_organization_over [OF ex_team_wf ex_team_user(1) this] show ?thesis by (simp add: id)
qed

theorem last_organization_can_be_deleted_witness:
  "\<exists>ac'. delete_organization ex_auth_env 1 ex_info (ex_cookie 2) 12 (ex_team True Member) = Ok ac'
     \<and> me ex_auth_env 1 (ex_cookie 2) ac' = Err (InternalError ''don't have any orgnizations'')"
proof -
  have id: "ur_id (ex_user 2) = 2" by (simp add: ex_user_def)
  have look: "get_organization_member (ex_team True Member) (ur_id (ex_user 2)) 12 = Some (ex_member 2 2 12 Owner)"
    "mb_role (ex_member 2 2 12 Owner) = Owner" "get_organization (ac_conductor (ex_team True Member)) 12 = Some (ex_org_row 12 False)"
    "length (get_user_organizations (ac_conductor (ex_team True Member)) (ur_id (ex_user 2))) \<noteq> 1"
    by (simp_all add: ex_team_lookups id ex_member_def)
  have "get_organization (ac_conductor (ex_team True Member)) (mb_organization m) = None"
    if "m \<in> set (mbs (ex_team True Member))" "mb_user m = ur_id (ex_user 2)" "mb_organization m \<noteq> 12" for m
    using that ex_team_lookups(6) [of True Member] by (auto simp: id) (auto simp: ex_team_def ex_member_def)
  from last_organization_can_be_deleted [OF ex_team_user(1) look this] show ?thesis by blast
qed

theorem invitation_used_twice_witness:
  "\<exists>p1 p2 ac1 ac2. join_check ex_auth_env 1 ex_info (ex_cookie 3) 30 (ex_team False Member) = Ok p1
     \<and> join_check ex_auth_env 1 ex_info (ex_cookie 4) 30 (ex_team False Member) = Ok p2
     \<and> join_commit 1 p1 (ex_team False Member) = Ok ac1 \<and> join_commit 1 p2 ac1 = Ok ac2"
proof -
  have id: "ur_id (ex_user 3) = 3" "ur_id (ex_user 4) = 4" "iv_organization ex_invitation = 15" "1 \<le> iv_expires_at ex_invitation"
    by (simp_all add: ex_user_def ex_invitation_def seconds_def)
  have "ur_id (ex_user 3) \<noteq> ur_id (ex_user 4)"
    "find (\<lambda>i. iv_id i = 30 \<and> iv_used_at i = None) (ac_invitations (ex_team False Member)) = Some ex_invitation"
    by (simp_all add: id) (simp add: ex_team_def ex_invitation_def)
  from invitation_used_twice [OF ex_team_user(2) ex_team_user(3) this id(4)] show ?thesis
    by (simp add: id ex_team_lookups) blast
qed

section \<open>The audit log\<close>

lemma concat_pages: "concat (map (\<lambda>p. take k (drop (k * p) xs)) [0..<n]) = take (k * n) xs"
proof (induction n)
  case (Suc n)
  have "take (k * n + k) xs = take (k * n) xs @ take k (drop (k * n) xs)" by (rule take_add)
  with Suc show ?case by (simp add: add.commute)
qed simp



text \<open>The row written when a member is removed does not say which one.\<close>

lemma audit_does_not_name_member:
  "delete_organization_member env now info cookie i a ac = Ok ac1 \<Longrightarrow>
   delete_organization_member env now info cookie i b ac = Ok ac2 \<Longrightarrow> ac_audit ac1 = ac_audit ac2"
  by (auto simp: delete_organization_member_def and_then_eq_Ok set_member_def)

end
