(* ===== verification/Service_Selection.thy ===== *)
theory Service_Selection
  imports Lapdev_Prelude
begin

text \<open>
  Which services of a cluster select which workloads, from \<^verbatim>\<open>crates/db/src/api.rs\<close>. The tables keep the selector
  of a service and the labels of a workload one pair per row, so that the questions can be asked by index: the
  services of given workloads (when an environment is created), the services of one set of labels and the
  workloads of one selector (when an object of the cluster changes).

  A \<^verbatim>\<open>BTreeMap\<close> of labels is a list of pairs with distinct keys, a JSON number a mathematical integer. The
  environment of a query is the list of rows of a table in the order of insertion. Columns that only record times,
  and the address of a service, are left out; the iteration order of a hash set is an argument.
\<close>

section \<open>Rows\<close>

datatype json_scalar = JsonInt int | JsonOther

record stored_service_port =
  ssp_name :: "string option"
  ssp_port :: i32
  ssp_target_port :: "json_scalar option"
  ssp_protocol :: "string option"
  ssp_node_port :: "i32 option"
  ssp_original_target_port :: "i32 option"

record service_port =
  sp_name :: "string option"
  sp_port :: i32
  sp_target_port :: "i32 option"
  sp_protocol :: "string option"
  sp_node_port :: "i32 option"
  sp_original_target_port :: "i32 option"

record cached_service =
  cc_name :: string
  cc_selector :: "(string \<times> string) list"
  cc_ports :: "service_port list"
  cc_yaml :: string

record cluster_service =
  cs_id :: uuid
  cs_cluster :: uuid
  cs_namespace :: string
  cs_name :: string
  cs_version :: string
  cs_yaml :: string
  cs_selector :: "(string \<times> string) list"
  cs_ports :: "stored_service_port list"
  cs_type :: "string option"
  cs_deleted :: bool

record selector_row =
  sr_cluster :: uuid
  sr_namespace :: string
  sr_service :: uuid
  sr_key :: string
  sr_value :: string
  sr_deleted :: bool

record label_row =
  lb_catalog :: uuid
  lb_workload :: uuid
  lb_cluster :: uuid
  lb_namespace :: string
  lb_key :: string
  lb_value :: string
  lb_deleted :: bool

record service_db =
  sd_services :: "cluster_service list"
  sd_selectors :: "selector_row list"
  sd_labels :: "label_row list"

section \<open>Writing\<close>

definition replace_workload_labels :: "uuid \<Rightarrow> uuid \<Rightarrow> uuid \<Rightarrow> string \<Rightarrow> (string \<times> string) list \<Rightarrow> service_db \<Rightarrow> service_db" where
  "replace_workload_labels workload catalog cluster ns labels db =
     db\<lparr>sd_labels := map (\<lambda>r. if lb_workload r = workload \<and> \<not> lb_deleted r then r\<lparr>lb_deleted := True\<rparr> else r) (sd_labels db)
       @ map (\<lambda>(k, v). \<lparr>lb_catalog = catalog, lb_workload = workload, lb_cluster = cluster, lb_namespace = ns,
             lb_key = k, lb_value = v, lb_deleted = False\<rparr>) labels\<rparr>"

definition mark_service_selectors_deleted :: "uuid \<Rightarrow> service_db \<Rightarrow> service_db" where
  "mark_service_selectors_deleted service db =
     db\<lparr>sd_selectors := map (\<lambda>r. if sr_service r = service \<and> \<not> sr_deleted r then r\<lparr>sr_deleted := True\<rparr> else r) (sd_selectors db)\<rparr>"

definition replace_service_selectors :: "uuid \<Rightarrow> uuid \<Rightarrow> string \<Rightarrow> (string \<times> string) list \<Rightarrow> service_db \<Rightarrow> service_db" where
  "replace_service_selectors service cluster ns selectors db =
     (let db' = mark_service_selectors_deleted service db
      in db'\<lparr>sd_selectors := sd_selectors db' @ map (\<lambda>(k, v). \<lparr>sr_cluster = cluster, sr_namespace = ns, sr_service = service,
             sr_key = k, sr_value = v, sr_deleted = False\<rparr>) selectors\<rparr>)"

definition service_named :: "uuid \<Rightarrow> string \<Rightarrow> string \<Rightarrow> service_db \<Rightarrow> cluster_service option" where
  "service_named cluster ns name db =
     find (\<lambda>s. cs_cluster s = cluster \<and> cs_namespace s = ns \<and> cs_name s = name) (sd_services db)"

definition set_service :: "cluster_service \<Rightarrow> service_db \<Rightarrow> service_db" where
  "set_service s db = db\<lparr>sd_services := map (\<lambda>x. if cs_id x = cs_id s then s else x) (sd_services db)\<rparr>"

definition upsert_cluster_service ::
    "uuid \<Rightarrow> uuid \<Rightarrow> string \<Rightarrow> string \<Rightarrow> string \<Rightarrow> string \<Rightarrow> (string \<times> string) list \<Rightarrow> stored_service_port list \<Rightarrow> string option
     \<Rightarrow> service_db \<Rightarrow> uuid \<times> service_db" where
  "upsert_cluster_service new_id cluster ns name version yaml selector ports service_type db =
     (case service_named cluster ns name db of
        Some model \<Rightarrow>
          (let updated = model\<lparr>cs_version := version, cs_yaml := yaml, cs_selector := selector, cs_ports := ports,
                 cs_type := service_type, cs_deleted := False\<rparr>
           in (cs_id model, replace_service_selectors (cs_id model) cluster ns selector (set_service updated db)))
      | None \<Rightarrow>
          (let row = \<lparr>cs_id = new_id, cs_cluster = cluster, cs_namespace = ns, cs_name = name, cs_version = version,
                 cs_yaml = yaml, cs_selector = selector, cs_ports = ports, cs_type = service_type, cs_deleted = False\<rparr>
           in (new_id, replace_service_selectors new_id cluster ns selector (db\<lparr>sd_services := sd_services db @ [row]\<rparr>))))"

definition mark_cluster_service_deleted :: "uuid \<Rightarrow> string \<Rightarrow> string \<Rightarrow> service_db \<Rightarrow> service_db" where
  "mark_cluster_service_deleted cluster ns name db =
     (case service_named cluster ns name db of
        None \<Rightarrow> db
      | Some model \<Rightarrow> mark_service_selectors_deleted (cs_id model) (set_service (model\<lparr>cs_deleted := True\<rparr>) db))"

section \<open>Reading\<close>

definition into_service_port :: "stored_service_port \<Rightarrow> service_port option" where
  "into_service_port p =
     (let target = (case ssp_target_port p of
            Some (JsonInt v) \<Rightarrow> if - (2 ^ 31) \<le> v \<and> v < 2 ^ 31 then Some (word_of_int v) else None
          | _ \<Rightarrow> None)
      in Some \<lparr>sp_name = ssp_name p, sp_port = ssp_port p, sp_target_port = target, sp_protocol = ssp_protocol p,
           sp_node_port = ssp_node_port p,
           sp_original_target_port = (case ssp_original_target_port p of Some o' \<Rightarrow> Some o' | None \<Rightarrow> target)\<rparr>)"

definition cached_service_of :: "cluster_service \<Rightarrow> cached_service" where
  "cached_service_of s = \<lparr>cc_name = cs_name s, cc_selector = cs_selector s,
     cc_ports = List.map_filter into_service_port (cs_ports s), cc_yaml = cs_yaml s\<rparr>"

text \<open>\<^verbatim>\<open>BTreeMap::insert\<close>, without the order of the keys, which nothing here depends on.\<close>

definition put :: "string \<Rightarrow> string \<Rightarrow> (string \<times> string) list \<Rightarrow> (string \<times> string) list" where
  "put k v xs = (k, v) # filter (\<lambda>p. fst p \<noteq> k) xs"

definition labels_of :: "label_row list \<Rightarrow> uuid \<Rightarrow> (string \<times> string) list" where
  "labels_of rows w = fold (\<lambda>r. put (lb_key r) (lb_value r)) (filter (\<lambda>r. lb_workload r = w) rows) []"

definition namespace_of :: "label_row list \<Rightarrow> uuid \<Rightarrow> string option" where
  "namespace_of rows w = map_option lb_namespace (find (\<lambda>r. lb_workload r = w) rows)"

definition selectors_of :: "selector_row list \<Rightarrow> uuid \<Rightarrow> (string \<times> string) list" where
  "selectors_of rows s = map (\<lambda>r. (sr_key r, sr_value r)) (filter (\<lambda>r. sr_service r = s) rows)"

definition selector_matches :: "(string \<times> string) list \<Rightarrow> (string \<times> string) list \<Rightarrow> bool" where
  "selector_matches labels selectors = list_all (\<lambda>(k, v). map_of labels k = Some v) selectors"

definition selector_rows :: "uuid \<Rightarrow> string \<Rightarrow> service_db \<Rightarrow> selector_row list" where
  "selector_rows cluster ns db = filter (\<lambda>r. sr_cluster r = cluster \<and> sr_namespace r = ns \<and> \<not> sr_deleted r) (sd_selectors db)"

definition get_matching_cluster_services :: "uuid \<Rightarrow> string \<Rightarrow> (string \<times> string) list \<Rightarrow> service_db \<Rightarrow> cached_service list" where
  "get_matching_cluster_services cluster ns labels db =
     (if labels = [] then []
      else
        (let rows = selector_rows cluster ns db;
             matching = filter (\<lambda>s. selector_matches labels (selectors_of rows s)) (remdups (map sr_service rows))
         in map cached_service_of (filter (\<lambda>s. cs_id s \<in> set matching \<and> \<not> cs_deleted s) (sd_services db))))"

definition find_workloads_matching_selector :: "uuid \<Rightarrow> string \<Rightarrow> (string \<times> string) list \<Rightarrow> service_db \<Rightarrow> uuid list" where
  "find_workloads_matching_selector cluster ns selector db =
     (if selector = [] then []
      else
        (let rows = filter (\<lambda>r. lb_cluster r = cluster \<and> lb_namespace r = ns \<and> \<not> lb_deleted r
               \<and> (lb_key r, lb_value r) \<in> set selector) (sd_labels db)
         in filter (\<lambda>w. length (filter (\<lambda>r. lb_workload r = w) rows) = length selector) (remdups (map lb_workload rows))))"

text \<open>The body of the loop over namespaces: the services found for the workloads \<open>ws\<close> of one namespace.\<close>

definition services_in_namespace ::
    "uuid \<Rightarrow> service_db \<Rightarrow> label_row list \<Rightarrow> string \<Rightarrow> uuid list \<Rightarrow> uuid \<Rightarrow> uuid set" where
  "services_in_namespace cluster db rows ns ws w =
     (let pairs = concat (map (labels_of rows) ws);
          candidates = map sr_service (filter (\<lambda>r. (sr_key r, sr_value r) \<in> set pairs) (selector_rows cluster ns db));
          full = filter (\<lambda>r. sr_service r \<in> set candidates) (selector_rows cluster ns db)
      in if w \<in> set ws
         then set (filter (\<lambda>s. selector_matches (labels_of rows w) (selectors_of full s)) (map sr_service full))
         else {})"

definition workload_service_ids :: "uuid \<Rightarrow> uuid list \<Rightarrow> service_db \<Rightarrow> uuid \<Rightarrow> uuid set" where
  "workload_service_ids cluster ids db w =
     (let rows = filter (\<lambda>r. lb_workload r \<in> set ids \<and> \<not> lb_deleted r) (sd_labels db);
          namespaces = remdups (List.map_filter (namespace_of rows) ids)
      in \<Union> (set (map (\<lambda>ns. services_in_namespace cluster db rows ns
           (filter (\<lambda>i. namespace_of rows i = Some ns \<and> labels_of rows i \<noteq> []) ids) w) namespaces)))"

definition offered :: "cluster_service \<Rightarrow> bool" where
  "offered s = (\<not> cs_deleted s \<and> (cs_type s = Some ''ClusterIP'' \<or> cs_type s = None))"

definition get_services_for_catalog_workloads ::
    "(uuid set \<Rightarrow> uuid list) \<Rightarrow> uuid \<Rightarrow> uuid list \<Rightarrow> service_db \<Rightarrow> (uuid \<rightharpoonup> cached_service list)" where
  "get_services_for_catalog_workloads order cluster ids db w =
     (let found = List.map_filter (\<lambda>i. map_option cached_service_of (find (\<lambda>s. cs_id s = i \<and> offered s) (sd_services db)))
            (order (workload_service_ids cluster ids db w))
      in if found = [] then None else Some found)"


section \<open>What the tables hold\<close>

definition live_labels :: "service_db \<Rightarrow> uuid \<Rightarrow> label_row list" where
  "live_labels db w = filter (\<lambda>r. lb_workload r = w \<and> \<not> lb_deleted r) (sd_labels db)"

definition live_selectors :: "service_db \<Rightarrow> selector_row list" where
  "live_selectors db = filter (\<lambda>r. \<not> sr_deleted r) (sd_selectors db)"

definition selector_row_of :: "cluster_service \<Rightarrow> string \<times> string \<Rightarrow> selector_row" where
  "selector_row_of s p = \<lparr>sr_cluster = cs_cluster s, sr_namespace = cs_namespace s, sr_service = cs_id s,
     sr_key = fst p, sr_value = snd p, sr_deleted = False\<rparr>"

text \<open>The rows of a live service are the pairs of its selector, a deleted service has none.\<close>

definition services_wf :: "service_db \<Rightarrow> bool" where
  "services_wf db \<longleftrightarrow> distinct (map cs_id (sd_services db))
     \<and> distinct (map (\<lambda>s. (cs_cluster s, cs_namespace s, cs_name s)) (sd_services db))
     \<and> sr_service ` set (live_selectors db) \<subseteq> cs_id ` set (sd_services db)
     \<and> (\<forall>s \<in> set (sd_services db). distinct (map fst (cs_selector s))
          \<and> filter (\<lambda>r. sr_service r = cs_id s) (live_selectors db)
            = (if cs_deleted s then [] else map (selector_row_of s) (cs_selector s)))"

definition labels_wf :: "service_db \<Rightarrow> bool" where
  "labels_wf db \<longleftrightarrow> (\<forall>w. distinct (map lb_key (live_labels db w))
     \<and> (\<exists>cluster ns. \<forall>r \<in> set (live_labels db w). lb_cluster r = cluster \<and> lb_namespace r = ns))"

inductive service_step :: "service_db \<Rightarrow> service_db \<Rightarrow> bool" where
  labelled: "distinct (map fst labels) \<Longrightarrow> service_step db (replace_workload_labels w catalog cluster ns labels db)"
| observed: "new_id \<notin> cs_id ` set (sd_services db) \<Longrightarrow> distinct (map fst selector)
    \<Longrightarrow> upsert_cluster_service new_id cluster ns name version yaml selector ports ty db = (i, db') \<Longrightarrow> service_step db db'"
| removed: "service_step db (mark_cluster_service_deleted cluster ns name db)"

definition observed_services :: "service_db \<Rightarrow> bool" where
  "observed_services = service_step\<^sup>*\<^sup>* \<lparr>sd_services = [], sd_selectors = [], sd_labels = []\<rparr>"

lemma live_after_mark:
  "live_selectors (mark_service_selectors_deleted i db) = filter (\<lambda>r. sr_service r \<noteq> i) (live_selectors db)"
proof -
  have "filter (\<lambda>r. \<not> sr_deleted r) (map (\<lambda>r. if sr_service r = i \<and> \<not> sr_deleted r then r\<lparr>sr_deleted := True\<rparr> else r) xs)
      = filter (\<lambda>r. sr_service r \<noteq> i) (filter (\<lambda>r. \<not> sr_deleted r) xs)" for xs
    by (induction xs) auto
  then show ?thesis by (simp add: live_selectors_def mark_service_selectors_deleted_def)
qed

lemma live_after_replace:
  "live_selectors (replace_service_selectors (cs_id s) (cs_cluster s) (cs_namespace s) sel db)
     = filter (\<lambda>r. sr_service r \<noteq> cs_id s) (live_selectors db) @ map (selector_row_of s) sel"
proof -
  have "live_selectors (db\<lparr>sd_selectors := sd_selectors db @ rs\<rparr>) = live_selectors db @ filter (\<lambda>r. \<not> sr_deleted r) rs" for rs and db :: service_db
    by (simp add: live_selectors_def)
  then show ?thesis
    by (simp add: replace_service_selectors_def Let_def live_after_mark selector_row_of_def case_prod_unfold filter_map comp_def
        cong: map_cong)
qed

lemma db_frames [simp]:
  "sd_services (mark_service_selectors_deleted i db) = sd_services db"
  "sd_labels (mark_service_selectors_deleted i db) = sd_labels db"
  "sd_services (replace_service_selectors i c n sel db) = sd_services db"
  "sd_labels (replace_service_selectors i c n sel db) = sd_labels db"
  "sd_labels (set_service s db) = sd_labels db"
  "sd_selectors (set_service s db) = sd_selectors db"
  "sd_services (replace_workload_labels w c cl ns ls db) = sd_services db"
  "sd_selectors (replace_workload_labels w c cl ns ls db) = sd_selectors db"
  by (simp_all add: mark_service_selectors_deleted_def replace_service_selectors_def Let_def set_service_def replace_workload_labels_def)

lemma live_selectors_cong: "sd_selectors db = sd_selectors db' \<Longrightarrow> live_selectors db = live_selectors db'"
  by (simp add: live_selectors_def)

lemma live_labels_cong: "sd_labels db = sd_labels db' \<Longrightarrow> live_labels db = live_labels db'"
  by (simp add: live_labels_def fun_eq_iff)

lemma live_labels_replaced:
  "live_labels (replace_workload_labels w catalog cluster ns labels db) w'
     = (if w' = w then map (\<lambda>(k, v). \<lparr>lb_catalog = catalog, lb_workload = w, lb_cluster = cluster, lb_namespace = ns,
             lb_key = k, lb_value = v, lb_deleted = False\<rparr>) labels
        else live_labels db w')"
proof -
  have old: "filter (\<lambda>r. lb_workload r = w' \<and> \<not> lb_deleted r)
      (map (\<lambda>r. if lb_workload r = w \<and> \<not> lb_deleted r then r\<lparr>lb_deleted := True\<rparr> else r) xs)
    = (if w' = w then [] else filter (\<lambda>r. lb_workload r = w' \<and> \<not> lb_deleted r) xs)" for xs
    by (induction xs) auto
  show ?thesis
    by (simp add: live_labels_def replace_workload_labels_def old filter_map comp_def case_prod_unfold)
qed

lemma labels_wf_step: "service_step db db' \<Longrightarrow> labels_wf db \<Longrightarrow> labels_wf db'"
proof (induction rule: service_step.induct)
  case (labelled labels db w catalog cluster ns)
  then show ?case
    by (auto simp: labels_wf_def live_labels_replaced comp_def case_prod_unfold)
next
  case (observed new_id db selector cluster ns name version yaml ports ty i db')
  then have "sd_labels db' = sd_labels db"
    by (auto simp: upsert_cluster_service_def Let_def split: option.splits)
  then have "live_labels db' = live_labels db" by (rule live_labels_cong)
  with observed.prems show ?case by (simp add: labels_wf_def)
next
  case (removed db cluster ns name)
  have "live_labels (mark_cluster_service_deleted cluster ns name db) = live_labels db"
    by (rule live_labels_cong) (simp add: mark_cluster_service_deleted_def split: option.splits)
  with removed show ?case by (simp add: labels_wf_def)
qed


lemma filter_rows_other:
  "i \<noteq> cs_id s \<Longrightarrow> filter (\<lambda>r. sr_service r = i) (filter (\<lambda>r. sr_service r \<noteq> cs_id s) xs @ map (selector_row_of s) sel)
     = filter (\<lambda>r. sr_service r = i) xs"
  "filter (\<lambda>r. sr_service r = cs_id s) (filter (\<lambda>r. sr_service r \<noteq> cs_id s) xs @ map (selector_row_of s) sel)
     = map (selector_row_of s) sel"
  by (auto simp: filter_map comp_def selector_row_of_def conj_commute filter_empty_conv intro!: filter_cong)

lemma services_wf_written:
  assumes wf: "services_wf db"
    and rows: "live_selectors db' = filter (\<lambda>r. sr_service r \<noteq> cs_id s) (live_selectors db)
       @ map (selector_row_of s) (if cs_deleted s then [] else cs_selector s)"
    and ids: "distinct (map cs_id (sd_services db'))"
    and keys: "distinct (map (\<lambda>s. (cs_cluster s, cs_namespace s, cs_name s)) (sd_services db'))"
    and mem: "set (sd_services db') = insert s {x \<in> set (sd_services db). cs_id x \<noteq> cs_id s}"
    and sel: "distinct (map fst (cs_selector s))"
  shows "services_wf db'"
  unfolding services_wf_def
proof (intro conjI ids keys ballI)
  show "sr_service ` set (live_selectors db') \<subseteq> cs_id ` set (sd_services db')"
    using wf by (auto simp: rows mem services_wf_def selector_row_of_def)
next
  fix x assume "x \<in> set (sd_services db')"
  with mem sel wf show "distinct (map fst (cs_selector x))" by (auto simp: services_wf_def)
next
  fix x assume x: "x \<in> set (sd_services db')"
  show "filter (\<lambda>r. sr_service r = cs_id x) (live_selectors db')
      = (if cs_deleted x then [] else map (selector_row_of x) (cs_selector x))"
  proof (cases "x = s")
    case True
    then show ?thesis by (simp add: rows filter_rows_other del: filter_append)
  next
    case False
    with x mem have "x \<in> set (sd_services db)" "cs_id x \<noteq> cs_id s" by auto
    with wf show ?thesis by (simp add: rows filter_rows_other services_wf_def del: filter_append)
  qed
qed

lemma set_service_rows:
  assumes "services_wf db" and "m \<in> set (sd_services db)" and "cs_id s = cs_id m"
    and "cs_cluster s = cs_cluster m" "cs_namespace s = cs_namespace m" "cs_name s = cs_name m"
  shows "map cs_id (sd_services (set_service s db)) = map cs_id (sd_services db)"
    and "map (\<lambda>s. (cs_cluster s, cs_namespace s, cs_name s)) (sd_services (set_service s db))
       = map (\<lambda>s. (cs_cluster s, cs_namespace s, cs_name s)) (sd_services db)"
    and "set (sd_services (set_service s db)) = insert s {x \<in> set (sd_services db). cs_id x \<noteq> cs_id s}"
proof -
  have same: "x = m" if "x \<in> set (sd_services db)" "cs_id x = cs_id m" for x
    using assms(1,2) that by (auto simp: services_wf_def distinct_map inj_on_def)
  show "map cs_id (sd_services (set_service s db)) = map cs_id (sd_services db)"
    by (simp add: set_service_def)
  show "map (\<lambda>s. (cs_cluster s, cs_namespace s, cs_name s)) (sd_services (set_service s db))
       = map (\<lambda>s. (cs_cluster s, cs_namespace s, cs_name s)) (sd_services db)"
    using same assms(3-6) by (auto simp: set_service_def)
  show "set (sd_services (set_service s db)) = insert s {x \<in> set (sd_services db). cs_id x \<noteq> cs_id s}"
    using assms(2,3) by (auto simp: set_service_def)
qed

lemma service_named_Some:
  "service_named cluster ns name db = Some m \<Longrightarrow>
     m \<in> set (sd_services db) \<and> cs_cluster m = cluster \<and> cs_namespace m = ns \<and> cs_name m = name"
  by (auto simp: service_named_def find_Some_iff)

lemma service_named_None:
  "service_named cluster ns name db = None \<Longrightarrow>
     (cluster, ns, name) \<notin> (\<lambda>s. (cs_cluster s, cs_namespace s, cs_name s)) ` set (sd_services db)"
  by (auto simp: service_named_def find_None_iff)

lemma services_wf_step: "service_step db db' \<Longrightarrow> services_wf db \<Longrightarrow> services_wf db'"
proof (induction rule: service_step.induct)
  case (labelled labels db w catalog cluster ns)
  then show ?case by (simp add: services_wf_def live_selectors_def)
next
  case (observed new_id db selector cluster ns name version yaml ports ty i db')
  show ?case
  proof (cases "service_named cluster ns name db")
    case None
    define s where "s = \<lparr>cs_id = new_id, cs_cluster = cluster, cs_namespace = ns, cs_name = name, cs_version = version,
        cs_yaml = yaml, cs_selector = selector, cs_ports = ports, cs_type = ty, cs_deleted = False\<rparr>"
    have db': "db' = replace_service_selectors (cs_id s) (cs_cluster s) (cs_namespace s) (cs_selector s) (db\<lparr>sd_services := sd_services db @ [s]\<rparr>)"
      using observed None by (auto simp: upsert_cluster_service_def Let_def s_def)
    have sv: "sd_services db' = sd_services db @ [s]" by (simp add: db')
    show ?thesis
    proof (rule services_wf_written [OF observed.prems, of _ s])
      show "live_selectors db' = filter (\<lambda>r. sr_service r \<noteq> cs_id s) (live_selectors db)
          @ map (selector_row_of s) (if cs_deleted s then [] else cs_selector s)"
        by (simp add: db' live_after_replace live_selectors_cong [of "sd_services_update f db" db for f]) (simp add: s_def)
    qed (use observed service_named_None [OF None] in \<open>auto simp: sv s_def services_wf_def\<close>)
  next
    case (Some m)
    define s where "s = m\<lparr>cs_version := version, cs_yaml := yaml, cs_selector := selector, cs_ports := ports,
        cs_type := ty, cs_deleted := False\<rparr>"
    note m = service_named_Some [OF Some]
    have s: "cs_id s = cs_id m" "cs_cluster s = cs_cluster m" "cs_namespace s = cs_namespace m" "cs_name s = cs_name m"
        "cs_selector s = selector" "\<not> cs_deleted s" by (simp_all add: s_def)
    have db': "db' = replace_service_selectors (cs_id s) (cs_cluster s) (cs_namespace s) (cs_selector s) (set_service s db)"
      using observed Some m by (auto simp: upsert_cluster_service_def Let_def s_def)
    have sv: "sd_services db' = sd_services (set_service s db)" by (simp add: db')
    note rows = set_service_rows [OF observed.prems conjunct1 [OF m] s(1-4)]
    show ?thesis
    proof (rule services_wf_written [OF observed.prems, of _ s])
      show "live_selectors db' = filter (\<lambda>r. sr_service r \<noteq> cs_id s) (live_selectors db)
          @ map (selector_row_of s) (if cs_deleted s then [] else cs_selector s)"
        by (simp add: db' live_after_replace live_selectors_cong [of "set_service s db" db] s(6))
    qed (use observed rows in \<open>simp_all add: sv s services_wf_def\<close>)
  qed
next
  case (removed db cluster ns name)
  show ?case
  proof (cases "service_named cluster ns name db")
    case None
    with removed show ?thesis by (simp add: mark_cluster_service_deleted_def)
  next
    case (Some m)
    define s where "s = m\<lparr>cs_deleted := True\<rparr>"
    note m = service_named_Some [OF Some]
    have s: "cs_id s = cs_id m" "cs_cluster s = cs_cluster m" "cs_namespace s = cs_namespace m" "cs_name s = cs_name m"
        "cs_selector s = cs_selector m" "cs_deleted s" by (simp_all add: s_def)
    have db': "mark_cluster_service_deleted cluster ns name db = mark_service_selectors_deleted (cs_id s) (set_service s db)"
      using Some by (simp add: mark_cluster_service_deleted_def s_def)
    note rows = set_service_rows [OF removed conjunct1 [OF m] s(1-4)]
    show ?thesis unfolding db'
    proof (rule services_wf_written [OF removed, of _ s])
      show "live_selectors (mark_service_selectors_deleted (cs_id s) (set_service s db))
          = filter (\<lambda>r. sr_service r \<noteq> cs_id s) (live_selectors db)
          @ map (selector_row_of s) (if cs_deleted s then [] else cs_selector s)"
        by (simp add: live_after_mark live_selectors_cong [of "set_service s db" db] s)
    qed (use removed m rows in \<open>simp_all add: s services_wf_def\<close>)
  qed
qed

lemma observed_wf: "observed_services db \<Longrightarrow> services_wf db \<and> labels_wf db"
  unfolding observed_services_def
proof (induction rule: rtranclp_induct)
  case base
  show ?case by (simp add: services_wf_def labels_wf_def live_selectors_def live_labels_def)
next
  case (step db db')
  then show ?case using services_wf_step labels_wf_step by blast
qed


section \<open>One relation behind three queries\<close>

definition selects :: "service_db \<Rightarrow> cluster_service \<Rightarrow> uuid \<Rightarrow> bool" where
  "selects db s w \<longleftrightarrow> cs_selector s \<noteq> [] \<and> (\<forall>p \<in> set (cs_selector s). \<exists>r \<in> set (live_labels db w).
     lb_cluster r = cs_cluster s \<and> lb_namespace r = cs_namespace s \<and> (lb_key r, lb_value r) = p)"

abbreviation label_pair :: "label_row \<Rightarrow> string \<times> string" where
  "label_pair r \<equiv> (lb_key r, lb_value r)"

lemma put_pairs:
  assumes "distinct (map lb_key xs)" and "lb_key ` set xs \<inter> fst ` set acc = {}" and "distinct (map fst acc)"
  shows "set (fold (\<lambda>r. put (lb_key r) (lb_value r)) xs acc) = set acc \<union> label_pair ` set xs
    \<and> distinct (map fst (fold (\<lambda>r. put (lb_key r) (lb_value r)) xs acc))"
  using assms
proof (induction xs arbitrary: acc)
  case (Cons r xs)
  have new: "filter (\<lambda>p. fst p \<noteq> lb_key r) acc = acc" using Cons.prems(2) by (force intro: filter_True)
  have "set (fold (\<lambda>r. put (lb_key r) (lb_value r)) xs (label_pair r # acc)) = set (label_pair r # acc) \<union> label_pair ` set xs
    \<and> distinct (map fst (fold (\<lambda>r. put (lb_key r) (lb_value r)) xs (label_pair r # acc)))"
    using Cons.prems by (intro Cons.IH) auto
  then show ?case using new by (auto simp: put_def [of "lb_key r" "lb_value r" acc])
qed simp

lemma labels_of_live:
  assumes "labels_wf db" and "filter (\<lambda>r. lb_workload r = w) rows = live_labels db w"
  shows "set (labels_of rows w) = label_pair ` set (live_labels db w)"
    and "map_of (labels_of rows w) k = Some v \<longleftrightarrow> (k, v) \<in> label_pair ` set (live_labels db w)"
proof -
  have "set (labels_of rows w) = label_pair ` set (live_labels db w) \<and> distinct (map fst (labels_of rows w))"
    using put_pairs [of "live_labels db w" "[]"] assms by (simp add: labels_of_def labels_wf_def)
  then show "set (labels_of rows w) = label_pair ` set (live_labels db w)"
    and "map_of (labels_of rows w) k = Some v \<longleftrightarrow> (k, v) \<in> label_pair ` set (live_labels db w)"
    by (simp_all del: map_of_eq_Some_iff)
      (metis map_of_eq_Some_iff)
qed

lemma selector_rows_live:
  assumes "services_wf db" and "s \<in> set (sd_services db)"
  shows "filter (\<lambda>r. sr_service r = cs_id s) (selector_rows cluster ns db)
    = (if cs_deleted s \<or> cs_cluster s \<noteq> cluster \<or> cs_namespace s \<noteq> ns then [] else map (selector_row_of s) (cs_selector s))"
proof -
  have "selector_rows cluster ns db = filter (\<lambda>r. sr_cluster r = cluster \<and> sr_namespace r = ns) (live_selectors db)"
    by (simp add: selector_rows_def live_selectors_def conj_ac)
  then have "filter (\<lambda>r. sr_service r = cs_id s) (selector_rows cluster ns db)
      = filter (\<lambda>r. sr_cluster r = cluster \<and> sr_namespace r = ns) (filter (\<lambda>r. sr_service r = cs_id s) (live_selectors db))"
    by (simp add: conj_ac)
  also have "filter (\<lambda>r. sr_service r = cs_id s) (live_selectors db) = (if cs_deleted s then [] else map (selector_row_of s) (cs_selector s))"
    using assms by (simp add: services_wf_def)
  finally show ?thesis by (simp add: filter_map comp_def selector_row_of_def)
qed

lemma selectors_of_live:
  assumes "services_wf db" and "s \<in> set (sd_services db)"
  shows "selectors_of (selector_rows cluster ns db) (cs_id s)
    = (if cs_deleted s \<or> cs_cluster s \<noteq> cluster \<or> cs_namespace s \<noteq> ns then [] else cs_selector s)"
  by (simp add: selectors_of_def selector_rows_live [OF assms] comp_def) (simp add: selector_row_of_def)

lemma selector_rows_owner:
  assumes "services_wf db" and "r \<in> set (selector_rows cluster ns db)"
  obtains s where "s \<in> set (sd_services db)" "sr_service r = cs_id s"
proof -
  from assms(2) have "r \<in> set (live_selectors db)" by (simp add: selector_rows_def live_selectors_def)
  with assms(1) that show ?thesis by (auto simp: services_wf_def)
qed

lemma service_row_ids:
  assumes "services_wf db" and "s \<in> set (sd_services db)"
  shows "cs_id s \<in> sr_service ` set (selector_rows cluster ns db)
    \<longleftrightarrow> \<not> cs_deleted s \<and> cs_cluster s = cluster \<and> cs_namespace s = ns \<and> cs_selector s \<noteq> []"
proof -
  have "cs_id s \<in> sr_service ` set (selector_rows cluster ns db)
      \<longleftrightarrow> filter (\<lambda>r. sr_service r = cs_id s) (selector_rows cluster ns db) \<noteq> []"
    unfolding filter_empty_conv by (metis (mono_tags, lifting) imageE image_eqI)
  then show ?thesis by (auto simp: selector_rows_live [OF assms])
qed

lemma service_row_of_id:
  assumes "services_wf db" and "s \<in> set (sd_services db)"
  shows "find (\<lambda>x. cs_id x = cs_id s \<and> P x) (sd_services db) = (if P s then Some s else None)"
proof -
  have same: "x = s" if "x \<in> set (sd_services db)" "cs_id x = cs_id s" for x
    using assms that by (auto simp: services_wf_def distinct_map inj_on_def)
  show ?thesis
  proof (cases "find (\<lambda>x. cs_id x = cs_id s \<and> P x) (sd_services db)")
    case None
    with assms(2) show ?thesis by (auto simp: find_None_iff)
  next
    case (Some x)
    then have "x \<in> set (sd_services db)" "cs_id x = cs_id s" "P x" by (auto simp: find_Some_iff)
    with same Some show ?thesis by auto
  qed
qed


lemma selector_matches_iff:
  "selector_matches labels sel \<longleftrightarrow> (\<forall>p \<in> set sel. map_of labels (fst p) = Some (snd p))"
  by (auto simp: selector_matches_def list_all_iff)

text \<open>Labels of a workload that all carry one cluster and namespace.\<close>

definition labelled_in :: "service_db \<Rightarrow> uuid \<Rightarrow> uuid \<Rightarrow> string \<Rightarrow> bool" where
  "labelled_in db w cluster ns \<longleftrightarrow> (\<forall>r \<in> set (live_labels db w). lb_cluster r = cluster \<and> lb_namespace r = ns)"

lemma selects_iff:
  assumes "labels_wf db" and "filter (\<lambda>r. lb_workload r = w) rows = live_labels db w" and "labelled_in db w cluster ns"
  shows "selects db s w \<longleftrightarrow> cs_selector s \<noteq> [] \<and> cs_cluster s = cluster \<and> cs_namespace s = ns
    \<and> selector_matches (labels_of rows w) (cs_selector s)"
proof (cases "cs_selector s")
  case Nil
  then show ?thesis by (simp add: selects_def)
next
  case (Cons p ps)
  have "(\<exists>r \<in> set (live_labels db w). lb_cluster r = cs_cluster s \<and> lb_namespace r = cs_namespace s \<and> label_pair r = q)
      \<longleftrightarrow> q \<in> label_pair ` set (live_labels db w) \<and> cs_cluster s = cluster \<and> cs_namespace s = ns" for q
    using assms(3) unfolding labelled_in_def by auto
  then show ?thesis
    by (auto simp: selects_def selector_matches_iff labels_of_live(2) [OF assms(1,2)] Cons)
qed

lemma services_in_namespace_iff:
  assumes wf: "services_wf db" and lw: "labels_wf db" and s: "s \<in> set (sd_services db)"
    and rows: "filter (\<lambda>r. lb_workload r = w) rows = live_labels db w" and "labelled_in db w cluster ns" and "w \<in> set ws"
  shows "cs_id s \<in> services_in_namespace cluster db rows ns ws w \<longleftrightarrow> \<not> cs_deleted s \<and> selects db s w"
proof -
  define pairs where "pairs = concat (map (labels_of rows) ws)"
  define cands where "cands = map sr_service (filter (\<lambda>r. (sr_key r, sr_value r) \<in> set pairs) (selector_rows cluster ns db))"
  define full where "full = filter (\<lambda>r. sr_service r \<in> set cands) (selector_rows cluster ns db)"
  have here: "\<not> cs_deleted s \<and> cs_cluster s = cluster \<and> cs_namespace s = ns" if "cs_id s \<in> set cands"
    using that service_row_ids [OF wf s, of cluster ns] by (auto simp: cands_def)
  have full_s: "selectors_of full (cs_id s) = (if cs_id s \<in> set cands then cs_selector s else [])"
  proof -
    have "filter (\<lambda>r. sr_service r = cs_id s) full
        = (if cs_id s \<in> set cands then filter (\<lambda>r. sr_service r = cs_id s) (selector_rows cluster ns db) else [])"
      by (auto simp: full_def filter_empty_conv intro!: filter_cong)
    then show ?thesis using selectors_of_live [OF wf s, of cluster ns] here by (auto simp: selectors_of_def)
  qed
  have in_full: "cs_id s \<in> sr_service ` set full \<longleftrightarrow> cs_id s \<in> set cands"
    by (auto simp: full_def cands_def)
  have cand: "cs_id s \<in> set cands"
    if "\<not> cs_deleted s" "cs_cluster s = cluster" "cs_namespace s = ns" "cs_selector s \<noteq> []" "selector_matches (labels_of rows w) (cs_selector s)"
  proof -
    from that(4) obtain p where p: "p \<in> set (cs_selector s)" by (meson last_in_set)
    have "p \<in> set (labels_of rows w)"
      using that(5) p map_of_SomeD [of "labels_of rows w" "fst p" "snd p"] by (simp add: selector_matches_iff)
    then have "p \<in> set pairs" using \<open>w \<in> set ws\<close> by (auto simp: pairs_def)
    moreover have "selector_row_of s p \<in> set (filter (\<lambda>r. sr_service r = cs_id s) (selector_rows cluster ns db))"
      using that p by (simp add: selector_rows_live [OF wf s])
    ultimately show ?thesis by (force simp: cands_def selector_row_of_def)
  qed
  have "cs_id s \<in> services_in_namespace cluster db rows ns ws w
      \<longleftrightarrow> cs_id s \<in> set cands \<and> selector_matches (labels_of rows w) (cs_selector s)"
    unfolding services_in_namespace_def Let_def pairs_def [symmetric] cands_def [symmetric] full_def [symmetric]
    using \<open>w \<in> set ws\<close> in_full full_s by auto
  also have "\<dots> \<longleftrightarrow> \<not> cs_deleted s \<and> cs_selector s \<noteq> [] \<and> cs_cluster s = cluster \<and> cs_namespace s = ns
      \<and> selector_matches (labels_of rows w) (cs_selector s)"
  proof -
    have "cs_selector s \<noteq> []" if "cs_id s \<in> set cands"
      using that service_row_ids [OF wf s, of cluster ns] by (auto simp: cands_def)
    with here cand show ?thesis by blast
  qed
  finally show ?thesis using selects_iff [OF lw rows \<open>labelled_in db w cluster ns\<close>, of s] by blast
qed


lemma union_single: "n \<in> set ns \<Longrightarrow> (\<And>m. m \<noteq> n \<Longrightarrow> f m = {}) \<Longrightarrow> \<Union> (set (map f ns)) = f n"
  by auto (metis empty_iff)

lemma workload_service_ids_iff:
  assumes wf: "services_wf db" and lw: "labels_wf db" and s: "s \<in> set (sd_services db)"
    and w: "w \<in> set ids" and lab: "\<forall>r \<in> set (live_labels db w). lb_cluster r = cluster"
  shows "cs_id s \<in> workload_service_ids cluster ids db w \<longleftrightarrow> \<not> cs_deleted s \<and> selects db s w"
proof -
  define rows where "rows = filter (\<lambda>r. lb_workload r \<in> set ids \<and> \<not> lb_deleted r) (sd_labels db)"
  have lr: "filter (\<lambda>r. lb_workload r = w) rows = live_labels db w"
    using w by (auto simp: rows_def live_labels_def intro!: filter_cong)
  have "namespace_of rows w = namespace_of (filter (\<lambda>r. lb_workload r = w) rows) w"
    unfolding namespace_of_def by (induction rows) auto
  then have nm: "namespace_of rows w = namespace_of (live_labels db w) w" by (simp add: lr)
  have all_w: "lb_workload r = w" if "r \<in> set (live_labels db w)" for r using that by (simp add: live_labels_def)
  show ?thesis
  proof (cases "live_labels db w")
    case Nil
    have "namespace_of rows w = None" unfolding nm Nil by (simp add: namespace_of_def)
    moreover have "\<not> selects db s w" using Nil by (cases "cs_selector s") (auto simp: selects_def)
    ultimately show ?thesis
      by (auto simp: workload_service_ids_def rows_def [symmetric] Let_def services_in_namespace_def)
  next
    case (Cons r rs)
    define ns where "ns = lb_namespace r"
    have n: "namespace_of rows w = Some ns" using all_w [of r] unfolding nm Cons by (simp add: namespace_of_def ns_def)
    obtain c n' where "\<forall>r \<in> set (live_labels db w). lb_cluster r = c \<and> lb_namespace r = n'"
      using lw unfolding labels_wf_def by blast
    then have inn: "labelled_in db w cluster ns" using lab by (auto simp: labelled_in_def ns_def Cons)
    have ne: "labels_of rows w \<noteq> []" using labels_of_live(1) [OF lw lr] Cons by auto
    define ws where "ws = filter (\<lambda>i. namespace_of rows i = Some ns \<and> labels_of rows i \<noteq> []) ids"
    have "w \<in> set ws" using w n ne by (simp add: ws_def)
    have "ns \<in> set (List.map_filter (namespace_of rows) ids)"
      using w n by (auto simp: List.map_filter_def intro!: image_eqI [of _ _ w])
    moreover have "services_in_namespace cluster db rows m
        (filter (\<lambda>i. namespace_of rows i = Some m \<and> labels_of rows i \<noteq> []) ids) w = {}" if "m \<noteq> ns" for m
      using that n by (simp add: services_in_namespace_def Let_def)
    ultimately have "workload_service_ids cluster ids db w = services_in_namespace cluster db rows ns ws w"
      unfolding workload_service_ids_def Let_def rows_def [symmetric] ws_def by (intro union_single) simp_all
    then show ?thesis using services_in_namespace_iff [OF wf lw s lr inn \<open>w \<in> set ws\<close>] by simp
  qed
qed

lemma finite_workload_service_ids: "finite (workload_service_ids cluster ids db w)"
  by (auto simp: workload_service_ids_def Let_def services_in_namespace_def)

lemma set_map_filter_eq: "set (List.map_filter f xs) = {y. \<exists>x \<in> set xs. f x = Some y}"
  by (force simp: List.map_filter_def)

lemma found_services:
  assumes wf: "services_wf db" and lw: "labels_wf db" and ord: "\<And>S. finite S \<Longrightarrow> set (order S) = S"
    and w: "w \<in> set ids" and lab: "\<forall>r \<in> set (live_labels db w). lb_cluster r = cluster"
  shows "set (case get_services_for_catalog_workloads order cluster ids db w of Some l \<Rightarrow> l | None \<Rightarrow> [])
    = cached_service_of ` {s \<in> set (sd_services db). offered s \<and> selects db s w}"
proof -
  let ?ids = "workload_service_ids cluster ids db w"
  let ?look = "\<lambda>i. map_option cached_service_of (find (\<lambda>s. cs_id s = i \<and> offered s) (sd_services db))"
  have "set (case get_services_for_catalog_workloads order cluster ids db w of Some l \<Rightarrow> l | None \<Rightarrow> [])
      = {c. \<exists>i \<in> ?ids. ?look i = Some c}"
  proof -
    define found where "found = List.map_filter ?look (order ?ids)"
    have "(case get_services_for_catalog_workloads order cluster ids db w of Some l \<Rightarrow> l | None \<Rightarrow> []) = found"
      by (simp add: get_services_for_catalog_workloads_def found_def Let_def)
    then show ?thesis
      using ord [OF finite_workload_service_ids [of cluster ids db w]] by (simp add: found_def set_map_filter_eq)
  qed
  also have "\<dots> = cached_service_of ` {s \<in> set (sd_services db). offered s \<and> selects db s w}" (is "?L = ?R")
  proof (intro set_eqI iffI)
    fix c assume "c \<in> ?L"
    then obtain i s where "i \<in> ?ids" and f: "find (\<lambda>s. cs_id s = i \<and> offered s) (sd_services db) = Some s" "c = cached_service_of s" by auto
    then have "s \<in> set (sd_services db)" "cs_id s = i" "offered s" by (auto simp: find_Some_iff)
    with \<open>i \<in> ?ids\<close> workload_service_ids_iff [OF wf lw _ w lab, of s] f show "c \<in> ?R" by auto
  next
    fix c assume "c \<in> ?R"
    then obtain s where s: "s \<in> set (sd_services db)" "offered s" "selects db s w" "c = cached_service_of s" by blast
    then have "cs_id s \<in> ?ids" using workload_service_ids_iff [OF wf lw s(1) w lab] by (simp add: offered_def)
    moreover have "?look (cs_id s) = Some c" using service_row_of_id [OF wf s(1), of offered] s by simp
    ultimately show "c \<in> ?L" by blast
  qed
  finally show ?thesis .
qed

lemma matching_services:
  assumes wf: "services_wf db" and lw: "labels_wf db" and inn: "labelled_in db w cluster ns"
  shows "set (get_matching_cluster_services cluster ns (labels_of (live_labels db w) w) db)
    = cached_service_of ` {s \<in> set (sd_services db). \<not> cs_deleted s \<and> selects db s w}"
proof -
  have lr: "filter (\<lambda>r. lb_workload r = w) (live_labels db w) = live_labels db w"
    by (auto simp: live_labels_def intro!: filter_cong)
  have "labels_of (live_labels db w) w = [] \<Longrightarrow> \<not> selects db s w" for s
    using labels_of_live(1) [OF lw lr] by (cases "cs_selector s") (auto simp: selects_def)
  moreover have "cs_id s \<in> set (filter (\<lambda>i. selector_matches (labels_of (live_labels db w) w) (selectors_of (selector_rows cluster ns db) i))
        (remdups (map sr_service (selector_rows cluster ns db)))) \<and> \<not> cs_deleted s \<longleftrightarrow> \<not> cs_deleted s \<and> selects db s w"
    if "s \<in> set (sd_services db)" for s
    using service_row_ids [OF wf that, of cluster ns] selectors_of_live [OF wf that, of cluster ns] selects_iff [OF lw lr inn, of s]
    by auto
  ultimately show ?thesis
    unfolding get_matching_cluster_services_def Let_def by (auto cong: conj_cong)
qed


lemma workloads_of_selector:
  assumes lw: "labels_wf db" and sel: "distinct (map fst (cs_selector s))"
  shows "w \<in> set (find_workloads_matching_selector (cs_cluster s) (cs_namespace s) (cs_selector s) db) \<longleftrightarrow> selects db s w"
proof (cases "cs_selector s = []")
  case True
  then show ?thesis by (simp add: find_workloads_matching_selector_def selects_def)
next
  case False
  define rows where "rows = filter (\<lambda>r. lb_cluster r = cs_cluster s \<and> lb_namespace r = cs_namespace s \<and> \<not> lb_deleted r
      \<and> label_pair r \<in> set (cs_selector s)) (sd_labels db)"
  define mine where "mine = filter (\<lambda>r. lb_workload r = w) rows"
  have mine: "mine = filter (\<lambda>r. lb_cluster r = cs_cluster s \<and> lb_namespace r = cs_namespace s \<and> label_pair r \<in> set (cs_selector s)) (live_labels db w)"
    by (auto simp: mine_def rows_def live_labels_def intro!: filter_cong)
  have "distinct (map lb_key (live_labels db w))" using lw by (simp add: labels_wf_def)
  then have "distinct (map label_pair mine)"
    unfolding mine by (auto simp: distinct_map inj_on_def)
  then have len: "length mine = card (label_pair ` set mine)" by (metis distinct_card length_map set_map)
  have sub: "label_pair ` set mine \<subseteq> set (cs_selector s)" by (auto simp: mine)
  have dist: "card (set (cs_selector s)) = length (cs_selector s)" using sel by (metis distinct_card distinct_map)
  have "length mine = length (cs_selector s) \<longleftrightarrow> label_pair ` set mine = set (cs_selector s)"
    using sub len dist by (metis List.finite_set card_subset_eq)
  also have "\<dots> \<longleftrightarrow> (\<forall>p \<in> set (cs_selector s). p \<in> label_pair ` set mine)" using sub by blast
  also have "\<dots> \<longleftrightarrow> selects db s w"
  proof -
    have "p \<in> label_pair ` set mine \<longleftrightarrow> (\<exists>r \<in> set (live_labels db w). lb_cluster r = cs_cluster s
        \<and> lb_namespace r = cs_namespace s \<and> label_pair r = p)" if "p \<in> set (cs_selector s)" for p
      using that by (auto simp: mine)
    then show ?thesis using False by (simp add: selects_def)
  qed
  finally have "length mine = length (cs_selector s) \<longleftrightarrow> selects db s w" .
  moreover have "w \<in> lb_workload ` set rows" if "length mine = length (cs_selector s)"
    using that False by (cases mine) (auto simp: mine_def filter_eq_Cons_iff)
  ultimately show ?thesis
    using False by (auto simp: find_workloads_matching_selector_def Let_def rows_def [symmetric] mine_def [symmetric])
qed


definition ex_labelled :: service_db where
  "ex_labelled = replace_workload_labels 7 5 1 ''shop'' [(''app'', ''web''), (''tier'', ''front'')] \<lparr>sd_services = [], sd_selectors = [], sd_labels = []\<rparr>"

definition ex_observed :: service_db where
  "ex_observed = snd (upsert_cluster_service 3 1 ''shop'' ''web'' ''v1'' ''yaml'' [(''app'', ''web'')] [] None ex_labelled)"

lemma ex_observed: "observed_services ex_observed"
proof -
  have "service_step \<lparr>sd_services = [], sd_selectors = [], sd_labels = []\<rparr> ex_labelled"
    unfolding ex_labelled_def by (rule labelled) simp
  moreover have "service_step ex_labelled ex_observed"
    by (rule observed [of 3 _ "[(''app'', ''web'')]" 1 "''shop''" "''web''" "''v1''" "''yaml''" "[]" None 3])
      (simp_all add: ex_labelled_def ex_observed_def upsert_cluster_service_def service_named_def)
  ultimately show ?thesis unfolding observed_services_def by (meson r_into_rtranclp rtranclp.rtrancl_into_rtrancl)
qed


end
