(* ===== verification/Proxy_Routes.thy ===== *)
theory Proxy_Routes
  imports Service_Selection Routing_Table
begin

text \<open>
  The ports of the sidecar proxies, \<^verbatim>\<open>crates/api/src/kube_controller/app_catalog.rs\<close> and \<^verbatim>\<open>environment.rs\<close>. When an
  environment is created, every pod gets a sidecar, and the services that select the pod are rewritten: the target
  of a port becomes a port of the sidecar, from which the sidecar knows the port of the service and the port of the
  container. When a branch copies the service, the original targets are put back.

  Kubernetes objects are parsed and printed by a library. A parsed service is a record of the fields the code reads
  or writes, the others being one opaque text each; the parser and the printer are arguments.
\<close>

section \<open>Choosing proxy ports\<close>

definition DEFAULT_SIDECAR_PROXY_PORT :: u16 where "DEFAULT_SIDECAR_PROXY_PORT = 25001"

definition DEFAULT_SIDECAR_PROXY_METRICS_PORT :: u16 where "DEFAULT_SIDECAR_PROXY_METRICS_PORT = 25090"

definition SIDECAR_PROXY_DYNAMIC_PORT_START :: u16 where
  "SIDECAR_PROXY_DYNAMIC_PORT_START = DEFAULT_SIDECAR_PROXY_PORT + 1000"

definition u16_try_from :: "i32 \<Rightarrow> u16 option" where
  "u16_try_from v = (if 0 \<le> sint v \<and> sint v < 65536 then Some (word_of_int (sint v)) else None)"

lemma unat_next_port: "\<not> 65535 < (n :: u32) \<Longrightarrow> unat (n + 1) = unat n + 1"
  by (simp add: unat_word_ariths word_less_nat_alt)

text \<open>The loop that looks for a free port: the port, the ports in use and the next one to try.\<close>

function allocate_port :: "u16 \<Rightarrow> u16 \<Rightarrow> u16 set \<Rightarrow> u32 \<Rightarrow> u16 \<times> u16 set \<times> u32" where
  "allocate_port service target used next_port =
     (if 65535 < next_port then (service, used, next_port)
      else
        (let candidate = ucast next_port :: u16
         in if candidate = service \<or> candidate = target then allocate_port service target used (next_port + 1)
            else if candidate \<in> used then allocate_port service target used (next_port + 1)
            else (candidate, insert candidate used, next_port + 1)))"
  by pat_completeness auto

termination
  by (relation "measure (\<lambda>(_, _, _, n). 65536 - unat n)")
    (auto simp: unat_next_port word_less_nat_alt)

declare allocate_port.simps [simp del]

record port_plan =
  pl_routes :: "proxy_port_route list"
  pl_assigned :: "u16 \<times> u16 \<rightharpoonup> u16"
  pl_used :: "u16 set"
  pl_next :: u32

definition new_plan :: port_plan where
  "new_plan = \<lparr>pl_routes = [], pl_assigned = Map.empty,
     pl_used = {DEFAULT_SIDECAR_PROXY_PORT, DEFAULT_SIDECAR_PROXY_METRICS_PORT},
     pl_next = ucast SIDECAR_PROXY_DYNAMIC_PORT_START\<rparr>"

text \<open>The ports of a service port that the sidecar can carry: both are numbers between 1 and 65535.\<close>

definition proxied_ports :: "service_port \<Rightarrow> (u16 \<times> u16) option" where
  "proxied_ports p =
     (case u16_try_from (sp_port p) of
        Some service \<Rightarrow>
          if 0 < service then
            (case (case sp_original_target_port p of Some t \<Rightarrow> Some t | None \<Rightarrow> sp_target_port p) of
               Some raw \<Rightarrow>
                 (case u16_try_from raw of Some target \<Rightarrow> if 0 < target then Some (service, target) else None | None \<Rightarrow> None)
             | None \<Rightarrow> None)
          else None
      | None \<Rightarrow> None)"

definition plan_service_port :: "service_port \<Rightarrow> port_plan \<Rightarrow> port_plan" where
  "plan_service_port p pl =
     (case proxied_ports p of
        None \<Rightarrow> pl
      | Some (service, target) \<Rightarrow>
          (case pl_assigned pl (service, target) of
             Some existing \<Rightarrow>
               pl\<lparr>pl_routes := pl_routes pl @ [\<lparr>pr_proxy_port = existing, pr_service_port = service, pr_target_port = target\<rparr>]\<rparr>
           | None \<Rightarrow>
               (case allocate_port service target (pl_used pl) (pl_next pl) of (allocated, used, next_port) \<Rightarrow>
                  \<lparr>pl_routes = pl_routes pl @ [\<lparr>pr_proxy_port = allocated, pr_service_port = service, pr_target_port = target\<rparr>],
                   pl_assigned = (pl_assigned pl)((service, target) \<mapsto> allocated), pl_used = used, pl_next = next_port\<rparr>)))"

definition build_proxy_routes :: "cached_service list option \<Rightarrow> proxy_port_route list" where
  "build_proxy_routes services =
     (case services of
        None \<Rightarrow> []
      | Some svcs \<Rightarrow> pl_routes (fold plan_service_port (concat (map cc_ports svcs)) new_plan))"

section \<open>Rewriting services\<close>

datatype int_or_string = IntPort i32 | NamedPort string

record manifest_port =
  mp_name :: "string option"
  mp_port :: i32
  mp_target_port :: "int_or_string option"
  mp_node_port :: "i32 option"
  mp_other :: string

record service_spec =
  sv_ports :: "manifest_port list option"
  sv_selector :: "(string \<times> string) list option"
  sv_cluster_ip :: "string option"
  sv_cluster_ips :: "string list option"
  sv_health_check_node_port :: "i32 option"
  sv_other :: string

record service_manifest =
  mf_name :: "string option"
  mf_labels :: "(string \<times> string) list option"
  mf_other :: string
  mf_spec :: "service_spec option"
  mf_status :: "string option"

record service_yaml =
  parse_service :: "string \<Rightarrow> string + service_manifest"
  show_service :: "service_manifest \<Rightarrow> string + string"

record service_details =
  sd_name :: string
  sd_ports :: "service_port list"
  sd_selector :: "(string \<times> string) list"

record service_with_yaml =
  sw_yaml :: string
  sw_details :: service_details

definition clean_service :: "service_manifest \<Rightarrow> service_manifest" where
  "clean_service m =
     m\<lparr>mf_other := '''', mf_status := None,
       mf_spec := map_option (\<lambda>s. s\<lparr>sv_cluster_ip := None, sv_cluster_ips := None, sv_health_check_node_port := None,
         sv_ports := map_option (map (\<lambda>p. p\<lparr>mp_node_port := None\<rparr>)) (sv_ports s)\<rparr>) (mf_spec m)\<rparr>"

definition quoted :: "string \<Rightarrow> string" where "quoted s = [CHR 0x27] @ s @ [CHR 0x27]"

definition yaml_error :: "string \<Rightarrow> string + 'a \<Rightarrow> string + 'a" where
  "yaml_error what r = map_sum (\<lambda>err. what @ err) (\<lambda>x. x) r"

lemma yaml_error_eq_Ok: "yaml_error what r = Ok x \<longleftrightarrow> r = Ok x"
  by (cases r) (simp_all add: yaml_error_def)

definition map_manifest_ports :: "(manifest_port \<Rightarrow> manifest_port) \<Rightarrow> service_manifest \<Rightarrow> service_manifest" where
  "map_manifest_ports f m =
     m\<lparr>mf_spec := map_option (\<lambda>s. s\<lparr>sv_ports := map_option (map f) (sv_ports s)\<rparr>) (mf_spec m)\<rparr>"

definition route_for :: "proxy_port_route list \<Rightarrow> i32 \<Rightarrow> proxy_port_route option" where
  "route_for routes port = find (\<lambda>r. ucast (pr_service_port r) = port) routes"

definition rewrite_manifest_port :: "proxy_port_route list \<Rightarrow> manifest_port \<Rightarrow> manifest_port" where
  "rewrite_manifest_port routes p =
     (case route_for routes (mp_port p) of
        Some r \<Rightarrow> p\<lparr>mp_target_port := Some (IntPort (ucast (pr_proxy_port r)))\<rparr>
      | None \<Rightarrow> p)"

definition rewrite_details_port :: "proxy_port_route list \<Rightarrow> service_port \<Rightarrow> service_port" where
  "rewrite_details_port routes p =
     (case route_for routes (sp_port p) of
        Some r \<Rightarrow>
          p\<lparr>sp_original_target_port := (case sp_original_target_port p of None \<Rightarrow> Some (ucast (pr_target_port r)) | Some t \<Rightarrow> Some t),
            sp_target_port := Some (ucast (pr_proxy_port r))\<rparr>
      | None \<Rightarrow> p)"

definition rewrite_service_for_sidecar ::
    "service_yaml \<Rightarrow> proxy_port_route list \<Rightarrow> service_with_yaml \<Rightarrow> string + service_with_yaml" where
  "rewrite_service_for_sidecar y routes entry =
     (if routes = [] then Ok entry
      else
        and_then (yaml_error (''Failed to parse cached Service '' @ quoted (sd_name (sw_details entry)) @ '' YAML: '') (parse_service y (sw_yaml entry))) (\<lambda>m.
        and_then (yaml_error (''Failed to serialize Service '' @ quoted (sd_name (sw_details entry)) @ '' YAML after sidecar rewrite: '')
            (show_service y (map_manifest_ports (rewrite_manifest_port routes) m))) (\<lambda>text.
          Ok (entry\<lparr>sw_yaml := text,
            sw_details := (sw_details entry)\<lparr>sd_ports := map (rewrite_details_port routes) (sd_ports (sw_details entry))\<rparr>\<rparr>))))"

definition clean_entry :: "service_yaml \<Rightarrow> cached_service \<Rightarrow> string + service_with_yaml" where
  "clean_entry y s =
     and_then (yaml_error (''Failed to parse cached Service '' @ quoted (cc_name s) @ '' YAML: '') (parse_service y (cc_yaml s))) (\<lambda>m.
     and_then (yaml_error (''Failed to serialize cleaned Service '' @ quoted (cc_name s) @ '' YAML: '') (show_service y (clean_service m))) (\<lambda>text.
       Ok \<lparr>sw_yaml = text, sw_details = \<lparr>sd_name = cc_name s, sd_ports = cc_ports s, sd_selector = cc_selector s\<rparr>\<rparr>))"

fun collect_services ::
    "service_yaml \<Rightarrow> cached_service list \<Rightarrow> (string \<rightharpoonup> service_with_yaml) \<Rightarrow> string + (string \<rightharpoonup> service_with_yaml)" where
  "collect_services y [] m = Ok m"
| "collect_services y (s # ss) m =
     (if m (cc_name s) \<noteq> None then collect_services y ss m
      else and_then (clean_entry y s) (\<lambda>entry. collect_services y ss (m(cc_name s \<mapsto> entry))))"

fun rewrite_services ::
    "service_yaml \<Rightarrow> (cached_service \<times> proxy_port_route list) list \<Rightarrow> (string \<rightharpoonup> service_with_yaml)
     \<Rightarrow> string + (string \<rightharpoonup> service_with_yaml)" where
  "rewrite_services y [] m = Ok m"
| "rewrite_services y ((s, routes) # rest) m =
     (case m (cc_name s) of
        None \<Rightarrow> rewrite_services y rest m
      | Some entry \<Rightarrow>
          and_then (rewrite_service_for_sidecar y routes entry) (\<lambda>entry'. rewrite_services y rest (m(cc_name s \<mapsto> entry'))))"

text \<open>The services of the workloads and their routes, each in the order in which the hash map is walked.\<close>

definition prepare_services_from_cache ::
    "service_yaml \<Rightarrow> (uuid \<times> cached_service list) list \<Rightarrow> (uuid \<times> proxy_port_route list) list
     \<Rightarrow> string + (string \<rightharpoonup> service_with_yaml)" where
  "prepare_services_from_cache y services_by_workload proxy_routes =
     and_then (collect_services y (concat (map snd services_by_workload)) Map.empty) (\<lambda>m.
       rewrite_services y (concat (map (\<lambda>(w, routes).
         case map_of services_by_workload w of Some services \<Rightarrow> map (\<lambda>s. (s, routes)) services | None \<Rightarrow> []) proxy_routes)) m)"

section \<open>Restoring services\<close>

definition original_targets :: "service_port list \<Rightarrow> (string option \<times> i32 \<rightharpoonup> i32)" where
  "original_targets ports =
     fold (\<lambda>p m. case sp_original_target_port p of Some t \<Rightarrow> m((sp_name p, sp_port p) \<mapsto> t) | None \<Rightarrow> m) ports Map.empty"

definition restore_manifest_port :: "(string option \<times> i32 \<rightharpoonup> i32) \<Rightarrow> manifest_port \<Rightarrow> manifest_port" where
  "restore_manifest_port targets p =
     (case (case targets (mp_name p, mp_port p) of Some t \<Rightarrow> Some t | None \<Rightarrow> targets (None, mp_port p)) of
        Some t \<Rightarrow> p\<lparr>mp_target_port := Some (IntPort t)\<rparr>
      | None \<Rightarrow> p)"

definition restore_details_port :: "service_port \<Rightarrow> service_port" where
  "restore_details_port p =
     (case sp_original_target_port p of Some t \<Rightarrow> p\<lparr>sp_target_port := Some t\<rparr> | None \<Rightarrow> p)"

definition restore_service_target_ports ::
    "service_yaml \<Rightarrow> string \<Rightarrow> service_port list \<Rightarrow> string + (string \<times> service_port list)" where
  "restore_service_target_ports y text ports =
     and_then (yaml_error ''Failed to parse service YAML while restoring lapdev-sidecar proxy targets: '' (parse_service y text)) (\<lambda>m.
     and_then (yaml_error ''Failed to serialize service YAML after restoring lapdev-sidecar proxy targets: ''
         (show_service y (map_manifest_ports (restore_manifest_port (original_targets ports)) m))) (\<lambda>text'.
       Ok (text', map restore_details_port ports)))"

section \<open>The ports that are chosen\<close>

lemma u16_less: "unat (q :: u16) < 65536"
  using unsigned_less [of q] by simp

lemma allocate_port_least:
  "(case allocate_port service target used n of (p, used', n') \<Rightarrow>
      p \<notin> used \<union> {service, target} \<and> used' = insert p used \<and> unat n' = unat p + 1
        \<and> (\<forall>q :: u16. unat n \<le> unat q \<and> unat q < unat p \<longrightarrow> q \<in> used \<union> {service, target}) \<and> unat n \<le> unat p
    \<or> p = service \<and> used' = used \<and> 65535 < n' \<and> (\<forall>q :: u16. unat n \<le> unat q \<longrightarrow> q \<in> used \<union> {service, target}))"
proof (induction service target used n rule: allocate_port.induct)
  case (1 service target used n)
  let ?c = "ucast n :: u16"
  show ?case
  proof (cases "65535 < n")
    case True
    moreover have "unat n \<le> unat q \<longrightarrow> q \<in> used \<union> {service, target}" for q :: u16
      using True u16_less [of q] by (auto simp: word_less_nat_alt)
    ultimately show ?thesis by (subst allocate_port.simps) simp
  next
    case False
    then have c: "unat ?c = unat n" by (simp add: word_less_nat_alt unsigned_ucast_eq take_bit_nat_eq_self)
    have eq: "q = ?c" if "unat n \<le> unat q" "\<not> unat (n + 1) \<le> unat q" for q :: u16
      using that c unat_next_port [OF False] by (simp add: word_unat_eq_iff)
    show ?thesis
    proof (cases "?c \<in> used \<union> {service, target}")
      case True
      then have "allocate_port service target used n = allocate_port service target used (n + 1)"
        using False by (subst allocate_port.simps) (auto simp: Let_def)
      moreover have "case allocate_port service target used (n + 1) of (p, used', n') \<Rightarrow>
          p \<notin> used \<union> {service, target} \<and> used' = insert p used \<and> unat n' = unat p + 1
            \<and> (\<forall>q :: u16. unat (n + 1) \<le> unat q \<and> unat q < unat p \<longrightarrow> q \<in> used \<union> {service, target}) \<and> unat (n + 1) \<le> unat p
        \<or> p = service \<and> used' = used \<and> 65535 < n' \<and> (\<forall>q :: u16. unat (n + 1) \<le> unat q \<longrightarrow> q \<in> used \<union> {service, target})"
        using 1 False True by (cases "?c = service \<or> ?c = target") auto
      moreover have "unat n \<le> unat (n + 1)" using unat_next_port [OF False] by simp
      ultimately show ?thesis using eq True by (auto split: prod.splits)
    next
      case free: False
      then have "allocate_port service target used n = (?c, insert ?c used, n + 1)"
        using False by (subst allocate_port.simps) (auto simp: Let_def)
      then show ?thesis using free c unat_next_port [OF False] by auto
    qed
  qed
qed

text \<open>
  C22: The search for a proxy port always ends, with the least port from the given one on that is neither in use nor
  the service port nor the target port, or with the service port when there is none.
\<close>

theorem proxy_port_search_terminates:
  "(case allocate_port service target used n of (p, used', n') \<Rightarrow>
      p \<notin> used \<union> {service, target} \<and> used' = insert p used \<and> unat n' = unat p + 1
        \<and> (\<forall>q :: u16. unat n \<le> unat q \<and> unat q < unat p \<longrightarrow> q \<in> used \<union> {service, target}) \<and> unat n \<le> unat p
    \<or> p = service \<and> used' = used \<and> 65535 < n' \<and> (\<forall>q :: u16. unat n \<le> unat q \<longrightarrow> q \<in> used \<union> {service, target}))"
  by (rule allocate_port_least)

lemma three_ports:
  assumes "n + 2 < 65536" and "\<And>q :: u16. n \<le> unat q \<Longrightarrow> unat q \<le> n + 2 \<Longrightarrow> q = s \<or> q = t"
  shows False
proof -
  have u: "unat (of_nat (n + i) :: u16) = n + i" if "i \<le> 2" for i
    using assms(1) that by (simp add: unat_of_nat take_bit_nat_eq_self del: of_nat_add)
  have w: "of_nat (n + i) = s \<or> of_nat (n + i) = t" if "i \<le> 2" for i
    using assms(2) [of "of_nat (n + i)"] u [OF that] that by simp
  have "of_nat (n + 0) = s \<or> of_nat (n + 0) = t" "of_nat (n + 1) = s \<or> of_nat (n + 1) = t" "of_nat (n + 2) = s \<or> of_nat (n + 2) = t"
    by (rule w; simp)+
  moreover have "(of_nat (n + i) :: u16) \<noteq> of_nat (n + j)" if "i \<le> 2" "j \<le> 2" "i \<noteq> j" for i j
    using u [OF that(1)] u [OF that(2)] that(3) by (metis add_left_cancel)
  from this [of 0 1] this [of 0 2] this [of 1 2] have "(of_nat (n + 0) :: u16) \<noteq> of_nat (n + 1)"
    "(of_nat (n + 0) :: u16) \<noteq> of_nat (n + 2)" "(of_nat (n + 1) :: u16) \<noteq> of_nat (n + 2)" by (simp_all del: of_nat_add)
  ultimately show False by metis
qed

definition dynamic_ports :: "u32 \<Rightarrow> u16 set" where
  "dynamic_ports n = {p. 26001 \<le> unat p \<and> unat p < unat n}"

lemma allocate_in_range:
  assumes "allocate_port service target used n = (p, used', n')"
    and "used \<subseteq> {25001, 25090} \<union> dynamic_ports n" and "26001 \<le> unat n" and "unat n \<le> 65533"
  shows "p \<in> dynamic_ports n'" and "p \<notin> used" and "p \<notin> dynamic_ports n" and "p \<noteq> service" and "p \<noteq> target"
    and "used' = insert p used" and "unat n < unat n'" and "unat n' \<le> unat n + 3"
proof -
  have low: "q = service \<or> q = target" if "unat n \<le> unat q" "q \<in> used \<union> {service, target}" for q
    using that assms(2,3) by (auto simp: dynamic_ports_def)
  have not_all: "\<not> (\<forall>q :: u16. unat n \<le> unat q \<longrightarrow> q \<in> used \<union> {service, target})"
    using three_ports [of "unat n" service target] low assms(4) by force
  have spec: "p \<notin> used \<union> {service, target} \<and> used' = insert p used \<and> unat n' = unat p + 1
      \<and> (\<forall>q :: u16. unat n \<le> unat q \<and> unat q < unat p \<longrightarrow> q \<in> used \<union> {service, target}) \<and> unat n \<le> unat p"
    using allocate_port_least [where service = service and target = target and used = used and n = n] assms(1) not_all by auto
  have "unat p \<le> unat n + 2"
  proof (rule ccontr)
    assume "\<not> unat p \<le> unat n + 2"
    then show False using three_ports [of "unat n" service target] low spec assms(4) by force
  qed
  with spec assms(3) show "p \<in> dynamic_ports n'" "p \<notin> used" "p \<notin> dynamic_ports n" "p \<noteq> service" "p \<noteq> target"
    "used' = insert p used" "unat n < unat n'" "unat n' \<le> unat n + 3"
    by (auto simp: dynamic_ports_def)
qed

definition plan_inv :: "service_port list \<Rightarrow> port_plan \<Rightarrow> bool" where
  "plan_inv ports pl \<longleftrightarrow> 26001 \<le> unat (pl_next pl) \<and> unat (pl_next pl) \<le> 26001 + 3 * length ports
     \<and> pl_used pl \<subseteq> {25001, 25090} \<union> dynamic_ports (pl_next pl)
     \<and> dom (pl_assigned pl) = {k. \<exists>p \<in> set ports. proxied_ports p = Some k}
     \<and> (\<forall>k p. pl_assigned pl k = Some p \<longrightarrow> p \<in> dynamic_ports (pl_next pl) \<and> p \<noteq> fst k \<and> p \<noteq> snd k)
     \<and> (\<forall>k k' p. pl_assigned pl k = Some p \<and> pl_assigned pl k' = Some p \<longrightarrow> k = k')
     \<and> set (pl_routes pl) = {r. pl_assigned pl (pr_service_port r, pr_target_port r) = Some (pr_proxy_port r)}"

lemma dynamic_mono: "unat n \<le> unat n' \<Longrightarrow> dynamic_ports n \<subseteq> dynamic_ports n'"
  by (auto simp: dynamic_ports_def)

lemma plan_inv_step:
  assumes "plan_inv ports pl" and "3 * length ports \<le> 39532"
  shows "plan_inv (ports @ [p]) (plan_service_port p pl)"
proof (cases "proxied_ports p")
  case None
  with assms show ?thesis by (auto simp: plan_inv_def plan_service_port_def)
next
  case key: (Some k)
  obtain service target where k: "k = (service, target)" by fastforce
  show ?thesis
  proof (cases "pl_assigned pl k")
    case (Some e)
    have "dom (pl_assigned pl) = {k. \<exists>p \<in> set (ports @ [p]). proxied_ports p = Some k}"
      using assms(1) Some key by (auto simp: plan_inv_def dom_def)
    with assms Some key k show ?thesis by (auto simp: plan_inv_def plan_service_port_def)
  next
    case None
    obtain q used n where a: "allocate_port service target (pl_used pl) (pl_next pl) = (q, used, n)" by (metis prod_cases3)
    have "26001 \<le> unat (pl_next pl)" "unat (pl_next pl) \<le> 65533" "pl_used pl \<subseteq> {25001, 25090} \<union> dynamic_ports (pl_next pl)"
      using assms by (auto simp: plan_inv_def)
    note q = allocate_in_range [OF a this(3,1,2)]
    have mono: "dynamic_ports (pl_next pl) \<subseteq> dynamic_ports n" by (rule dynamic_mono) (use q(7) in simp)
    have fresh: "pl_assigned pl k' \<noteq> Some q" for k' using assms(1) q(3) unfolding plan_inv_def by blast
    have dom: "dom ((pl_assigned pl)(k \<mapsto> q)) = {k. \<exists>p \<in> set (ports @ [p]). proxied_ports p = Some k}"
      using assms(1) key by (auto simp: plan_inv_def)
    have pl: "plan_service_port p pl = \<lparr>pl_routes = pl_routes pl @ [\<lparr>pr_proxy_port = q, pr_service_port = service, pr_target_port = target\<rparr>],
        pl_assigned = (pl_assigned pl)(k \<mapsto> q), pl_used = used, pl_next = n\<rparr>"
      using None key k by (simp add: plan_service_port_def a)
    have old: "x \<in> dynamic_ports (pl_next pl) \<and> x \<noteq> fst k' \<and> x \<noteq> snd k'" if "pl_assigned pl k' = Some x" for k' x
      using assms(1) that unfolding plan_inv_def by blast
    have inj: "k' = k''" if "pl_assigned pl k' = Some x" "pl_assigned pl k'' = Some x" for k' x k''
      using assms(1) that unfolding plan_inv_def by blast
    show ?thesis
      unfolding plan_inv_def pl port_plan.select_convs
    proof (intro conjI dom allI impI)
      show "26001 \<le> unat n" "unat n \<le> 26001 + 3 * length (ports @ [p])" using assms(1) q(7,8) by (auto simp: plan_inv_def)
      show "used \<subseteq> {25001, 25090} \<union> dynamic_ports n" using assms(1) q(1,6) mono by (auto simp: plan_inv_def)
      show "x \<in> dynamic_ports n" "x \<noteq> fst k'" "x \<noteq> snd k'" if "((pl_assigned pl)(k \<mapsto> q)) k' = Some x" for k' x
        using that old [of k' x] q mono by (cases "k' = k"; auto simp: k)+
      show "k' = k''" if "((pl_assigned pl)(k \<mapsto> q)) k' = Some x \<and> ((pl_assigned pl)(k \<mapsto> q)) k'' = Some x" for k' k'' x
        using that inj [of k' x k''] fresh by (cases "k' = k"; cases "k'' = k") auto
      show "set (pl_routes pl @ [\<lparr>pr_proxy_port = q, pr_service_port = service, pr_target_port = target\<rparr>])
          = {r. ((pl_assigned pl)(k \<mapsto> q)) (pr_service_port r, pr_target_port r) = Some (pr_proxy_port r)}"
        using assms(1) None by (auto simp: plan_inv_def k)
    qed
  qed
qed

lemma plan_inv_all:
  assumes "3 * length ports \<le> 39535"
  shows "plan_inv ports (fold plan_service_port ports new_plan)"
  using assms
proof (induction ports rule: rev_induct)
  case Nil
  show ?case
    by (auto simp: plan_inv_def new_plan_def DEFAULT_SIDECAR_PROXY_PORT_def DEFAULT_SIDECAR_PROXY_METRICS_PORT_def
        SIDECAR_PROXY_DYNAMIC_PORT_START_def)
next
  case (snoc p ports)
  then show ?case using plan_inv_step [of ports "fold plan_service_port ports new_plan" p] by simp
qed

definition few_ports :: "cached_service list \<Rightarrow> bool" where
  "few_ports svcs \<longleftrightarrow> length (concat (map cc_ports svcs)) \<le> 13178"

lemma planned_routes:
  assumes "few_ports svcs"
  shows "r \<in> set (build_proxy_routes (Some svcs)) \<Longrightarrow> 26001 \<le> unat (pr_proxy_port r) \<and> pr_proxy_port r \<noteq> pr_service_port r \<and> pr_proxy_port r \<noteq> pr_target_port r"
    and "r \<in> set (build_proxy_routes (Some svcs)) \<Longrightarrow> r' \<in> set (build_proxy_routes (Some svcs)) \<Longrightarrow> pr_proxy_port r = pr_proxy_port r' \<Longrightarrow> r = r'"
    and "(\<lambda>r. (pr_service_port r, pr_target_port r)) ` set (build_proxy_routes (Some svcs))
       = {k. \<exists>s \<in> set svcs. \<exists>p \<in> set (cc_ports s). proxied_ports p = Some k}"
proof -
  let ?pl = "fold plan_service_port (concat (map cc_ports svcs)) new_plan"
  have inv: "plan_inv (concat (map cc_ports svcs)) ?pl" using assms by (intro plan_inv_all) (simp add: few_ports_def)
  have b: "build_proxy_routes (Some svcs) = pl_routes ?pl" by (simp add: build_proxy_routes_def)
  have R: "r \<in> set (pl_routes ?pl) \<longleftrightarrow> pl_assigned ?pl (pr_service_port r, pr_target_port r) = Some (pr_proxy_port r)" for r
    using inv unfolding plan_inv_def by blast
  have old: "x \<in> dynamic_ports (pl_next ?pl) \<and> x \<noteq> fst k \<and> x \<noteq> snd k" if "pl_assigned ?pl k = Some x" for k x
    using inv that unfolding plan_inv_def by blast
  have inj: "k = k'" if "pl_assigned ?pl k = Some x" "pl_assigned ?pl k' = Some x" for k x k'
    using inv that unfolding plan_inv_def by blast
  show "r \<in> set (build_proxy_routes (Some svcs)) \<Longrightarrow> 26001 \<le> unat (pr_proxy_port r) \<and> pr_proxy_port r \<noteq> pr_service_port r \<and> pr_proxy_port r \<noteq> pr_target_port r"
    using old [of "(pr_service_port r, pr_target_port r)"] by (auto simp: b R dynamic_ports_def)
  show "r \<in> set (build_proxy_routes (Some svcs)) \<Longrightarrow> r' \<in> set (build_proxy_routes (Some svcs)) \<Longrightarrow> pr_proxy_port r = pr_proxy_port r' \<Longrightarrow> r = r'"
    using inj [of "(pr_service_port r, pr_target_port r)" "pr_proxy_port r" "(pr_service_port r', pr_target_port r')"] by (simp add: b R)
  have "(\<lambda>r. (pr_service_port r, pr_target_port r)) ` set (pl_routes ?pl) = dom (pl_assigned ?pl)"
  proof (intro set_eqI iffI)
    fix k assume "k \<in> dom (pl_assigned ?pl)"
    then obtain x where "pl_assigned ?pl k = Some x" by blast
    then have "\<lparr>pr_proxy_port = x, pr_service_port = fst k, pr_target_port = snd k\<rparr> \<in> set (pl_routes ?pl)" by (simp add: R)
    then show "k \<in> (\<lambda>r. (pr_service_port r, pr_target_port r)) ` set (pl_routes ?pl)" by (force intro: rev_image_eqI)
  qed (auto simp: R)
  also have "\<dots> = {k. \<exists>p \<in> set (concat (map cc_ports svcs)). proxied_ports p = Some k}"
    using inv unfolding plan_inv_def by blast
  also have "\<dots> = {k. \<exists>s \<in> set svcs. \<exists>p \<in> set (cc_ports s). proxied_ports p = Some k}" by auto
  finally show "(\<lambda>r. (pr_service_port r, pr_target_port r)) ` set (build_proxy_routes (Some svcs))
       = {k. \<exists>s \<in> set svcs. \<exists>p \<in> set (cc_ports s). proxied_ports p = Some k}" by (simp add: b)
qed

text \<open>
  C21: For services with at most 13178 ports in all, every port the sidecar can carry gets a route, two routes with
  one proxy port are the same, and a proxy port is at least 26001 and neither the service port nor the target port
  of its route.
\<close>

theorem proxy_ports_planned:
  assumes "few_ports svcs"
  shows "(\<forall>r \<in> set (build_proxy_routes (Some svcs)). 26001 \<le> unat (pr_proxy_port r)
        \<and> pr_proxy_port r \<noteq> pr_service_port r \<and> pr_proxy_port r \<noteq> pr_target_port r)
    \<and> inj_on pr_proxy_port (set (build_proxy_routes (Some svcs)))
    \<and> (\<lambda>r. (pr_service_port r, pr_target_port r)) ` set (build_proxy_routes (Some svcs))
       = {k. \<exists>s \<in> set svcs. \<exists>p \<in> set (cc_ports s). proxied_ports p = Some k}"
  using planned_routes [OF assms] by (auto simp: inj_on_def)

section \<open>From the service to the container\<close>

lemma port_routes_inj:
  assumes "inj_on pr_proxy_port (set routes)"
  shows "port_routes (set_port_routes t routes) p = Some r \<longleftrightarrow> r \<in> set routes \<and> pr_proxy_port r = p"
proof -
  have "fold (\<lambda>r m. m(pr_proxy_port r \<mapsto> r)) routes Map.empty p = Some r \<longleftrightarrow> r \<in> set routes \<and> pr_proxy_port r = p"
    using assms
  proof (induction routes rule: rev_induct)
    case (snoc x xs)
    then have "inj_on pr_proxy_port (set xs)" by (simp add: inj_on_def)
    with snoc show ?case by (auto simp: inj_on_def)
  qed simp
  then show ?thesis by (simp add: set_port_routes_def)
qed

definition manifest_ports :: "service_manifest \<Rightarrow> manifest_port list" where
  "manifest_ports m = (case mf_spec m of Some s \<Rightarrow> (case sv_ports s of Some ps \<Rightarrow> ps | None \<Rightarrow> []) | None \<Rightarrow> [])"

lemma manifest_ports_map: "manifest_ports (map_manifest_ports f m) = map f (manifest_ports m)"
  by (simp add: manifest_ports_def map_manifest_ports_def split: option.splits)

text \<open>Services of a workload in which a port number always means one port of the container.\<close>

definition one_target_per_port :: "cached_service list \<Rightarrow> bool" where
  "one_target_per_port svcs \<longleftrightarrow> (\<forall>s \<in> set svcs. \<forall>p \<in> set (cc_ports s). \<forall>s' \<in> set svcs. \<forall>p' \<in> set (cc_ports s').
     \<forall>n t t'. proxied_ports p = Some (n, t) \<and> proxied_ports p' = Some (n, t') \<longrightarrow> t = t')"

lemma proxied_number: "proxied_ports p = Some (n, t) \<Longrightarrow> ucast n = sp_port p"
proof -
  assume "proxied_ports p = Some (n, t)"
  then have n: "u16_try_from (sp_port p) = Some n" by (auto simp: proxied_ports_def split: option.splits if_splits)
  then have r: "0 \<le> sint (sp_port p)" "sint (sp_port p) < 65536" "n = word_of_int (sint (sp_port p))"
    by (auto simp: u16_try_from_def split: if_splits)
  have wide: "uint (ucast (word_of_int v :: u16) :: i32) = v" if "0 \<le> v" "v < 65536" for v :: int
    using that by (simp add: unsigned_ucast_eq unsigned_of_int take_bit_int_eq_self)
  from wide [OF r(1,2)] have "uint (ucast n :: i32) = sint (sp_port p)" using r(3) by simp
  then have "word_of_int (uint (ucast n :: i32)) = (word_of_int (sint (sp_port p)) :: i32)" by simp
  then show ?thesis by simp
qed

lemma ucast_u16_inj: "(ucast (a :: u16) :: i32) = ucast b \<longleftrightarrow> a = b"
proof
  assume "(ucast a :: i32) = ucast b"
  then have "unat (ucast a :: i32) = unat (ucast b :: i32)" by simp
  then show "a = b" using u16_less [of a] u16_less [of b]
    by (simp add: unsigned_ucast_eq take_bit_nat_eq_self word_unat_eq_iff)
qed simp

lemma route_for_planned:
  assumes few: "few_ports svcs" and one: "one_target_per_port svcs" and s: "s \<in> set svcs" and p: "p \<in> set (cc_ports s)"
    and k: "proxied_ports p = Some (n, t)"
  obtains q where "route_for (build_proxy_routes (Some svcs)) (sp_port p) = Some \<lparr>pr_proxy_port = q, pr_service_port = n, pr_target_port = t\<rparr>"
    and "\<lparr>pr_proxy_port = q, pr_service_port = n, pr_target_port = t\<rparr> \<in> set (build_proxy_routes (Some svcs))"
proof -
  let ?R = "build_proxy_routes (Some svcs)"
  note keys = planned_routes(3) [OF few]
  have "(n, t) \<in> (\<lambda>r. (pr_service_port r, pr_target_port r)) ` set ?R" using keys s p k by blast
  then obtain r0 where r0: "r0 \<in> set ?R" "pr_service_port r0 = n" by auto
  have "route_for ?R (sp_port p) \<noteq> None"
    using r0 proxied_number [OF k] by (auto simp: route_for_def find_None_iff)
  then obtain r where r: "route_for ?R (sp_port p) = Some r" by blast
  then have rin: "r \<in> set ?R" and "ucast (pr_service_port r) = sp_port p" by (auto simp: route_for_def find_Some_iff)
  then have rn: "pr_service_port r = n" using proxied_number [OF k] ucast_u16_inj by metis
  from rin keys have "(pr_service_port r, pr_target_port r) \<in> {k. \<exists>s \<in> set svcs. \<exists>p \<in> set (cc_ports s). proxied_ports p = Some k}" by blast
  then obtain s' p' where "s' \<in> set svcs" "p' \<in> set (cc_ports s')" "proxied_ports p' = Some (n, pr_target_port r)" using rn by auto
  then have "pr_target_port r = t" using one s p k unfolding one_target_per_port_def by blast
  then have "r = \<lparr>pr_proxy_port = pr_proxy_port r, pr_service_port = n, pr_target_port = t\<rparr>" using rn by (cases r) simp
  with r rin that show thesis by metis
qed

lemma delivered_by_sidecar:
  assumes few: "few_ports svcs" and one: "one_target_per_port svcs"
    and r: "\<lparr>pr_proxy_port = q, pr_service_port = n, pr_target_port = t\<rparr> \<in> set (build_proxy_routes (Some svcs))"
    and ks: "iter_order (port_routes (set_port_routes table (build_proxy_routes (Some svcs)))) ks"
  shows "service_port_for_proxy (set_port_routes table (build_proxy_routes (Some svcs))) q = n"
    and "target_port_for_service ks (set_port_routes table (build_proxy_routes (Some svcs))) n = t"
proof -
  let ?R = "build_proxy_routes (Some svcs)" and ?r = "\<lparr>pr_proxy_port = q, pr_service_port = n, pr_target_port = t\<rparr>"
  have "inj_on pr_proxy_port (set ?R)" using planned_routes(2) [OF few] by (auto simp: inj_on_def)
  note look = port_routes_inj [OF this, of table]
  have q: "port_routes (set_port_routes table ?R) q = Some ?r" by (simp add: look r)
  then show "service_port_for_proxy (set_port_routes table ?R) q = n" by (simp add: service_port_for_proxy_def)
  let ?vs = "List.map_filter (port_routes (set_port_routes table ?R)) ks"
  have vs: "set ?vs = set ?R"
  proof -
    have "set ?vs = {r. \<exists>p \<in> dom (port_routes (set_port_routes table ?R)). port_routes (set_port_routes table ?R) p = Some r}"
      using iter_orderD [OF ks] by (simp add: set_map_filter_eq)
    then show ?thesis using look by auto
  qed
  have "find (\<lambda>r. pr_service_port r = n) ?vs \<noteq> None" using r vs by (auto simp: find_None_iff)
  then obtain r' where f: "find (\<lambda>r. pr_service_port r = n) ?vs = Some r'" by blast
  then have "r' \<in> set ?vs" "pr_service_port r' = n" by (auto simp: find_Some_iff)
  then have r': "(n, pr_target_port r') \<in> (\<lambda>r. (pr_service_port r, pr_target_port r)) ` set ?R" using vs by force
  have "(n, t) \<in> (\<lambda>r. (pr_service_port r, pr_target_port r)) ` set ?R" using r by force
  with r' have "pr_target_port r' = t"
    using one unfolding planned_routes(3) [OF few] one_target_per_port_def by blast
  with f show "target_port_for_service ks (set_port_routes table ?R) n = t" by (simp add: target_port_for_service_def)
qed

lemma rewrite_Ok:
  assumes "rewrite_service_for_sidecar y routes entry = Ok entry'" and "routes \<noteq> []"
  obtains mf where "parse_service y (sw_yaml entry) = Ok mf"
    and "show_service y (map_manifest_ports (rewrite_manifest_port routes) mf) = Ok (sw_yaml entry')"
    and "sw_details entry' = (sw_details entry)\<lparr>sd_ports := map (rewrite_details_port routes) (sd_ports (sw_details entry))\<rparr>"
  using assms that by (auto simp: rewrite_service_for_sidecar_def and_then_eq_Ok yaml_error_eq_Ok)


lemma original_targets_lookup:
  assumes "distinct (map (\<lambda>p. (sp_name p, sp_port p)) ports)" and "p \<in> set ports" and "sp_original_target_port p = Some t"
  shows "original_targets ports (sp_name p, sp_port p) = Some t"
  using assms unfolding original_targets_def
proof (induction ports rule: rev_induct)
  case (snoc x xs)
  show ?case
  proof (cases "p = x")
    case True
    with snoc.prems show ?thesis by simp
  next
    case False
    with snoc.prems have "p \<in> set xs" by simp
    moreover from this snoc.prems(1) have "(sp_name x, sp_port x) \<noteq> (sp_name p, sp_port p)" by force
    ultimately show ?thesis using snoc by (auto split: option.splits)
  qed
qed simp

lemma rewrite_details_keeps:
  "sp_name (rewrite_details_port routes p) = sp_name p" "sp_port (rewrite_details_port routes p) = sp_port p"
  "sp_original_target_port p = Some t \<Longrightarrow> sp_original_target_port (rewrite_details_port routes p) = Some t"
  "sp_original_target_port p = Some t \<Longrightarrow> restore_details_port (rewrite_details_port routes p) = p\<lparr>sp_target_port := Some t\<rparr>"
  by (simp_all add: rewrite_details_port_def restore_details_port_def split: option.splits)

lemma rewrite_manifest_keeps:
  "mp_name (rewrite_manifest_port routes p) = mp_name p" "mp_port (rewrite_manifest_port routes p) = mp_port p"
  "(rewrite_manifest_port routes p)\<lparr>mp_target_port := x\<rparr> = p\<lparr>mp_target_port := x\<rparr>"
  by (simp_all add: rewrite_manifest_port_def split: option.splits)


section \<open>Where the rewriting goes wrong\<close>

lemma plan_appends: "\<exists>rs. pl_routes (fold plan_service_port ports pl) = pl_routes pl @ rs"
proof (induction ports arbitrary: pl)
  case (Cons p ports)
  have "\<exists>rs. pl_routes (plan_service_port p pl) = pl_routes pl @ rs"
    by (auto simp: plan_service_port_def split: option.splits prod.splits)
  then show ?case using Cons [of "plan_service_port p pl"] by fastforce
qed simp

text \<open>
  Two services of a workload that give one port number different targets: the port of the second is rewritten
  to the proxy port of the first, and the sidecar passes its connections on to the target of the first.
\<close>

theorem same_port_number_misrouted:
  assumes "few_ports svcs" and "concat (map cc_ports svcs) = pa # ps"
    and a: "proxied_ports pa = Some (n, t)" and b: "proxied_ports pb = Some (n, t')" and "t \<noteq> t'" and "mp_port mp = sp_port pb"
  shows "\<exists>q r. mp_target_port (rewrite_manifest_port (build_proxy_routes (Some svcs)) mp) = Some (IntPort (ucast q))
    \<and> port_routes (set_port_routes table (build_proxy_routes (Some svcs))) q = Some r \<and> pr_target_port r \<noteq> t'"
proof -
  let ?R = "build_proxy_routes (Some svcs)"
  obtain q used next' where "allocate_port n t (pl_used new_plan) (pl_next new_plan) = (q, used, next')" by (metis prod_cases3)
  then have "pl_routes (plan_service_port pa new_plan) = [\<lparr>pr_proxy_port = q, pr_service_port = n, pr_target_port = t\<rparr>]"
    using a by (simp add: plan_service_port_def) (simp add: new_plan_def)
  then obtain rs where R: "?R = \<lparr>pr_proxy_port = q, pr_service_port = n, pr_target_port = t\<rparr> # rs"
    using plan_appends [of ps "plan_service_port pa new_plan"] by (auto simp: build_proxy_routes_def assms(2))
  then have "route_for ?R (mp_port mp) = Some \<lparr>pr_proxy_port = q, pr_service_port = n, pr_target_port = t\<rparr>"
    using proxied_number [OF b] assms(6) by (simp add: route_for_def)
  moreover have "inj_on pr_proxy_port (set ?R)" using planned_routes(2) [OF assms(1)] by (auto simp: inj_on_def)
  then have "port_routes (set_port_routes table ?R) q = Some \<lparr>pr_proxy_port = q, pr_service_port = n, pr_target_port = t\<rparr>"
    by (subst port_routes_inj) (simp_all add: R)
  ultimately show ?thesis using \<open>t \<noteq> t'\<close> by (intro exI [of _ q]) (simp add: rewrite_manifest_port_def)
qed

definition ex_port :: "i32 \<Rightarrow> i32 \<Rightarrow> service_port" where
  "ex_port n t = \<lparr>sp_name = None, sp_port = n, sp_target_port = Some t, sp_protocol = None, sp_node_port = None,
     sp_original_target_port = Some t\<rparr>"

definition ex_cached :: "string \<Rightarrow> i32 \<Rightarrow> i32 \<Rightarrow> cached_service" where
  "ex_cached name n t = \<lparr>cc_name = name, cc_selector = [], cc_ports = [ex_port n t], cc_yaml = name\<rparr>"

lemmas ex_routes_defs = build_proxy_routes_def ex_cached_def ex_port_def plan_service_port_def proxied_ports_def
  u16_try_from_def new_plan_def DEFAULT_SIDECAR_PROXY_PORT_def DEFAULT_SIDECAR_PROXY_METRICS_PORT_def
  SIDECAR_PROXY_DYNAMIC_PORT_START_def

lemma ex_allocated:
  "s \<noteq> 26001 \<Longrightarrow> t \<noteq> 26001 \<Longrightarrow> allocate_port s t {25001, 25090} 26001 = (26001, {26001, 25001, 25090}, 26002)"
  "s \<noteq> 26002 \<Longrightarrow> t \<noteq> 26002 \<Longrightarrow> allocate_port s t {26001, 25001, 25090} 26002 = (26002, {26002, 26001, 25001, 25090}, 26003)"
  by (simp_all add: allocate_port.simps Let_def)

lemma ex_routes:
  "build_proxy_routes (Some [ex_cached ''web'' 80 8080]) = [\<lparr>pr_proxy_port = 26001, pr_service_port = 80, pr_target_port = 8080\<rparr>]"
  "build_proxy_routes (Some [ex_cached ''admin'' 9000 9001, ex_cached ''web'' 80 8080])
     = [\<lparr>pr_proxy_port = 26001, pr_service_port = 9000, pr_target_port = 9001\<rparr>,
        \<lparr>pr_proxy_port = 26002, pr_service_port = 80, pr_target_port = 8080\<rparr>]"
  by (simp_all add: ex_routes_defs ex_allocated)

definition ex_both :: "proxy_port_route list" where
  "ex_both = build_proxy_routes (Some [ex_cached ''admin'' 9000 9001, ex_cached ''web'' 80 8080])"

definition ex_alone :: "proxy_port_route list" where
  "ex_alone = build_proxy_routes (Some [ex_cached ''web'' 80 8080])"

text \<open>
  A service \<open>web\<close> that selects two workloads, one of which is also selected by a service \<open>admin\<close>. Its port can
  point to one proxy port only, and whichever workload is rewritten last, the sidecars of the other one take the
  connections for another service, or do not know the port at all.
\<close>

theorem shared_service_misrouted:
  assumes "mp_port mp = 80"
  shows "mp_target_port (rewrite_manifest_port ex_alone (rewrite_manifest_port ex_both mp)) = Some (IntPort 26001)
    \<and> service_port_for_proxy (set_port_routes table ex_both) 26001 = 9000
    \<and> mp_target_port (rewrite_manifest_port ex_both (rewrite_manifest_port ex_alone mp)) = Some (IntPort 26002)
    \<and> port_routes (set_port_routes table ex_alone) 26002 = None"
  unfolding ex_both_def ex_alone_def ex_routes
  using assms by (simp add: rewrite_manifest_port_def route_for_def service_port_for_proxy_def set_port_routes_def)

section \<open>Witnesses\<close>

definition ex_manifest :: "i32 \<Rightarrow> service_manifest" where
  "ex_manifest t = \<lparr>mf_name = Some ''web'', mf_labels = None, mf_other = '''',
     mf_spec = Some \<lparr>sv_ports = Some [\<lparr>mp_name = None, mp_port = 80, mp_target_port = Some (IntPort t), mp_node_port = None, mp_other = ''''\<rparr>],
       sv_selector = None, sv_cluster_ip = None, sv_cluster_ips = None, sv_health_check_node_port = None, sv_other = ''''\<rparr>,
     mf_status = None\<rparr>"

definition ex_yaml :: service_yaml where
  "ex_yaml = \<lparr>parse_service = (\<lambda>s. if s = ''web'' then Ok (ex_manifest 8080) else if s = ''proxied'' then Ok (ex_manifest 26001) else Err ''syntax''),
     show_service = (\<lambda>m. if m = ex_manifest 8080 then Ok ''web'' else if m = ex_manifest 26001 then Ok ''proxied'' else Err ''size'')\<rparr>"

definition ex_entry :: service_with_yaml where
  "ex_entry = \<lparr>sw_yaml = ''web'', sw_details = \<lparr>sd_name = ''web'', sd_ports = [ex_port 80 8080], sd_selector = []\<rparr>\<rparr>"

definition ex_proxied :: service_with_yaml where
  "ex_proxied = \<lparr>sw_yaml = ''proxied'', sw_details = \<lparr>sd_name = ''web'',
     sd_ports = [(ex_port 80 8080)\<lparr>sp_target_port := Some 26001\<rparr>], sd_selector = []\<rparr>\<rparr>"

lemma ex_law: "show_service ex_yaml m = Ok out \<Longrightarrow> parse_service ex_yaml out = Ok m"
  by (auto simp: ex_yaml_def split: if_splits)

lemma ex_keys: "proxied_ports (ex_port 80 8080) = Some (80, 8080)" "proxied_ports (ex_port 80 9090) = Some (80, 9090)"
  by (simp_all add: proxied_ports_def ex_port_def u16_try_from_def)

lemma ex_few: "few_ports [ex_cached ''web'' 80 8080]" "one_target_per_port [ex_cached ''web'' 80 8080]"
  by (simp_all add: few_ports_def one_target_per_port_def ex_cached_def ex_keys)

lemma ex_rewritten_entry: "rewrite_service_for_sidecar ex_yaml [\<lparr>pr_proxy_port = 26001, pr_service_port = 80, pr_target_port = 8080\<rparr>] ex_entry = Ok ex_proxied"
  by (simp add: rewrite_service_for_sidecar_def ex_yaml_def ex_entry_def ex_proxied_def yaml_error_def map_manifest_ports_def
      rewrite_manifest_port_def rewrite_details_port_def route_for_def ex_manifest_def ex_port_def)

lemma ex_restored:
  "restore_service_target_ports ex_yaml (sw_yaml ex_proxied) (sd_ports (sw_details ex_proxied)) = Ok (''web'', [ex_port 80 8080])"
  by (simp add: restore_service_target_ports_def ex_yaml_def ex_proxied_def yaml_error_def map_manifest_ports_def original_targets_def
      restore_manifest_port_def restore_details_port_def ex_manifest_def ex_port_def)

theorem proxy_ports_planned_witness:
  "inj_on pr_proxy_port (set (build_proxy_routes (Some [ex_cached ''web'' 80 8080])))"
  using proxy_ports_planned [OF ex_few(1)] by simp



theorem same_port_number_misrouted_witness:
  "\<exists>q r. port_routes (set_port_routes default_routing_table
      (build_proxy_routes (Some [ex_cached ''web'' 80 8080, ex_cached ''admin'' 80 9090]))) q = Some r \<and> pr_target_port r \<noteq> 9090"
proof -
  let ?mp = "\<lparr>mp_name = None, mp_port = 80, mp_target_port = None, mp_node_port = None, mp_other = ''''\<rparr>"
  have "few_ports [ex_cached ''web'' 80 8080, ex_cached ''admin'' 80 9090]"
    "concat (map cc_ports [ex_cached ''web'' 80 8080, ex_cached ''admin'' 80 9090]) = ex_port 80 8080 # [ex_port 80 9090]"
    "(8080 :: u16) \<noteq> 9090" "mp_port ?mp = sp_port (ex_port 80 9090)"
    by (simp_all add: few_ports_def ex_cached_def ex_port_def)
  from same_port_number_misrouted [OF this(1,2) ex_keys(1) ex_keys(2) this(3,4)] show ?thesis by blast
qed

theorem shared_service_misrouted_witness:
  "mp_target_port (rewrite_manifest_port ex_alone (rewrite_manifest_port ex_both
       \<lparr>mp_name = None, mp_port = 80, mp_target_port = None, mp_node_port = None, mp_other = ''''\<rparr>)) = Some (IntPort 26001)"
  using shared_service_misrouted [of "\<lparr>mp_name = None, mp_port = 80, mp_target_port = None, mp_node_port = None, mp_other = ''''\<rparr>"]
  by simp

theorem proxy_port_search_terminates_witness:
  "fst (allocate_port 80 8080 {25001, 25090} 26001) \<notin> {25001, 25090, 80, 8080}"
proof -
  obtain p used' n' where a: "allocate_port 80 8080 {25001, 25090} 26001 = (p, used', n')" by (metis prod_cases3)
  have "unat (26001 :: u32) \<le> unat (30000 :: u16)" "(30000 :: u16) \<notin> {25001, 25090} \<union> {80, 8080}" by simp_all
  then have "\<not> (\<forall>q :: u16. unat (26001 :: u32) \<le> unat q \<longrightarrow> q \<in> {25001, 25090} \<union> {80, 8080})" by blast
  then show ?thesis using proxy_port_search_terminates [where service = 80 and target = 8080 and used = "{25001, 25090}" and n = 26001] a by auto
qed

end
