(* ===== verification/Spec2Isabelle.thy ===== *)
theory Spec2Isabelle
  imports Protocol_Detector Preview_Proxy Sidecar_Server Devbox_Connection Stun Relay_Buffer Direct_Endpoint
    Devbox_Dns Workspace_Billing Devbox_Intercepts Organization_Guards Proxy_Routes
begin

text \<open>
  Lapdev is a self-hosted platform for development environments. One server (the API server, with the conductor
  and the enterprise rules linked into it) keeps the accounts, schedules workspaces on hosts, bills them, and
  controls environments in Kubernetes clusters. In each cluster a kube-manager connects to the server and to a
  sidecar proxy in every pod. A sidecar decides for every connection whether it goes to the container, to the
  service of a branch environment, or to a developer whose devbox intercepts the workload. The CLI of the
  developer (the devbox) accepts such connections and makes the services of the environment reachable under their
  names. Preview URLs lead from a browser through the server into the cluster.

  \<^bold>\<open>How the code is modelled.\<close> A struct is a \<^theory_text>\<open>record\<close>, an enum a \<^theory_text>\<open>datatype\<close>, a machine integer a word of its width,
  a \<^verbatim>\<open>HashMap\<close> a function to options, a \<^verbatim>\<open>BTreeMap\<close> a list sorted by its keys, a table of the database a list of
  its rows in the order of insertion. A handler is a function from the state (and the time, the new random ids, the answers of the
  services it calls) to an error or a result with the new state, \<^term>\<open>Inl\<close> being \<^verbatim>\<open>Err\<close>. Handlers that run at the same time are
  steps of a relation: what a handler reads and writes under one lock or in one transaction is one step, and where
  the code releases the lock in between, the model has two steps. A Rust string is the list of its bytes; operations whose
  meaning depends on Unicode (trimming, upper and lower case) are those on ASCII, and the theorems that need it say so.

  \<^bold>\<open>Foundations.\<close>
  \<^item> \<open>Lapdev_Prelude\<close>: machine integers, results, the string, slice and map operations of Rust's standard library.

  \<^bold>\<open>The path of a connection.\<close>
  \<^item> \<open>Http_Parser\<close> (\<^verbatim>\<open>kube-rpc/src/http_parser.rs\<close>): reading the head of a request from chunks. The result does not
    depend on how the bytes were cut into chunks. The interface \<open>chunk_reader\<close> is shared with the next part.
  \<^item> \<open>Protocol_Detector\<close>, \<open>Otel_Routing\<close>, \<open>Routing_Table\<close>, \<open>Sidecar_Server\<close>, \<open>Devbox_Connection\<close>
    (\<^verbatim>\<open>kube-sidecar-proxy/src\<close>: \<^verbatim>\<open>protocol_detector.rs\<close>, \<^verbatim>\<open>otel_routing.rs\<close>, \<^verbatim>\<open>config.rs\<close>, \<^verbatim>\<open>server.rs\<close>, \<^verbatim>\<open>http2_proxy.rs\<close>, \<^verbatim>\<open>rpc.rs\<close>): the first bytes of a
    connection, the trace context that names a branch, the table of routes, the sessions that follow the table,
    and the tunnel to a devbox. Bytes read for detection are neither lost nor repeated; a devbox of a branch gets the
    traffic of that branch only; a connection open for a branch is told when the route of the branch changes.
  \<^item> \<open>Preview_Url\<close>, \<open>Preview_Proxy\<close> (\<^verbatim>\<open>api/src/kube_controller/preview_url.rs\<close>, \<^verbatim>\<open>kube/src/preview_url.rs\<close>, \<^verbatim>\<open>kube/src/http_proxy.rs\<close>): the tables of preview URLs, parsing and
    resolution of a host name, and the proxy that checks the session and writes the environment into the trace
    state, where the sidecar reads it.
  \<^item> \<open>Tunnel_Message\<close>, \<open>Direct_Endpoint\<close>, \<open>Stun\<close>, \<open>Relay_Buffer\<close> (\<^verbatim>\<open>tunnel/src\<close>): the bytes that open a stream and the agreement
    of both ends, one-time credentials and the handshake of a direct connection, address discovery on a shared
    socket, and the queues that carry QUIC over a websocket with their wake-up protocols.
  \<^item> \<open>Ip_Allocator\<close>, \<open>Devbox_Dns\<close> (\<^verbatim>\<open>cli/src/devbox\<close>): addresses, names and listeners a devbox gives to the services of its
    environment.

  \<^bold>\<open>Control of the connections.\<close>
  \<^item> \<open>Generation_Registry\<close> (\<^verbatim>\<open>kube/src/tunnel.rs\<close>, \<^verbatim>\<open>api/src/devbox_tunnel_registry.rs\<close>, \<^verbatim>\<open>api/src/kube_controller/mod.rs\<close>): the tables of live connections. The interface \<open>connection_table\<close> is
    interpreted on every one of them, the sidecars of the kube-manager included.
  \<^item> \<open>Devbox_Sessions\<close> (\<^verbatim>\<open>api/src/cli_auth.rs\<close>, \<^verbatim>\<open>devbox.rs\<close>, \<^verbatim>\<open>hrpc_service.rs\<close>, \<^verbatim>\<open>state.rs\<close>): login of a CLI, its control connection and tunnels, and the rows
    of sessions and intercepts.
  \<^item> \<open>Sidecar_Manager\<close> (\<^verbatim>\<open>kube-manager/src/sidecar_proxy_manager.rs\<close>, \<^verbatim>\<open>manager_rpc.rs\<close>): connections of sidecars and the snapshots of routes that
    a reconnecting sidecar is given.
  \<^item> \<open>Devbox_Intercepts\<close>: the composition from the row of an intercept, through the server, a kube-manager and a
    sidecar, to the port of the developer.

  \<^bold>\<open>The conductor.\<close>
  \<^item> \<open>Conductor_Db\<close> (\<^verbatim>\<open>db/entities/src\<close>, \<^verbatim>\<open>db/src/api.rs\<close>): rows and lookups.
  \<^item> \<open>Scheduler\<close>, \<open>Quota\<close>, \<open>Usage_Billing\<close> (\<^verbatim>\<open>conductor/src/scheduler.rs\<close>, \<^verbatim>\<open>enterprise/src/quota.rs\<close>, \<^verbatim>\<open>enterprise.rs\<close>, \<^verbatim>\<open>usage.rs\<close>): choice of host and cores, limits, and cost.
  \<^item> \<open>Workspace_Lifecycle\<close> (\<^verbatim>\<open>conductor/src/server.rs\<close>): what each handler and background task does to the tables, as one step
    relation; no two workspaces or prebuilds of a host hold a common dedicated core.
  \<^item> \<open>Workspace_Billing\<close>: the life of a workspace and its bill together.

  \<^bold>\<open>Accounts.\<close>
  \<^item> \<open>Accounts\<close>, \<open>Organizations\<close>, \<open>Organization_Guards\<close> (\<^verbatim>\<open>api/src/session.rs\<close>, \<^verbatim>\<open>account.rs\<close>, \<^verbatim>\<open>organization.rs\<close>, \<^verbatim>\<open>admin.rs\<close>, \<^verbatim>\<open>state.rs\<close>): logins,
    organizations, members, invitations and the audit log. Owners, logins and the administrator of the cluster never disappear;
    every change of an organization is authorized and logged once.

  \<^bold>\<open>Parameters.\<close> What the repository does not contain is an argument: parsing and printing of UUIDs, the sealing of
  tokens and hashing, the HTTP and YAML parsers, the order in which a hash map is iterated, the calls to hosts, QUIC and
  the OAuth providers. A theorem that relies on such an argument has the documented law as a named hypothesis, and its
  witness instantiates it.

  \<^bold>\<open>Loops.\<close> A loop over a stream recurses over the remaining events of the stream; the probe and receive loops over the given list of
  timer and packet events; a loop with a counter has a measure and is total.

  \<^bold>\<open>What the modelling showed\<close> is stated by theorems of its own, among them: a second branch that attaches a devbox hides
  the first one in the snapshot of the kube-manager; a displaced connection revokes the session of the device that
  displaced it; a revoked token logs in again; a CLI may enter the environment of somebody else; a route survives its
  intercept when that is stopped while the CLI is offline; starting a workspace twice leaves a usage open for ever;
  an administrator of an organization can make himself its owner; two overlapping requests use one invitation; a
  waker registered after the check of the receive queue can be lost.

  \<^bold>\<open>Not modelled.\<close> The dashboard and the command line interface (presentation); the copying of bytes, sockets, TLS,
  websockets and the QUIC and HTTP/2 libraries; the building of images and the handling of containers and ssh on hosts
  (\<^verbatim>\<open>ws\<close>, \<^verbatim>\<open>guest-agent\<close>, \<^verbatim>\<open>proxy-ssh\<close>: processes and files); the kube-manager's reading and writing of Kubernetes objects; failures
  of the database; the migrations, of which the unique indexes the code relies on are modelled; certificates and licenses.
\<close>

end
